theory Spec2Isabelle
  imports Main "HOL-Library.Word"
begin

section \<open>The Poplar interface used by the tile primitives\<close>

text \<open>
  The primitives of \<^verbatim>\<open>tile_array_primitives_impl.cpp\<close> and
  \<^verbatim>\<open>tile_interpreter_primitives_impl.cpp\<close> build a Poplar program against a
  \<^verbatim>\<open>poplar::Graph\<close> that they receive by reference and mutate. Poplar itself is an
  external library; this section fixes the part of its behaviour the primitives rely on.

  \<^item> A tensor is a view: an element type, a shape, and the row-major list of the storage
    elements it refers to. A storage element is a pair (variable id, offset in the variable).
    Two tensors share storage exactly when their element lists meet.
  \<^item> The graph holds the variables added so far (a variable id is its position), the tile of
    every mapped storage element, the number of compute sets, and the vertices.
  \<^item> Poplar validates sub-tensor indices, tile numbers and the shapes of a copy and throws;
    these are the \<open>poplar_error\<close> results below. What Poplar checks against codelets
    (vertex names, field names and field ranks) is outside the model.
\<close>

datatype poplar_Type =
    BOOL | CHAR_T | SIGNED_CHAR | UNSIGNED_CHAR
  | SHORT | UNSIGNED_SHORT | HALF
  | INT_T | UNSIGNED_INT | FLOAT
  | LONG | UNSIGNED_LONG | LONGLONG | UNSIGNED_LONGLONG

type_synonym elem_ref = "nat \<times> nat"

record Tensor =
  elementType :: poplar_Type
  tshape :: "nat list"
  elems :: "elem_ref list"

text \<open>The exceptions the sources throw or let through.\<close>

datatype exn =
    poplibs_error      \<comment> \<open>\<^verbatim>\<open>poputil::poplibs_error\<close>, thrown by the primitives\<close>
  | runtime_error      \<comment> \<open>\<^verbatim>\<open>std::runtime_error\<close>, thrown by the primitives\<close>
  | out_of_range       \<comment> \<open>\<^verbatim>\<open>std::out_of_range\<close>, thrown by \<^verbatim>\<open>std::vector::at\<close>\<close>
  | length_error       \<comment> \<open>\<^verbatim>\<open>std::length_error\<close>, thrown by the \<^verbatim>\<open>std::vector\<close> constructor\<close>
  | poplar_error       \<comment> \<open>thrown inside Poplar\<close>

text \<open>Behaviour the C++ standard leaves undefined, by kind.\<close>

datatype undefined_kind =
    OutOfBounds        \<comment> \<open>\<^verbatim>\<open>std::vector::operator[]\<close> past the end\<close>
  | SignedOverflow     \<comment> \<open>overflow of a signed \<^verbatim>\<open>int32_t\<close> addition\<close>

datatype edge = Edge Tensor | EdgeVector "Tensor list"

datatype init_value = U32 "32 word" | F32 "32 word"

record Vertex =
  vertex_cs :: nat
  vertex_name :: string
  vertex_tile :: "nat option"
  vertex_perf :: "nat option"
  vertex_edges :: "(string \<times> edge) list"
  vertex_init :: "(string \<times> init_value) list"

record Graph =
  numTiles :: nat
  variables :: "(poplar_Type \<times> nat list) list"
  tileMapping :: "(elem_ref \<times> nat) list"
  computeSets :: nat
  vertices :: "Vertex list"

datatype Program = Copy Tensor Tensor | Execute nat | Sequence "Program list"

text \<open>
  How a call ends. The graph is passed by reference, so a call that throws leaves the graph
  as it was at the throw: \<open>Thrown\<close> carries it. \<open>Terminated\<close> is \<^verbatim>\<open>std::terminate\<close>,
  reached through a failed \<^verbatim>\<open>FMT_ASSERT\<close> (the modules are compiled without
  \<^verbatim>\<open>NDEBUG\<close>). \<open>Undefined\<close> is undefined behaviour: nothing is known of what follows.
\<close>

datatype 'a outcome =
    Returned 'a Graph
  | Thrown exn Graph
  | Terminated
  | Undefined undefined_kind

fun bind :: "'a outcome \<Rightarrow> ('a \<Rightarrow> Graph \<Rightarrow> 'b outcome) \<Rightarrow> 'b outcome" where
  "bind (Returned a g) f = f a g"
| "bind (Thrown e g) f = Thrown e g"
| "bind Terminated f = Terminated"
| "bind (Undefined u) f = Undefined u"

fun lift :: "exn + 'a \<Rightarrow> Graph \<Rightarrow> 'a outcome" where
  "lift (Inl e) g = Thrown e g"
| "lift (Inr a) g = Returned a g"

text \<open>A \<^verbatim>\<open>for\<close> loop over the given index values, threading the loop state and the graph.\<close>

fun foreach :: "'i list \<Rightarrow> ('i \<Rightarrow> 's \<Rightarrow> Graph \<Rightarrow> 's outcome) \<Rightarrow> 's \<Rightarrow> Graph \<Rightarrow> 's outcome" where
  "foreach [] body st g = Returned st g"
| "foreach (i # is) body st g = bind (body i st g) (\<lambda>st' g'. foreach is body st' g')"

subsection \<open>Tensor views\<close>

text \<open>\<^verbatim>\<open>t[i]\<close>: the sub-tensor at index \<open>i\<close> of the first dimension.\<close>

definition index :: "Tensor \<Rightarrow> nat \<Rightarrow> exn + Tensor" where
  "index t i =
     (case tshape t of
        [] \<Rightarrow> Inl poplar_error
      | n # sh \<Rightarrow>
          if i < n
          then Inr (t\<lparr>tshape := sh,
                      elems := take (prod_list sh) (drop (i * prod_list sh) (elems t))\<rparr>)
          else Inl poplar_error)"

text \<open>\<^verbatim>\<open>t.expand({0})\<close>: a new leading dimension of extent 1.\<close>

definition expand0 :: "Tensor \<Rightarrow> Tensor" where
  "expand0 t = t\<lparr>tshape := 1 # tshape t\<rparr>"


definition flatten :: "Tensor \<Rightarrow> Tensor" where
  "flatten t = t\<lparr>tshape := [prod_list (tshape t)]\<rparr>"

text \<open>
  \<^verbatim>\<open>t.reinterpret(type)\<close>: the same storage read at another element type. Poplar asks
  for a type of the same size, which every call in the sources respects.
\<close>

definition reinterpret :: "Tensor \<Rightarrow> poplar_Type \<Rightarrow> Tensor" where
  "reinterpret t ty = t\<lparr>elementType := ty\<rparr>"

text \<open>
  \<^verbatim>\<open>poplar::concat(ts)\<close> along dimension 0. The tensors must agree on the element type
  and on the trailing dimensions; a list with nothing to concatenate is rejected.
\<close>

definition concat_tensors :: "Tensor list \<Rightarrow> exn + Tensor" where
  "concat_tensors ts =
     (case ts of
        [] \<Rightarrow> Inl poplar_error
      | t # _ \<Rightarrow>
          if list_all (\<lambda>u. tshape u \<noteq> [] \<and> tl (tshape u) = tl (tshape t)
                          \<and> elementType u = elementType t) ts
          then Inr \<lparr>elementType = elementType t,
                    tshape = sum_list (map (\<lambda>u. hd (tshape u)) ts) # tl (tshape t),
                    elems = concat (map elems ts)\<rparr>
          else Inl poplar_error)"

subsection \<open>Graph construction\<close>

text \<open>\<^verbatim>\<open>graph.addVariable(type, shape)\<close>: fresh storage, not yet mapped to a tile.\<close>

definition addVariable :: "poplar_Type \<Rightarrow> nat list \<Rightarrow> Graph \<Rightarrow> Tensor \<times> Graph" where
  "addVariable ty sh g =
     (\<lparr>elementType = ty, tshape = sh,
       elems = map (\<lambda>off. (length (variables g), off)) [0..<prod_list sh]\<rparr>,
      g\<lparr>variables := variables g @ [(ty, sh)]\<rparr>)"

text \<open>
  \<^verbatim>\<open>graph.setTileMapping(tensor, tile)\<close>. The tile travels as \<^verbatim>\<open>unsigned\<close>, so an
  \<^verbatim>\<open>int32_t\<close> is read as \<open>unat\<close>; a tile the target does not have is rejected. The
  newest mapping of a storage element is the first one in the list.
\<close>

definition setTileMapping :: "Tensor \<Rightarrow> 32 word \<Rightarrow> Graph \<Rightarrow> unit outcome" where
  "setTileMapping t tile g =
     (if unat tile < numTiles g
      then Returned () (g\<lparr>tileMapping := map (\<lambda>e. (e, unat tile)) (elems t) @ tileMapping g\<rparr>)
      else Thrown poplar_error g)"

definition tile_of :: "Graph \<Rightarrow> elem_ref \<Rightarrow> nat option" where
  "tile_of g e = map_of (tileMapping g) e"

definition addComputeSet :: "Graph \<Rightarrow> nat \<times> Graph" where
  "addComputeSet g = (computeSets g, g\<lparr>computeSets := Suc (computeSets g)\<rparr>)"

definition addVertex :: "nat \<Rightarrow> string \<Rightarrow> Graph \<Rightarrow> nat \<times> Graph" where
  "addVertex cs vn g =
     (length (vertices g),
      g\<lparr>vertices := vertices g @
           [\<lparr>vertex_cs = cs, vertex_name = vn, vertex_tile = None, vertex_perf = None,
             vertex_edges = [], vertex_init = []\<rparr>]\<rparr>)"

definition update_vertex :: "nat \<Rightarrow> (Vertex \<Rightarrow> Vertex) \<Rightarrow> Graph \<Rightarrow> Graph" where
  "update_vertex v f g = g\<lparr>vertices := (vertices g)[v := f (vertices g ! v)]\<rparr>"

text \<open>\<^verbatim>\<open>graph.setTileMapping(vertex, tile)\<close>.\<close>

definition setVertexTileMapping :: "nat \<Rightarrow> 32 word \<Rightarrow> Graph \<Rightarrow> unit outcome" where
  "setVertexTileMapping v tile g =
     (if unat tile < numTiles g
      then Returned () (update_vertex v (\<lambda>x. x\<lparr>vertex_tile := Some (unat tile)\<rparr>) g)
      else Thrown poplar_error g)"

definition setPerfEstimate :: "nat \<Rightarrow> nat \<Rightarrow> Graph \<Rightarrow> Graph" where
  "setPerfEstimate v n g = update_vertex v (\<lambda>x. x\<lparr>vertex_perf := Some n\<rparr>) g"

text \<open>\<^verbatim>\<open>graph.connect(v[field], t)\<close>, with one tensor or with a vector of tensors.\<close>

definition connect :: "nat \<Rightarrow> string \<Rightarrow> edge \<Rightarrow> Graph \<Rightarrow> Graph" where
  "connect v field e g = update_vertex v (\<lambda>x. x\<lparr>vertex_edges := vertex_edges x @ [(field, e)]\<rparr>) g"

definition setInitialValue :: "nat \<Rightarrow> string \<Rightarrow> init_value \<Rightarrow> Graph \<Rightarrow> Graph" where
  "setInitialValue v field a g =
     update_vertex v (\<lambda>x. x\<lparr>vertex_init := vertex_init x @ [(field, a)]\<rparr>) g"

text \<open>\<^verbatim>\<open>poplar::program::Copy(src, dst)\<close>: both sides of one type and one shape.\<close>

definition make_Copy :: "Tensor \<Rightarrow> Tensor \<Rightarrow> exn + Program" where
  "make_Copy src dst =
     (if elementType src = elementType dst \<and> tshape src = tshape dst
      then Inr (Copy src dst) else Inl poplar_error)"

subsection \<open>Running a program on a store\<close>

text \<open>
  A store gives every storage element its value. A copy reads the whole source, then writes
  the destination. What a compute set does to the store is the codelets' business: it is the
  parameter \<open>E\<close>.
\<close>

definition tensor_value :: "(elem_ref \<Rightarrow> 'v) \<Rightarrow> Tensor \<Rightarrow> 'v list" where
  "tensor_value s t = map s (elems t)"

definition copy_store :: "Tensor \<Rightarrow> Tensor \<Rightarrow> (elem_ref \<Rightarrow> 'v) \<Rightarrow> (elem_ref \<Rightarrow> 'v)" where
  "copy_store src dst s =
     (\<lambda>e. case map_of (zip (elems dst) (tensor_value s src)) e of Some v \<Rightarrow> v | None \<Rightarrow> s e)"

fun run :: "(nat \<Rightarrow> (elem_ref \<Rightarrow> 'v) \<Rightarrow> (elem_ref \<Rightarrow> 'v)) \<Rightarrow> Program \<Rightarrow> (elem_ref \<Rightarrow> 'v) \<Rightarrow> (elem_ref \<Rightarrow> 'v)" where
  "run E (Copy src dst) s = copy_store src dst s"
| "run E (Execute cs) s = E cs s"
| "run E (Sequence ps) s = fold (run E) ps s"

subsection \<open>C++ vectors and integers\<close>

text \<open>An \<^verbatim>\<open>int32_t\<close> used where a \<^verbatim>\<open>std::size_t\<close> (64 bits) is expected.\<close>

definition size_t_of :: "32 word \<Rightarrow> nat" where
  "size_t_of i = nat (sint i mod 2 ^ 64)"

text \<open>\<^verbatim>\<open>v[i]\<close> on a \<^verbatim>\<open>std::vector\<close>: no check, \<open>None\<close> stands for the read past the end.\<close>

definition vector_at :: "'a list \<Rightarrow> nat \<Rightarrow> 'a option" where
  "vector_at xs i = (if i < length xs then Some (xs ! i) else None)"

text \<open>\<^verbatim>\<open>v.at(i)\<close>: checked.\<close>

definition at :: "'a list \<Rightarrow> nat \<Rightarrow> exn + 'a" where
  "at xs i = (if i < length xs then Inr (xs ! i) else Inl out_of_range)"

section \<open>Tile placement utilities\<close>

text \<open>
  Modelled from the spec: \<^verbatim>\<open>createShardedVariable\<close> is declared in
  \<^verbatim>\<open>tile_array_utils.hpp\<close>, which is not among the sources. The spec describes it as
  the helper that allocates a tensor already partitioned across a requested tile list: a
  fresh variable whose leading axis has one partition per entry of the tile list, each
  partition of the given shape and mapped to its entry. A tile the target does not have is
  rejected when the mapping is set.
\<close>

definition createShardedVariable ::
    "poplar_Type \<Rightarrow> nat list \<Rightarrow> 32 word list \<Rightarrow> Graph \<Rightarrow> Tensor outcome" where
  "createShardedVariable ty sh tile_array g =
     (let (t, g1) = addVariable ty (length tile_array # sh) g
      in bind (foreach [0..<length tile_array]
                 (\<lambda>i _ g'. bind (lift (index t i) g')
                               (\<lambda>part g''. setTileMapping part (tile_array ! i) g''))
                 () g1)
           (\<lambda>_ g2. Returned t g2))"

section \<open>Sharded placement\<close>

text \<open>
  \<^verbatim>\<open>TilePutShardedPrimitive::program\<close>. The attribute string arrives decoded as the
  tile array; \<open>outputs\<close> is the caller's output vector, which the last statement extends.
  \<^verbatim>\<open>input.shape()[0]\<close> reads a \<^verbatim>\<open>std::vector\<close> without a check.
\<close>

definition TilePutShardedPrimitive_program ::
    "Graph \<Rightarrow> Tensor list \<Rightarrow> Tensor list \<Rightarrow> 32 word list \<Rightarrow> (Program \<times> Tensor list) outcome" where
  "TilePutShardedPrimitive_program g inputs outputs tile_array =
     (if length inputs \<noteq> 1 then Thrown poplibs_error g
      else
        let input = inputs ! 0 in
        case vector_at (tshape input) 0 of
          None \<Rightarrow> Undefined OutOfBounds
        | Some n \<Rightarrow>
            if n \<noteq> length tile_array then Thrown poplibs_error g
            else
              bind (lift (index input 0) g) (\<lambda>input0 g0.
              bind (createShardedVariable (elementType input) (tshape input0) tile_array g0)
                (\<lambda>output g1.
              bind (lift (make_Copy input output) g1) (\<lambda>prog g2.
              Returned (prog, outputs @ [output]) g2))))"

section \<open>Replicated placement\<close>


section \<open>Cross-tile gather\<close>

record TileGatherParams =
  previous_tiles :: "32 word list"
  indices :: "32 word list"
  tiles :: "32 word list"

text \<open>
  The body of the loop of \<^verbatim>\<open>TileGatherPrimitive::program\<close> at destination slot
  \<open>idx\<close>; the loop state is the sequence of copies and the output slices so far.
  \<^verbatim>\<open>params.tiles[idx]\<close> is inside the vector by the loop condition.
\<close>

definition gather_body ::
    "TileGatherParams \<Rightarrow> Tensor \<Rightarrow> poplar_Type \<Rightarrow> nat list \<Rightarrow> nat
       \<Rightarrow> Program list \<times> Tensor list \<Rightarrow> Graph \<Rightarrow> (Program list \<times> Tensor list) outcome" where
  "gather_body params input item_type item_shape idx st g =
     (case vector_at (indices params) idx of
        None \<Rightarrow> Undefined OutOfBounds
      | Some gather_idx \<Rightarrow>
          bind (lift (index input (size_t_of gather_idx)) g) (\<lambda>input_item g0.
            case vector_at (previous_tiles params) (size_t_of gather_idx) of
              None \<Rightarrow> Undefined OutOfBounds
            | Some input_tile \<Rightarrow>
                let output_tile = tiles params ! idx in
                if input_tile = output_tile
                then Returned (fst st, snd st @ [expand0 input_item]) g0
                else
                  let (output_item, g1) = addVariable item_type item_shape g0 in
                  bind (setTileMapping output_item output_tile g1) (\<lambda>_ g2.
                  bind (lift (make_Copy input_item output_item) g2) (\<lambda>c g3.
                  Returned (fst st @ [c], snd st @ [expand0 output_item]) g3))))"

definition TileGatherPrimitive_program ::
    "Graph \<Rightarrow> Tensor list \<Rightarrow> Tensor list \<Rightarrow> TileGatherParams \<Rightarrow> (Program \<times> Tensor list) outcome" where
  "TileGatherPrimitive_program g inputs outputs params =
     (if length inputs \<noteq> 1 then Thrown poplibs_error g
      else
        let input = inputs ! 0 in
        bind (lift (index input 0) g) (\<lambda>input0 g0.
        let item_shape = tshape input0; item_type = elementType input in
        bind (foreach [0..<length (tiles params)]
                (gather_body params input item_type item_shape) ([], []) g0)
          (\<lambda>st g1.
        bind (lift (concat_tensors (snd st)) g1) (\<lambda>output g2.
        Returned (Sequence (fst st), outputs @ [output]) g2))))"

section \<open>Tile data barrier: type reinterpretation\<close>

definition tileBarrierReinterpretTensor :: "Tensor \<Rightarrow> exn + Tensor" where
  "tileBarrierReinterpretTensor t =
     (if elementType t = BOOL then Inr (reinterpret t UNSIGNED_CHAR)
      else if elementType t = CHAR_T then Inr (reinterpret t UNSIGNED_CHAR)
      else if elementType t = SIGNED_CHAR then Inr (reinterpret t UNSIGNED_CHAR)
      else if elementType t = UNSIGNED_CHAR then Inr (reinterpret t UNSIGNED_CHAR)
      else if elementType t = SHORT then Inr (reinterpret t UNSIGNED_SHORT)
      else if elementType t = UNSIGNED_SHORT then Inr (reinterpret t UNSIGNED_SHORT)
      else if elementType t = HALF then Inr (reinterpret t UNSIGNED_SHORT)
      else if elementType t = INT_T then Inr (reinterpret t UNSIGNED_INT)
      else if elementType t = UNSIGNED_INT then Inr (reinterpret t UNSIGNED_INT)
      else if elementType t = FLOAT then Inr (reinterpret t UNSIGNED_INT)
      else Inl runtime_error)"

section \<open>Tile data barrier\<close>

record TileDataBarrierParams =
  vname :: string
  inputs_tiles :: "32 word list list"
  max_tile :: "32 word"

text \<open>
  \<^verbatim>\<open>std::vector<std::vector<poplar::Tensor>> tensors_per_tiles(params.max_tile + 1)\<close>.
  The sum is an \<^verbatim>\<open>int32_t\<close>; a negative size becomes a \<^verbatim>\<open>std::size_t\<close> beyond
  what a vector can hold, which its constructor refuses.
\<close>

definition make_tensors_per_tiles :: "32 word \<Rightarrow> Graph \<Rightarrow> Tensor list list outcome" where
  "make_tensors_per_tiles mt g =
     (if sint mt = 2 ^ 31 - 1 then Undefined SignedOverflow
      else if sint mt + 1 < 0 then Thrown length_error g
      else Returned (replicate (nat (sint mt + 1)) []) g)"

text \<open>
  The inner loop body: \<^verbatim>\<open>tensors_per_tiles[tiles[k]].push_back(in_reinterpret[k])\<close>.
  The bucket is selected before the slot is taken (C++17 evaluates the object of a member
  call before its arguments).
\<close>

definition barrier_slot_body ::
    "32 word list \<Rightarrow> Tensor \<Rightarrow> nat \<Rightarrow> Tensor list list \<Rightarrow> Graph \<Rightarrow> Tensor list list outcome" where
  "barrier_slot_body tls in_reinterpret k tensors_per_tiles g =
     (case vector_at tensors_per_tiles (size_t_of (tls ! k)) of
        None \<Rightarrow> Undefined OutOfBounds
      | Some bucket \<Rightarrow>
          bind (lift (index in_reinterpret k) g) (\<lambda>slot g0.
          Returned (tensors_per_tiles[size_t_of (tls ! k) := bucket @ [slot]]) g0))"

definition barrier_input_body ::
    "TileDataBarrierParams \<Rightarrow> Tensor list \<Rightarrow> nat \<Rightarrow> Tensor list list \<Rightarrow> Graph
       \<Rightarrow> Tensor list list outcome" where
  "barrier_input_body params inputs idx tensors_per_tiles g =
     bind (lift (tileBarrierReinterpretTensor (inputs ! idx)) g) (\<lambda>in_reinterpret g0.
       case vector_at (inputs_tiles params) idx of
         None \<Rightarrow> Undefined OutOfBounds
       | Some tls \<Rightarrow>
           foreach [0..<length tls] (barrier_slot_body tls in_reinterpret) tensors_per_tiles g0)"

text \<open>
  The second loop: one vertex for every tile whose bucket is not empty. The loop variable
  is an \<^verbatim>\<open>int32_t\<close> counting up to the number of buckets.
\<close>

definition barrier_vertex_body ::
    "TileDataBarrierParams \<Rightarrow> nat \<Rightarrow> Tensor list list \<Rightarrow> nat \<Rightarrow> unit \<Rightarrow> Graph \<Rightarrow> unit outcome" where
  "barrier_vertex_body params cs tensors_per_tiles tile u g =
     (let tensors = tensors_per_tiles ! tile in
      if length tensors = 0 then Returned () g
      else
        let (v, g1) = addVertex cs (vname params) g in
        bind (setVertexTileMapping v (of_nat tile) g1) (\<lambda>_ g2.
        Returned () (connect v ''data'' (EdgeVector tensors) (setPerfEstimate v 14 g2))))"

definition TileDataBarrierPrimitive_program ::
    "Graph \<Rightarrow> Tensor list \<Rightarrow> Tensor list \<Rightarrow> TileDataBarrierParams \<Rightarrow> (Program \<times> Tensor list) outcome" where
  "TileDataBarrierPrimitive_program g inputs outputs params =
     (if length inputs < 1 then Thrown poplibs_error g
      else
        bind (make_tensors_per_tiles (max_tile params) g) (\<lambda>empty_buckets g0.
        bind (foreach [0..<length inputs] (barrier_input_body params inputs) empty_buckets g0)
          (\<lambda>tensors_per_tiles g1.
        let (cs, g2) = addComputeSet g1 in
        bind (foreach [0..<length tensors_per_tiles]
                (barrier_vertex_body params cs tensors_per_tiles) () g2)
          (\<lambda>_ g3.
        Returned (Sequence [Execute cs], inputs) g3))))"

section \<open>Tile-mapped equation\<close>

datatype VertexIOType = In | Out | InOut

record 'd ShapedArray =
  shape :: "nat list"
  dtype :: 'd

record 'd VertexIOInfo =
  name :: string
  iotype :: VertexIOType
  aval :: "'d ShapedArray"
  rank :: "8 word"

definition connectReshape :: "'d VertexIOInfo \<Rightarrow> Tensor \<Rightarrow> exn + Tensor" where
  "connectReshape info t =
     (if rank info = 1 then Inr (flatten t)
      else if rank info = 2 then Inr t
      else Inl poplibs_error)"

record 'v VertexAttribute =
  attr_name :: string
  attr_value :: 'v

text \<open>
  The element type \<^verbatim>\<open>IpuType\<close> of a shaped array and its translation
  \<^verbatim>\<open>toPoplar\<close> are declared in \<^verbatim>\<open>tile_array_utils.hpp\<close>, which is not among the
  sources: the type is the parameter \<open>'d\<close> and the translation is passed to the functions
  that use it. A \<^verbatim>\<open>float\<close> attribute is carried as its 32 bits.
\<close>

record 'd TileMapEquation =
  pname :: string
  eq_vname :: string
  eq_tiles :: "32 word list"
  inputs_info :: "'d VertexIOInfo list"
  outputs_info :: "'d VertexIOInfo list"
  attributes_u32 :: "32 word VertexAttribute list"
  attributes_f32 :: "32 word VertexAttribute list"
  gp_filename :: string
  perf_estimate :: "64 word"

text \<open>
  \<^verbatim>\<open>std::distance(first, std::find_if(first, last, p))\<close>: the position of the first
  element that satisfies \<open>p\<close>, the length of the range when there is none.
\<close>

definition find_if_distance :: "('a \<Rightarrow> bool) \<Rightarrow> 'a list \<Rightarrow> nat" where
  "find_if_distance p xs = length (takeWhile (\<lambda>x. \<not> p x) xs)"

definition allocate_body ::
    "('d \<Rightarrow> poplar_Type) \<Rightarrow> 'd TileMapEquation \<Rightarrow> Tensor list \<Rightarrow> 'd VertexIOInfo
       \<Rightarrow> Tensor list \<Rightarrow> Graph \<Rightarrow> Tensor list outcome" where
  "allocate_body toPoplar eqn inputs outinfo outputs g =
     (if iotype outinfo = InOut then
        let idx = find_if_distance (\<lambda>ininfo. name ininfo = name outinfo) (inputs_info eqn) in
        bind (lift (at inputs idx) g) (\<lambda>t g0. Returned (outputs @ [t]) g0)
      else if iotype outinfo = Out then
        bind (createShardedVariable (toPoplar (dtype (aval outinfo))) (shape (aval outinfo))
                (eq_tiles eqn) g)
          (\<lambda>t g0. Returned (outputs @ [t]) g0)
      else Thrown runtime_error g)"

definition allocateOutputTensors ::
    "('d \<Rightarrow> poplar_Type) \<Rightarrow> 'd TileMapEquation \<Rightarrow> Tensor list \<Rightarrow> Graph \<Rightarrow> Tensor list outcome" where
  "allocateOutputTensors toPoplar eqn inputs g =
     (if length inputs \<noteq> length (inputs_info eqn) then Terminated
      else foreach (outputs_info eqn) (allocate_body toPoplar eqn inputs) [] g)"

text \<open>The three inner parts of the loop over tiles in \<^verbatim>\<open>TileMapEquation::add\<close>.\<close>

definition connect_input_body ::
    "'d TileMapEquation \<Rightarrow> Tensor list \<Rightarrow> nat \<Rightarrow> nat \<Rightarrow> nat \<Rightarrow> unit \<Rightarrow> Graph \<Rightarrow> unit outcome" where
  "connect_input_body eqn inputs v tidx k u g =
     (let info = inputs_info eqn ! k in
      bind (lift (index (inputs ! k) tidx) g) (\<lambda>slice g0.
      bind (lift (connectReshape info slice) g0) (\<lambda>t g1.
      Returned () (connect v (name info) (Edge t) g1))))"

definition connect_output_body ::
    "'d TileMapEquation \<Rightarrow> Tensor list \<Rightarrow> nat \<Rightarrow> nat \<Rightarrow> nat \<Rightarrow> unit \<Rightarrow> Graph \<Rightarrow> unit outcome" where
  "connect_output_body eqn outputs v tidx k u g =
     (if iotype (outputs_info eqn ! k) = Out then
        let info = outputs_info eqn ! k in
        bind (lift (index (outputs ! k) tidx) g) (\<lambda>slice g0.
        bind (lift (connectReshape info slice) g0) (\<lambda>t g1.
        Returned () (connect v (name info) (Edge t) g1)))
      else Returned () g)"

definition set_attributes :: "'d TileMapEquation \<Rightarrow> nat \<Rightarrow> Graph \<Rightarrow> Graph" where
  "set_attributes eqn v g =
     fold (\<lambda>a. setInitialValue v (attr_name a) (F32 (attr_value a))) (attributes_f32 eqn)
       (fold (\<lambda>a. setInitialValue v (attr_name a) (U32 (attr_value a))) (attributes_u32 eqn) g)"

definition add_tile_body ::
    "'d TileMapEquation \<Rightarrow> Tensor list \<Rightarrow> Tensor list \<Rightarrow> nat \<Rightarrow> nat \<Rightarrow> unit \<Rightarrow> Graph \<Rightarrow> unit outcome" where
  "add_tile_body eqn inputs outputs cs tidx u g =
     (let tile = eq_tiles eqn ! tidx;
          (v, g1) = addVertex cs (eq_vname eqn) g in
      bind (setVertexTileMapping v tile g1) (\<lambda>_ g2.
      let g3 = (if 0 < perf_estimate eqn then setPerfEstimate v (unat (perf_estimate eqn)) g2
                else g2) in
      bind (foreach [0..<length inputs] (connect_input_body eqn inputs v tidx) () g3) (\<lambda>_ g4.
      bind (foreach [0..<length outputs] (connect_output_body eqn outputs v tidx) () g4) (\<lambda>_ g5.
      Returned () (set_attributes eqn v g5)))))"

text \<open>
  \<^verbatim>\<open>TileMapEquation::add\<close> with the outputs already allocated; \<open>prog\<close> is the
  sequence the execution of the compute set is appended to.
\<close>

definition add_equation ::
    "'d TileMapEquation \<Rightarrow> Program list \<Rightarrow> Tensor list \<Rightarrow> Tensor list \<Rightarrow> Graph
       \<Rightarrow> Program list outcome" where
  "add_equation eqn prog inputs outputs g =
     (if length inputs \<noteq> length (inputs_info eqn) then Terminated
      else if length outputs \<noteq> length (outputs_info eqn) then Terminated
      else
        let (cs, g1) = addComputeSet g in
        bind (foreach [0..<length (eq_tiles eqn)] (add_tile_body eqn inputs outputs cs) () g1)
          (\<lambda>_ g2. Returned (prog @ [Execute cs]) g2))"

text \<open>The overload of \<^verbatim>\<open>TileMapEquation::add\<close> that allocates the outputs first.\<close>

definition add_equation_allocating ::
    "('d \<Rightarrow> poplar_Type) \<Rightarrow> 'd TileMapEquation \<Rightarrow> Program list \<Rightarrow> Tensor list \<Rightarrow> Graph
       \<Rightarrow> (Program list \<times> Tensor list) outcome" where
  "add_equation_allocating toPoplar eqn prog inputs g =
     bind (allocateOutputTensors toPoplar eqn inputs g) (\<lambda>outputs g0.
     bind (add_equation eqn prog inputs outputs g0) (\<lambda>prog' g1.
     Returned (prog', outputs) g1))"

definition TileMapEquationCall_program ::
    "('d \<Rightarrow> poplar_Type) \<Rightarrow> Graph \<Rightarrow> Tensor list \<Rightarrow> Tensor list \<Rightarrow> 'd TileMapEquation
       \<Rightarrow> (Program \<times> Tensor list) outcome" where
  "TileMapEquationCall_program toPoplar g inputs outputs tile_equation =
     bind (add_equation_allocating toPoplar tile_equation [] inputs g) (\<lambda>r g0.
     Returned (Sequence (fst r), snd r) g0)"

section \<open>Vocabulary of the properties\<close>

text \<open>
  The definitions from here on are not part of the sources: they name what the theorems talk
  about. A tensor is well formed when it has as many storage elements as its shape says.
  \<open>var_tensor v ty sh\<close> is the tensor \<^verbatim>\<open>addVariable\<close> returns for variable \<open>v\<close>.
\<close>

definition wf_tensor :: "Tensor \<Rightarrow> bool" where
  "wf_tensor t \<longleftrightarrow> length (elems t) = prod_list (tshape t)"

definition var_tensor :: "nat \<Rightarrow> poplar_Type \<Rightarrow> nat list \<Rightarrow> Tensor" where
  "var_tensor v ty sh =
     \<lparr>elementType = ty, tshape = sh, elems = map (\<lambda>off. (v, off)) [0..<prod_list sh]\<rparr>"

subsection \<open>Cross-tile gather\<close>

text \<open>
  Destination slot \<open>idx\<close> needs a copy when the tile of its source differs from its own.
  \<open>gather_src\<close> is the source slice of a slot, \<open>gather_dst\<close> the fresh variable of a slot
  that needs a copy (the variables are numbered in slot order), \<open>gather_slot\<close> the slice
  the output holds for the slot, and \<open>gather_graph\<close> the graph after the first \<open>k\<close>
  slots.
\<close>

definition needs_copy :: "TileGatherParams \<Rightarrow> nat \<Rightarrow> bool" where
  "needs_copy params idx \<longleftrightarrow>
     previous_tiles params ! size_t_of (indices params ! idx) \<noteq> tiles params ! idx"

definition gather_src :: "TileGatherParams \<Rightarrow> Tensor \<Rightarrow> nat \<Rightarrow> Tensor" where
  "gather_src params input j = projr (index input (size_t_of (indices params ! j)))"

definition gather_dst :: "TileGatherParams \<Rightarrow> Graph \<Rightarrow> poplar_Type \<Rightarrow> nat list \<Rightarrow> nat \<Rightarrow> Tensor" where
  "gather_dst params g ty sh j =
     var_tensor (length (variables g) + length (filter (needs_copy params) [0..<j])) ty sh"

definition gather_slot ::
    "TileGatherParams \<Rightarrow> Graph \<Rightarrow> Tensor \<Rightarrow> poplar_Type \<Rightarrow> nat list \<Rightarrow> nat \<Rightarrow> Tensor" where
  "gather_slot params g input ty sh j =
     (if needs_copy params j then gather_dst params g ty sh j else gather_src params input j)"

definition gather_graph :: "TileGatherParams \<Rightarrow> Graph \<Rightarrow> poplar_Type \<Rightarrow> nat list \<Rightarrow> nat \<Rightarrow> Graph" where
  "gather_graph params g ty sh k =
     g\<lparr>variables := variables g @ replicate (length (filter (needs_copy params) [0..<k])) (ty, sh),
       tileMapping :=
         concat (map (\<lambda>j. map (\<lambda>e. (e, unat (tiles params ! j))) (elems (gather_dst params g ty sh j)))
                  (rev (filter (needs_copy params) [0..<k]))) @ tileMapping g\<rparr>"

text \<open>
  The example of the specification: three slices of two elements on tiles 0, 1, 2, gathered
  with indices 2, 0, 1 onto tiles 2, 3, 1. Slot 1 is the only one that changes tile.
\<close>

definition example_graph :: Graph where
  "example_graph = \<lparr>numTiles = 4, variables = [(FLOAT, [3, 2])],
     tileMapping = [((0, 0), 0), ((0, 1), 0), ((0, 2), 1), ((0, 3), 1), ((0, 4), 2), ((0, 5), 2)],
     computeSets = 0, vertices = []\<rparr>"

definition example_input :: Tensor where
  "example_input = \<lparr>elementType = FLOAT, tshape = [3, 2],
     elems = [(0, 0), (0, 1), (0, 2), (0, 3), (0, 4), (0, 5)]\<rparr>"

definition example_gather :: TileGatherParams where
  "example_gather = \<lparr>previous_tiles = [0, 1, 2], indices = [2, 0, 1], tiles = [2, 3, 1]\<rparr>"

definition example_gather_prog :: Program where
  "example_gather_prog =
     Sequence [Copy \<lparr>elementType = FLOAT, tshape = [2], elems = [(0, 0), (0, 1)]\<rparr>
                    \<lparr>elementType = FLOAT, tshape = [2], elems = [(1, 0), (1, 1)]\<rparr>]"

definition example_gather_output :: Tensor where
  "example_gather_output = \<lparr>elementType = FLOAT, tshape = [3, 2],
     elems = [(0, 4), (0, 5), (1, 0), (1, 1), (0, 2), (0, 3)]\<rparr>"

definition example_gather_graph :: Graph where
  "example_gather_graph = \<lparr>numTiles = 4, variables = [(FLOAT, [3, 2]), (FLOAT, [2])],
     tileMapping = [((1, 0), 3), ((1, 1), 3), ((0, 0), 0), ((0, 1), 0), ((0, 2), 1),
                    ((0, 3), 1), ((0, 4), 2), ((0, 5), 2)],
     computeSets = 0, vertices = []\<rparr>"

text \<open>
  Two descriptors that break the gather invariant: one index too many, one index too few.
\<close>

definition example_gather_surplus :: TileGatherParams where
  "example_gather_surplus = \<lparr>previous_tiles = [0, 1, 2], indices = [2, 0, 1, 0], tiles = [2, 3, 1]\<rparr>"

definition example_gather_short :: TileGatherParams where
  "example_gather_short = \<lparr>previous_tiles = [0, 1, 2], indices = [2, 0], tiles = [2, 3, 1]\<rparr>"

subsection \<open>Tile data barrier\<close>

text \<open>
  \<open>barrier_slot inputs idx k\<close> is the slice \<^verbatim>\<open>in_reinterpret[k]\<close> of input \<open>idx\<close>.
  \<open>barrier_bucket params inputs t\<close> lists, in the order of the two loops, the slices of the
  slots whose tile is \<open>t\<close>, and \<open>barrier_vertex\<close> is the vertex the barrier builds for
  a tile.
\<close>

definition barrier_slot :: "Tensor list \<Rightarrow> nat \<Rightarrow> nat \<Rightarrow> Tensor" where
  "barrier_slot inputs idx k =
     projr (index (projr (tileBarrierReinterpretTensor (inputs ! idx))) k)"

definition barrier_bucket :: "TileDataBarrierParams \<Rightarrow> Tensor list \<Rightarrow> nat \<Rightarrow> Tensor list" where
  "barrier_bucket params inputs t =
     concat (map (\<lambda>idx. map (barrier_slot inputs idx)
                          (filter (\<lambda>k. size_t_of (inputs_tiles params ! idx ! k) = t)
                             [0..<length (inputs_tiles params ! idx)]))
               [0..<length inputs])"

definition barrier_vertex :: "TileDataBarrierParams \<Rightarrow> Tensor list \<Rightarrow> nat \<Rightarrow> nat \<Rightarrow> Vertex" where
  "barrier_vertex params inputs cs t =
     \<lparr>vertex_cs = cs, vertex_name = vname params, vertex_tile = Some t, vertex_perf = Some 14,
      vertex_edges = [(''data'', EdgeVector (barrier_bucket params inputs t))], vertex_init = []\<rparr>"

text \<open>
  The example of the specification: an 8-bit input on tiles 0 and 1 and a 32-bit input on
  tiles 1 and 2, with \<open>max_tile = 2\<close>.
\<close>

definition barrier_example_graph :: Graph where
  "barrier_example_graph = \<lparr>numTiles = 4, variables = [(SIGNED_CHAR, [2, 3]), (FLOAT, [2])],
     tileMapping = [], computeSets = 5, vertices = []\<rparr>"

definition barrier_example_inputs :: "Tensor list" where
  "barrier_example_inputs =
     [\<lparr>elementType = SIGNED_CHAR, tshape = [2, 3],
        elems = [(0, 0), (0, 1), (0, 2), (0, 3), (0, 4), (0, 5)]\<rparr>,
      \<lparr>elementType = FLOAT, tshape = [2], elems = [(1, 0), (1, 1)]\<rparr>]"

definition barrier_example :: TileDataBarrierParams where
  "barrier_example = \<lparr>vname = ''TileDataBarrierVertex'', inputs_tiles = [[0, 1], [1, 2]], max_tile = 2\<rparr>"

definition barrier_example_result :: Graph where
  "barrier_example_result =
     \<lparr>numTiles = 4, variables = [(SIGNED_CHAR, [2, 3]), (FLOAT, [2])],
      tileMapping = [], computeSets = 6,
      vertices =
        [\<lparr>vertex_cs = 5, vertex_name = ''TileDataBarrierVertex'',
           vertex_tile = Some 0, vertex_perf = Some 14,
           vertex_edges =
             [(''data'',
               EdgeVector
                [\<lparr>elementType = UNSIGNED_CHAR, tshape = [3],
                    elems = [(0, 0), (0, 1), (0, 2)]\<rparr>])],
           vertex_init = []\<rparr>,
         \<lparr>vertex_cs = 5, vertex_name = ''TileDataBarrierVertex'',
           vertex_tile = Some 1, vertex_perf = Some 14,
           vertex_edges =
             [(''data'',
               EdgeVector
                [\<lparr>elementType = UNSIGNED_CHAR, tshape = [3],
                    elems = [(0, 3), (0, 4), (0, 5)]\<rparr>,
                 \<lparr>elementType = UNSIGNED_INT, tshape = [],
                    elems = [(1, 0)]\<rparr>])],
           vertex_init = []\<rparr>,
         \<lparr>vertex_cs = 5, vertex_name = ''TileDataBarrierVertex'',
           vertex_tile = Some 2, vertex_perf = Some 14,
           vertex_edges =
             [(''data'',
               EdgeVector
                [\<lparr>elementType = UNSIGNED_INT, tshape = [],
                    elems = [(1, 1)]\<rparr>])],
           vertex_init = []\<rparr>]\<rparr>"

text \<open>
  The precondition of the bucketing loop, for the first \<open>n_inputs\<close> tile arrays: they
  exist, and each of their tiles lies in \<open>[0, max_tile]\<close>.
\<close>

definition barrier_precondition :: "TileDataBarrierParams \<Rightarrow> nat \<Rightarrow> bool" where
  "barrier_precondition params n_inputs \<longleftrightarrow>
     n_inputs \<le> length (inputs_tiles params)
   \<and> list_all (list_all (\<lambda>t. 0 \<le> sint t \<and> sint t \<le> sint (max_tile params)))
        (take n_inputs (inputs_tiles params))"

text \<open>
  The inputs fit the descriptor when nothing but the reads under study can fail in the
  bucketing loop: there is an input, \<open>max_tile + 1\<close> is a size, every input has a
  supported type, and every input has at least as many leading slices as its tile array
  has entries.
\<close>

definition barrier_inputs_fit :: "TileDataBarrierParams \<Rightarrow> Tensor list \<Rightarrow> bool" where
  "barrier_inputs_fit params inputs \<longleftrightarrow>
     inputs \<noteq> []
   \<and> - 1 \<le> sint (max_tile params) \<and> sint (max_tile params) < 2 ^ 31 - 1
   \<and> list_all (\<lambda>t. elementType t \<in> {BOOL, CHAR_T, SIGNED_CHAR, UNSIGNED_CHAR, SHORT,
                                       UNSIGNED_SHORT, HALF, INT_T, UNSIGNED_INT, FLOAT}) inputs
   \<and> list_all (\<lambda>(t, tls). tshape t \<noteq> [] \<and> length tls \<le> hd (tshape t))
        (zip inputs (inputs_tiles params))"

text \<open>The example with tile 3 for the last slot, beyond \<open>max_tile = 2\<close>.\<close>

definition barrier_example_bad :: TileDataBarrierParams where
  "barrier_example_bad =
     \<lparr>vname = ''TileDataBarrierVertex'', inputs_tiles = [[0, 1], [1, 3]], max_tile = 2\<rparr>"

subsection \<open>Tile-mapped equation\<close>

text \<open>
  Example equations on one tile, over two inputs of one slice each; the element type of a
  shaped array is taken to be the Poplar type itself. Among them: an equation with two
  inputs that carry the same name and one \<open>InOut\<close> output of that name, and an equation
  with one \<open>Out\<close> output and one \<open>InOut\<close> output that reuses the second input, with
  the outputs and the graph it returns.
\<close>

definition example_io :: "string \<Rightarrow> VertexIOType \<Rightarrow> 8 word \<Rightarrow> poplar_Type VertexIOInfo" where
  "example_io n io r = \<lparr>name = n, iotype = io, aval = \<lparr>shape = [2], dtype = FLOAT\<rparr>, rank = r\<rparr>"

definition example_equation :: "poplar_Type VertexIOInfo list \<Rightarrow> poplar_Type VertexIOInfo list
    \<Rightarrow> poplar_Type TileMapEquation" where
  "example_equation ins outs =
     \<lparr>pname = ''scale'', eq_vname = ''ScaleVertex'', eq_tiles = [1],
      inputs_info = ins, outputs_info = outs,
      attributes_u32 = [], attributes_f32 = [], gp_filename = [], perf_estimate = 0\<rparr>"

definition equation_example_graph :: Graph where
  "equation_example_graph = \<lparr>numTiles = 4, variables = [(FLOAT, [1, 2]), (FLOAT, [1, 2])],
     tileMapping = [], computeSets = 0, vertices = []\<rparr>"

definition equation_example_inputs :: "Tensor list" where
  "equation_example_inputs =
     [\<lparr>elementType = FLOAT, tshape = [1, 2], elems = [(0, 0), (0, 1)]\<rparr>,
      \<lparr>elementType = FLOAT, tshape = [1, 2], elems = [(1, 0), (1, 1)]\<rparr>]"

definition example_equation_duplicate :: "poplar_Type TileMapEquation" where
  "example_equation_duplicate =
     example_equation [example_io ''x'' In 1, example_io ''x'' In 1] [example_io ''x'' InOut 1]"

definition example_equation_inout :: "poplar_Type TileMapEquation" where
  "example_equation_inout =
     example_equation [example_io ''x'' In 1, example_io ''y'' In 2]
       [example_io ''z'' Out 1, example_io ''y'' InOut 1]"

definition example_equation_inout_outputs :: "Tensor list" where
  "example_equation_inout_outputs =
     [\<lparr>elementType = FLOAT, tshape = [1, 2], elems = [(2, 0), (2, 1)]\<rparr>,
      \<lparr>elementType = FLOAT, tshape = [1, 2], elems = [(1, 0), (1, 1)]\<rparr>]"

definition example_equation_inout_graph :: Graph where
  "example_equation_inout_graph =
     \<lparr>numTiles = 4,
      variables = [(FLOAT, [1, 2]), (FLOAT, [1, 2]), (FLOAT, [1, 2])],
      tileMapping = [((2, 0), 1), ((2, 1), 1)], computeSets = 1,
      vertices =
        [\<lparr>vertex_cs = 0, vertex_name = ''ScaleVertex'', vertex_tile = Some 1,
           vertex_perf = None,
           vertex_edges =
             [(''x'', Edge \<lparr>elementType = FLOAT, tshape = [2], elems = [(0, 0), (0, 1)]\<rparr>),
              (''y'', Edge \<lparr>elementType = FLOAT, tshape = [2], elems = [(1, 0), (1, 1)]\<rparr>),
              (''z'', Edge \<lparr>elementType = FLOAT, tshape = [2], elems = [(2, 0), (2, 1)]\<rparr>)],
           vertex_init = []\<rparr>]\<rparr>"

text \<open>The position of the first input descriptor that carries the name of an output.\<close>

definition first_match :: "'d TileMapEquation \<Rightarrow> 'd VertexIOInfo \<Rightarrow> nat" where
  "first_match eqn outinfo =
     find_if_distance (\<lambda>ininfo. name ininfo = name outinfo) (inputs_info eqn)"

subsection \<open>Failures\<close>

text \<open>
  \<open>outcome_sat r P Q\<close>: if the call returned, \<open>P\<close> holds of its result and graph; if it
  threw, \<open>Q\<close> holds of the exception and the graph left behind.
\<close>

definition outcome_sat :: "'a outcome \<Rightarrow> ('a \<Rightarrow> Graph \<Rightarrow> bool) \<Rightarrow> (exn \<Rightarrow> Graph \<Rightarrow> bool) \<Rightarrow> bool" where
  "outcome_sat r P Q =
     (case r of Returned a h \<Rightarrow> P a h | Thrown e h \<Rightarrow> Q e h | Terminated \<Rightarrow> True
      | Undefined u \<Rightarrow> True)"

text \<open>
  \<open>graph_extends g h\<close>: \<open>h\<close> holds everything \<open>g\<close> holds, unchanged, and possibly more:
  further variables, compute sets and vertices after those of \<open>g\<close>, and newer tile mappings,
  all of them of storage that \<open>g\<close> does not have.
\<close>

definition graph_extends :: "Graph \<Rightarrow> Graph \<Rightarrow> bool" where
  "graph_extends g h \<longleftrightarrow>
     numTiles h = numTiles g
   \<and> length (variables g) \<le> length (variables h)
   \<and> take (length (variables g)) (variables h) = variables g
   \<and> computeSets g \<le> computeSets h
   \<and> length (vertices g) \<le> length (vertices h)
   \<and> take (length (vertices g)) (vertices h) = vertices g
   \<and> length (tileMapping g) \<le> length (tileMapping h)
   \<and> drop (length (tileMapping h) - length (tileMapping g)) (tileMapping h) = tileMapping g
   \<and> list_all (\<lambda>m. length (variables g) \<le> fst (fst m))
        (take (length (tileMapping h) - length (tileMapping g)) (tileMapping h))"

text \<open>
  \<open>allocating g h\<close>: \<open>h\<close> extends \<open>g\<close> by variables and their tile mappings only, as it
  does while outputs are allocated.
\<close>

definition allocating :: "Graph \<Rightarrow> Graph \<Rightarrow> bool" where
  "allocating g h \<longleftrightarrow>
     graph_extends g h \<and> computeSets h = computeSets g \<and> vertices h = vertices g"













subsection \<open>Sharded placement\<close>

text \<open>
  \<open>sharded_part v ty sh i\<close> is partition \<open>i\<close> of the sharded variable \<open>v\<close> with partitions
  of shape \<open>sh\<close>, and \<open>sharded_graph g ty sh tile_array k\<close> the graph once the variable
  exists and its first \<open>k\<close> partitions are mapped.
\<close>

definition sharded_part :: "nat \<Rightarrow> poplar_Type \<Rightarrow> nat list \<Rightarrow> nat \<Rightarrow> Tensor" where
  "sharded_part v ty sh i =
     \<lparr>elementType = ty, tshape = sh,
      elems = map (\<lambda>off. (v, i * prod_list sh + off)) [0..<prod_list sh]\<rparr>"

definition sharded_graph :: "Graph \<Rightarrow> poplar_Type \<Rightarrow> nat list \<Rightarrow> 32 word list \<Rightarrow> nat \<Rightarrow> Graph" where
  "sharded_graph g ty sh tile_array k =
     g\<lparr>variables := variables g @ [(ty, length tile_array # sh)],
       tileMapping :=
         concat (map (\<lambda>j. map (\<lambda>e. (e, unat (tile_array ! j)))
                            (elems (sharded_part (length (variables g)) ty sh j)))
                  (rev [0..<k])) @ tileMapping g\<rparr>"

text \<open>
  The scenario of the specification: an input of leading extent 4 (rows of two elements),
  sharded over the tiles 2, 5, 0, 7 of a target with eight tiles.
\<close>

definition sharded_example_graph :: Graph where
  "sharded_example_graph = \<lparr>numTiles = 8, variables = [(FLOAT, [4, 2])],
     tileMapping = [], computeSets = 0, vertices = []\<rparr>"

definition sharded_example_input :: Tensor where
  "sharded_example_input = \<lparr>elementType = FLOAT, tshape = [4, 2],
     elems = [(0, 0), (0, 1), (0, 2), (0, 3), (0, 4), (0, 5), (0, 6), (0, 7)]\<rparr>"

definition sharded_example_tiles :: "32 word list" where
  "sharded_example_tiles = [2, 5, 0, 7]"

section \<open>Lemmas\<close>

subsection \<open>Outcomes, loops and tensors\<close>

lemma bind_Returned:
  "bind m f = Returned b g' \<longleftrightarrow> (\<exists>a g1. m = Returned a g1 \<and> f a g1 = Returned b g')"
  by (cases m) auto

lemma lift_Returned: "lift x g = Returned a g' \<longleftrightarrow> x = Inr a \<and> g' = g"
  by (cases x) auto

lemma foreach_append:
  "foreach (xs @ ys) body st g = bind (foreach xs body st g) (\<lambda>st' g'. foreach ys body st' g')"
proof (induction xs arbitrary: st g)
  case Nil
  show ?case by simp
next
  case (Cons x xs)
  show ?case
  proof (cases "body x st g")
    case (Returned a h)
    then show ?thesis using Cons.IH by simp
  qed simp_all
qed

lemma addVariable_fst: "fst (addVariable ty sh g) = var_tensor (length (variables g)) ty sh"
  by (simp add: addVariable_def var_tensor_def)

lemma gather_body_Returned:
  assumes "gather_body params input ty sh idx st g = Returned st' g'"
  shows "\<exists>src. index input (size_t_of (indices params ! idx)) = Inr src
           \<and> idx < length (indices params)
           \<and> size_t_of (indices params ! idx) < length (previous_tiles params)
           \<and> (if needs_copy params idx
               then elementType src = ty \<and> tshape src = sh
                    \<and> unat (tiles params ! idx) < numTiles g
                    \<and> st' = (fst st @ [Copy src (var_tensor (length (variables g)) ty sh)],
                             snd st @ [expand0 (var_tensor (length (variables g)) ty sh)])
                    \<and> g' = g\<lparr>variables := variables g @ [(ty, sh)],
                              tileMapping := map (\<lambda>e. (e, unat (tiles params ! idx)))
                                   (elems (var_tensor (length (variables g)) ty sh)) @ tileMapping g\<rparr>
               else st' = (fst st, snd st @ [expand0 src]) \<and> g' = g)"
  using assms
  by (auto simp: gather_body_def bind_Returned lift_Returned vector_at_def needs_copy_def
      addVariable_def var_tensor_def setTileMapping_def make_Copy_def Let_def
      split: option.splits if_splits prod.splits)

lemma gather_graph_0: "gather_graph params g ty sh 0 = g"
  by (simp add: gather_graph_def)

lemma gather_loop_closed:
  assumes "foreach [0..<k] (gather_body params input ty sh) ([], []) g = Returned st' g'"
  shows "st' = (map (\<lambda>j. Copy (gather_src params input j) (gather_dst params g ty sh j))
                  (filter (needs_copy params) [0..<k]),
                map (\<lambda>j. expand0 (gather_slot params g input ty sh j)) [0..<k])
       \<and> g' = gather_graph params g ty sh k
       \<and> (\<forall>j<k. index input (size_t_of (indices params ! j)) = Inr (gather_src params input j)
                \<and> j < length (indices params)
                \<and> size_t_of (indices params ! j) < length (previous_tiles params)
                \<and> (needs_copy params j \<longrightarrow>
                      elementType (gather_src params input j) = ty
                    \<and> tshape (gather_src params input j) = sh
                    \<and> unat (tiles params ! j) < numTiles g))"
  using assms
proof (induction k arbitrary: st' g')
  case 0
  then show ?case by (simp add: gather_graph_0)
next
  case (Suc k)
  from Suc.prems obtain st1 g1 where
    pre: "foreach [0..<k] (gather_body params input ty sh) ([], []) g = Returned st1 g1"
    and step: "gather_body params input ty sh k st1 g1 = Returned st' g'"
    by (auto simp: foreach_append bind_Returned)
  note ih = Suc.IH [OF pre]
  from gather_body_Returned [OF step] obtain src where
    src: "index input (size_t_of (indices params ! k)) = Inr src"
    and b1: "k < length (indices params)"
    and b2: "size_t_of (indices params ! k) < length (previous_tiles params)"
    and cases: "if needs_copy params k
               then elementType src = ty \<and> tshape src = sh
                    \<and> unat (tiles params ! k) < numTiles g1
                    \<and> st' = (fst st1 @ [Copy src (var_tensor (length (variables g1)) ty sh)],
                             snd st1 @ [expand0 (var_tensor (length (variables g1)) ty sh)])
                    \<and> g' = g1\<lparr>variables := variables g1 @ [(ty, sh)],
                              tileMapping := map (\<lambda>e. (e, unat (tiles params ! k)))
                                   (elems (var_tensor (length (variables g1)) ty sh)) @ tileMapping g1\<rparr>
               else st' = (fst st1, snd st1 @ [expand0 src]) \<and> g' = g1"
    by blast
  have srck: "gather_src params input k = src"
    by (simp add: gather_src_def src)
  have len1: "length (variables g1) = length (variables g) + length (filter (needs_copy params) [0..<k])"
    using ih by (simp add: gather_graph_def)
  have nt1: "numTiles g1 = numTiles g"
    using ih by (simp add: gather_graph_def)
  show ?case
  proof (cases "needs_copy params k")
    case True
    have dstk: "var_tensor (length (variables g1)) ty sh = gather_dst params g ty sh k"
      by (simp add: gather_dst_def len1)
    from True cases have st': "st' = (fst st1 @ [Copy src (gather_dst params g ty sh k)],
                             snd st1 @ [expand0 (gather_dst params g ty sh k)])"
      and g': "g' = g1\<lparr>variables := variables g1 @ [(ty, sh)],
                              tileMapping := map (\<lambda>e. (e, unat (tiles params ! k)))
                                   (elems (gather_dst params g ty sh k)) @ tileMapping g1\<rparr>"
      and rest: "elementType src = ty" "tshape src = sh" "unat (tiles params ! k) < numTiles g1"
      by (simp_all add: dstk)
    have "st' = (map (\<lambda>j. Copy (gather_src params input j) (gather_dst params g ty sh j))
                  (filter (needs_copy params) [0..<Suc k]),
                map (\<lambda>j. expand0 (gather_slot params g input ty sh j)) [0..<Suc k])"
      using ih True by (simp add: st' srck gather_slot_def)
    moreover have "g' = gather_graph params g ty sh (Suc k)"
      using ih True by (simp add: g' gather_graph_def replicate_append_same)
    moreover have "\<forall>j<Suc k. index input (size_t_of (indices params ! j)) = Inr (gather_src params input j)
                \<and> j < length (indices params)
                \<and> size_t_of (indices params ! j) < length (previous_tiles params)
                \<and> (needs_copy params j \<longrightarrow>
                      elementType (gather_src params input j) = ty
                    \<and> tshape (gather_src params input j) = sh
                    \<and> unat (tiles params ! j) < numTiles g)"
      using ih src srck b1 b2 rest nt1 by (auto simp: less_Suc_eq)
    ultimately show ?thesis by blast
  next
    case False
    from False cases have st': "st' = (fst st1, snd st1 @ [expand0 src])" and g': "g' = g1"
      by simp_all
    have "st' = (map (\<lambda>j. Copy (gather_src params input j) (gather_dst params g ty sh j))
                  (filter (needs_copy params) [0..<Suc k]),
                map (\<lambda>j. expand0 (gather_slot params g input ty sh j)) [0..<Suc k])"
      using ih False by (simp add: st' srck gather_slot_def)
    moreover have "g' = gather_graph params g ty sh (Suc k)"
      using ih False by (simp add: g' gather_graph_def)
    moreover have "\<forall>j<Suc k. index input (size_t_of (indices params ! j)) = Inr (gather_src params input j)
                \<and> j < length (indices params)
                \<and> size_t_of (indices params ! j) < length (previous_tiles params)
                \<and> (needs_copy params j \<longrightarrow>
                      elementType (gather_src params input j) = ty
                    \<and> tshape (gather_src params input j) = sh
                    \<and> unat (tiles params ! j) < numTiles g)"
      using ih src srck b1 b2 False by (auto simp: less_Suc_eq)
    ultimately show ?thesis by blast
  qed
qed

lemma take_drop_concat_uniform:
  "\<forall>x\<in>set xss. length x = m \<Longrightarrow> i < length xss \<Longrightarrow> take m (drop (i * m) (concat xss)) = xss ! i"
proof (induction xss arbitrary: i)
  case Nil
  then show ?case by simp
next
  case (Cons x xss)
  show ?case
  proof (cases i)
    case 0
    then show ?thesis using Cons.prems by simp
  next
    case (Suc j)
    then show ?thesis using Cons.prems Cons.IH [of j] by simp
  qed
qed

lemma index_wf:
  assumes "wf_tensor t" and "index t i = Inr s"
  shows "wf_tensor s \<and> tshape s = tl (tshape t) \<and> elementType s = elementType t
         \<and> i < hd (tshape t) \<and> tshape t \<noteq> []
         \<and> elems s = take (prod_list (tl (tshape t))) (drop (i * prod_list (tl (tshape t))) (elems t))"
proof (cases "tshape t")
  case Nil
  then show ?thesis using assms(2) by (simp add: index_def)
next
  case (Cons n sh)
  with assms(2) have i: "i < n"
    and s: "s = t\<lparr>tshape := sh, elems := take (prod_list sh) (drop (i * prod_list sh) (elems t))\<rparr>"
    by (auto simp: index_def split: if_splits)
  have len: "length (elems t) = n * prod_list sh"
    using assms(1) Cons by (simp add: wf_tensor_def)
  have "Suc i * prod_list sh \<le> n * prod_list sh"
    using i by (intro mult_le_mono1) simp
  then have "prod_list sh \<le> n * prod_list sh - i * prod_list sh"
    by simp
  then have "wf_tensor s"
    by (simp add: s wf_tensor_def len)
  then show ?thesis using Cons i by (simp add: s)
qed

lemma concat_tensors_slices:
  assumes ne: "ts \<noteq> []"
    and all: "\<forall>u\<in>set ts. tshape u = 1 # sh \<and> elementType u = ty \<and> length (elems u) = prod_list sh"
  shows "\<exists>out. concat_tensors ts = Inr out
           \<and> tshape out = length ts # sh \<and> elementType out = ty
           \<and> elems out = concat (map elems ts)
           \<and> (\<forall>i<length ts. index out i = Inr ((ts ! i)\<lparr>tshape := sh\<rparr>))"
proof -
  from ne obtain t rest where ts: "ts = t # rest" by (cases ts) auto
  have hd1: "map (\<lambda>u. hd (tshape u)) ts = map (\<lambda>u. 1) ts"
    using all by (intro map_cong) auto
  have sum: "sum_list (map (\<lambda>u. hd (tshape u)) ts) = length ts"
    unfolding hd1 by (simp add: sum_list_triv)
  have t: "tshape t = 1 # sh" "elementType t = ty" using all ts by auto
  have ok: "list_all (\<lambda>u. tshape u \<noteq> [] \<and> tl (tshape u) = tl (tshape t) \<and> elementType u = elementType t) ts"
    using all t by (auto simp: list_all_iff)
  define out where "out = \<lparr>elementType = ty, tshape = length ts # sh, elems = concat (map elems ts)\<rparr>"
  have c: "concat_tensors ts = Inr out"
    using ok sum t unfolding concat_tensors_def out_def ts by simp
  have "index out i = Inr ((ts ! i)\<lparr>tshape := sh\<rparr>)" if "i < length ts" for i
  proof -
    have "take (prod_list sh) (drop (i * prod_list sh) (concat (map elems ts))) = map elems ts ! i"
      using all that by (intro take_drop_concat_uniform) auto
    moreover have "elementType (ts ! i) = ty" using all that by auto
    ultimately show ?thesis using that by (simp add: index_def out_def)
  qed
  then show ?thesis using c by (auto simp: out_def)
qed

lemma var_tensor_simps [simp]:
  "elementType (var_tensor v ty sh) = ty"
  "tshape (var_tensor v ty sh) = sh"
  "length (elems (var_tensor v ty sh)) = prod_list sh"
  "wf_tensor (var_tensor v ty sh)"
  by (simp_all add: var_tensor_def wf_tensor_def)

lemma expand0_simps [simp]:
  "elementType (expand0 t) = elementType t"
  "tshape (expand0 t) = 1 # tshape t"
  "elems (expand0 t) = elems t"
  "(expand0 t)\<lparr>tshape := tshape t\<rparr> = t"
  by (simp_all add: expand0_def)

lemma gather_src_facts:
  assumes "wf_tensor input" and "index input (size_t_of (indices params ! j)) = Inr (gather_src params input j)"
  shows "wf_tensor (gather_src params input j)"
    and "tshape (gather_src params input j) = tl (tshape input)"
    and "elementType (gather_src params input j) = elementType input"
    and "length (elems (gather_src params input j)) = prod_list (tl (tshape input))"
proof -
  from index_wf [OF assms] have w: "wf_tensor (gather_src params input j)"
    and t: "tshape (gather_src params input j) = tl (tshape input)"
    and e: "elementType (gather_src params input j) = elementType input"
    by blast+
  show "wf_tensor (gather_src params input j)" by (rule w)
  show "tshape (gather_src params input j) = tl (tshape input)" by (rule t)
  show "elementType (gather_src params input j) = elementType input" by (rule e)
  show "length (elems (gather_src params input j)) = prod_list (tl (tshape input))"
    using w t by (simp add: wf_tensor_def)
qed

lemma TileGather_closed:
  assumes ret: "TileGatherPrimitive_program g inputs outputs params = Returned (prog, outs) g'"
    and wf: "list_all wf_tensor inputs"
  shows "\<exists>input out. inputs = [input] \<and> outs = outputs @ [out]
     \<and> prog = Sequence (map (\<lambda>j. Copy (gather_src params input j)
                                  (gather_dst params g (elementType input) (tl (tshape input)) j))
                          (filter (needs_copy params) [0..<length (tiles params)]))
     \<and> g' = gather_graph params g (elementType input) (tl (tshape input)) (length (tiles params))
     \<and> tshape out = length (tiles params) # tl (tshape input)
     \<and> elementType out = elementType input
     \<and> elems out = concat (map (\<lambda>j. elems (gather_slot params g input (elementType input)
                                               (tl (tshape input)) j)) [0..<length (tiles params)])
     \<and> (\<forall>j<length (tiles params).
           index out j = Inr (gather_slot params g input (elementType input) (tl (tshape input)) j)
         \<and> index input (size_t_of (indices params ! j)) = Inr (gather_src params input j)
         \<and> j < length (indices params)
         \<and> size_t_of (indices params ! j) < length (previous_tiles params)
         \<and> (needs_copy params j \<longrightarrow> unat (tiles params ! j) < numTiles g))"
proof -
  from ret have len: "length inputs = 1"
    by (auto simp: TileGatherPrimitive_program_def split: if_splits)
  then obtain input where inputs: "inputs = [input]"
    by (cases inputs) auto
  have wfi: "wf_tensor input" using wf inputs by simp
  define ty where "ty = elementType input"
  define sh where "sh = tl (tshape input)"
  define n where "n = length (tiles params)"
  from ret inputs obtain input0 st out where
    i0: "index input 0 = Inr input0"
    and loop: "foreach [0..<n] (gather_body params input ty (tshape input0)) ([], []) g = Returned st g'"
    and cc: "concat_tensors (snd st) = Inr out"
    and prog: "prog = Sequence (fst st)"
    and outs: "outs = outputs @ [out]"
    by (auto simp: TileGatherPrimitive_program_def bind_Returned lift_Returned Let_def ty_def n_def)
  have sh0: "tshape input0 = sh"
    using index_wf [OF wfi i0] by (simp add: sh_def)
  note closed = gather_loop_closed [OF loop [unfolded sh0]]
  have st: "st = (map (\<lambda>j. Copy (gather_src params input j) (gather_dst params g ty sh j))
                  (filter (needs_copy params) [0..<n]),
                map (\<lambda>j. expand0 (gather_slot params g input ty sh j)) [0..<n])"
    and g': "g' = gather_graph params g ty sh n"
    and each: "\<And>j. j < n \<Longrightarrow>
            index input (size_t_of (indices params ! j)) = Inr (gather_src params input j)
                \<and> j < length (indices params)
                \<and> size_t_of (indices params ! j) < length (previous_tiles params)
                \<and> (needs_copy params j \<longrightarrow>
                      elementType (gather_src params input j) = ty
                    \<and> tshape (gather_src params input j) = sh
                    \<and> unat (tiles params ! j) < numTiles g)"
    using closed by blast+
  let ?slices = "map (\<lambda>j. expand0 (gather_slot params g input ty sh j)) [0..<n]"
  have slot: "tshape (gather_slot params g input ty sh j) = sh
            \<and> elementType (gather_slot params g input ty sh j) = ty
            \<and> length (elems (gather_slot params g input ty sh j)) = prod_list sh" if "j < n" for j
    using each [OF that] gather_src_facts [OF wfi, of params j]
    by (simp add: gather_slot_def gather_dst_def ty_def sh_def)
  have npos: "0 < n"
  proof (rule ccontr)
    assume "\<not> 0 < n"
    then have "snd st = []" using st by simp
    then show False using cc by (simp add: concat_tensors_def)
  qed
  then have ne: "?slices \<noteq> []" by simp
  have all: "\<forall>u\<in>set ?slices. tshape u = 1 # sh \<and> elementType u = ty \<and> length (elems u) = prod_list sh"
    using slot by auto
  from concat_tensors_slices [OF ne all] cc st obtain
    o1: "tshape out = n # sh" and o2: "elementType out = ty"
    and o3: "elems out = concat (map elems ?slices)"
    and o4: "\<forall>i<n. index out i = Inr ((?slices ! i)\<lparr>tshape := sh\<rparr>)"
    by auto
  have o4': "index out j = Inr (gather_slot params g input ty sh j)" if "j < n" for j
  proof -
    have "(expand0 (gather_slot params g input ty sh j))\<lparr>tshape := sh\<rparr> = gather_slot params g input ty sh j"
      using slot [OF that] expand0_simps(4) [of "gather_slot params g input ty sh j"] by simp
    then show ?thesis using o4 that by simp
  qed
  have o3': "elems out = concat (map (\<lambda>j. elems (gather_slot params g input ty sh j)) [0..<n])"
    using o3 by (simp add: comp_def)
  show ?thesis
    using inputs outs prog st g' o1 o2 o3' o4' each
    unfolding ty_def sh_def n_def by auto
qed

lemma filter_upt_count_mono:
  assumes "j < j'" and "P j"
  shows "length (filter P [0..<j]) < length (filter P [0..<j'])"
proof -
  from assms(1) obtain k where k: "j' = j + k"
    using less_imp_add_positive by blast
  have "[0..<j'] = [0..<j] @ [j..<j']"
    unfolding k by (rule upt_add_eq_append) simp
  then have "length (filter P [0..<j']) = length (filter P [0..<j]) + length (filter P [j..<j'])"
    by (simp only: filter_append length_append)
  moreover have "j \<in> set (filter P [j..<j'])"
    using assms by simp
  then have "0 < length (filter P [j..<j'])"
    by (rule length_pos_if_in_set)
  ultimately show ?thesis by linarith
qed

lemma filter_upt_count_inj:
  assumes "P j" and "P j'" and "length (filter P [0..<j]) = length (filter P [0..<j'])"
  shows "j = j'"
  using assms filter_upt_count_mono [of j j' P] filter_upt_count_mono [of j' j P]
  by (cases j j' rule: linorder_cases) auto

lemma map_of_const: "e \<in> set xs \<Longrightarrow> map_of (map (\<lambda>x. (x, c)) xs) e = Some c"
  by (induction xs) auto

lemma map_of_concat_unique:
  assumes "i \<in> set js" and "e \<in> set (h i)"
    and "\<forall>j\<in>set js. j \<noteq> i \<longrightarrow> e \<notin> set (h j)"
  shows "map_of (concat (map (\<lambda>j. map (\<lambda>x. (x, c j)) (h j)) js) @ rest) e = Some (c i)"
  using assms
proof (induction js)
  case Nil
  then show ?case by simp
next
  case (Cons j js)
  show ?case
  proof (cases "j = i")
    case True
    have "map_of (map (\<lambda>x. (x, c i)) (h i)) e = Some (c i)"
      using Cons.prems(2) by (rule map_of_const)
    then show ?thesis using True by (simp add: map_add_def)
  next
    case False
    then have "e \<notin> set (h j)" using Cons.prems(3) by simp
    then have "map_of (map (\<lambda>x. (x, c j)) (h j)) e = None"
      by (simp add: map_of_eq_None_iff image_image)
    moreover have "i \<in> set js" using Cons.prems(1) False by simp
    ultimately show ?thesis using Cons.IH Cons.prems by (simp add: map_add_def)
  qed
qed

lemma var_tensor_elems: "set (elems (var_tensor v ty sh)) = {v} \<times> {0..<prod_list sh}"
  by (auto simp: var_tensor_def)

lemma gather_dst_fst:
  assumes "e \<in> set (elems (gather_dst params g ty sh j))"
  shows "fst e = length (variables g) + length (filter (needs_copy params) [0..<j])"
  using assms unfolding gather_dst_def var_tensor_elems by (cases e) simp

lemma gather_graph_variables:
  assumes "i < n" and "needs_copy params i"
  shows "variables (gather_graph params g ty sh n)
           ! (length (variables g) + length (filter (needs_copy params) [0..<i])) = (ty, sh)"
proof -
  have "length (filter (needs_copy params) [0..<i]) < length (filter (needs_copy params) [0..<n])"
    using assms by (rule filter_upt_count_mono)
  then show ?thesis
    by (simp add: gather_graph_def nth_append)
qed

lemma gather_graph_tile_of:
  assumes "i < n" and "needs_copy params i" and "e \<in> set (elems (gather_dst params g ty sh i))"
  shows "tile_of (gather_graph params g ty sh n) e = Some (unat (tiles params ! i))"
proof -
  let ?js = "rev (filter (needs_copy params) [0..<n])"
  have mem: "i \<in> set ?js" using assms(1,2) by simp
  have others: "\<forall>j\<in>set ?js. j \<noteq> i \<longrightarrow> e \<notin> set (elems (gather_dst params g ty sh j))"
  proof (intro ballI impI notI)
    fix j assume j: "j \<in> set ?js" "j \<noteq> i" "e \<in> set (elems (gather_dst params g ty sh j))"
    have "length (filter (needs_copy params) [0..<j])
        = length (filter (needs_copy params) [0..<i])"
      using gather_dst_fst [OF j(3)] gather_dst_fst [OF assms(3)] by simp
    moreover have "needs_copy params j" using j(1) by simp
    ultimately have "j = i" using assms(2) filter_upt_count_inj [of "needs_copy params" j i] by blast
    then show False using j(2) by simp
  qed
  have "map_of (concat (map (\<lambda>j. map (\<lambda>x. (x, unat (tiles params ! j)))
        (elems (gather_dst params g ty sh j))) ?js) @ tileMapping g) e = Some (unat (tiles params ! i))"
    by (rule map_of_concat_unique [where h = "\<lambda>j. elems (gather_dst params g ty sh j)", OF mem assms(3) others])
  then show ?thesis
    by (simp add: tile_of_def gather_graph_def)
qed

lemma copy_store_other: "e \<notin> set (elems dst) \<Longrightarrow> copy_store src dst s e = s e"
proof -
  assume "e \<notin> set (elems dst)"
  then have "map_of (zip (elems dst) (tensor_value s src)) e = None"
    by (auto simp: map_of_eq_None_iff dest: set_zip_leftD)
  then show ?thesis by (simp add: copy_store_def)
qed

lemma copy_store_dst:
  assumes "distinct (elems dst)" and "length (elems src) = length (elems dst)"
  shows "tensor_value (copy_store src dst s) dst = tensor_value s src"
proof (rule nth_equalityI)
  show "length (tensor_value (copy_store src dst s) dst) = length (tensor_value s src)"
    using assms(2) by (simp add: tensor_value_def)
next
  fix i assume "i < length (tensor_value (copy_store src dst s) dst)"
  then have i: "i < length (elems dst)" by (simp add: tensor_value_def)
  have "map_of (zip (elems dst) (tensor_value s src)) (elems dst ! i) = Some (tensor_value s src ! i)"
    using assms i by (intro map_of_zip_nth) (simp_all add: tensor_value_def)
  then show "tensor_value (copy_store src dst s) dst ! i = tensor_value s src ! i"
    using i by (simp add: tensor_value_def copy_store_def)
qed

lemma tensor_value_cong:
  "(\<And>e. e \<in> set (elems t) \<Longrightarrow> s e = s' e) \<Longrightarrow> tensor_value s t = tensor_value s' t"
  by (simp add: tensor_value_def)

lemma var_tensor_distinct: "distinct (elems (var_tensor v ty sh))"
  by (simp add: var_tensor_def distinct_map inj_on_def)

lemma run_fresh_copies:
  assumes src_old: "\<forall>j\<in>set js. \<forall>e\<in>set (elems (S j)). fst e < n0"
    and src_len: "\<forall>j\<in>set js. length (elems (S j)) = prod_list sh"
    and fresh: "\<forall>j\<in>set js. n0 \<le> V j"
    and dist: "distinct (map V js)"
  shows "(\<forall>e. fst e < n0 \<longrightarrow> fold (run E) (map (\<lambda>j. Copy (S j) (var_tensor (V j) ty sh)) js) s e = s e)
       \<and> (\<forall>j\<in>set js. tensor_value (fold (run E) (map (\<lambda>j. Copy (S j) (var_tensor (V j) ty sh)) js) s)
                          (var_tensor (V j) ty sh) = tensor_value s (S j))"
  using assms
proof (induction js rule: rev_induct)
  case Nil
  then show ?case by simp
next
  case (snoc j js)
  let ?s1 = "fold (run E) (map (\<lambda>j. Copy (S j) (var_tensor (V j) ty sh)) js) s"
  let ?s2 = "fold (run E) (map (\<lambda>j. Copy (S j) (var_tensor (V j) ty sh)) (js @ [j])) s"
  have s2: "?s2 = copy_store (S j) (var_tensor (V j) ty sh) ?s1" by simp
  have ih_old: "\<And>e. fst e < n0 \<Longrightarrow> ?s1 e = s e"
    and ih_new: "\<And>k. k \<in> set js \<Longrightarrow> tensor_value ?s1 (var_tensor (V k) ty sh) = tensor_value s (S k)"
    using snoc.IH snoc.prems by auto
  have vj: "n0 \<le> V j" using snoc.prems(3) by simp
  have old: "?s2 e = s e" if "fst e < n0" for e
  proof -
    have "e \<notin> set (elems (var_tensor (V j) ty sh))"
      using that vj by (auto simp: var_tensor_elems)
    then show ?thesis unfolding s2 using ih_old [OF that] by (simp add: copy_store_other)
  qed
  have srcj: "tensor_value ?s1 (S j) = tensor_value s (S j)"
    using snoc.prems(1) ih_old by (intro tensor_value_cong) auto
  have newj: "tensor_value ?s2 (var_tensor (V j) ty sh) = tensor_value s (S j)"
    unfolding s2 using snoc.prems(2) srcj
    by (simp add: copy_store_dst var_tensor_distinct)
  have newk: "tensor_value ?s2 (var_tensor (V k) ty sh) = tensor_value s (S k)" if "k \<in> set js" for k
  proof -
    have "V j \<notin> V ` set js" using snoc.prems(4) by simp
    then have "V k \<noteq> V j" using that by (metis imageI)
    then have "\<And>e. e \<in> set (elems (var_tensor (V k) ty sh)) \<Longrightarrow> ?s2 e = ?s1 e"
      unfolding s2 by (intro copy_store_other) (auto simp: var_tensor_elems)
    then have "tensor_value ?s2 (var_tensor (V k) ty sh) = tensor_value ?s1 (var_tensor (V k) ty sh)"
      by (rule tensor_value_cong)
    then show ?thesis using ih_new [OF that] by simp
  qed
  show ?case using old newj newk by auto
qed

lemma size_t_of_nonneg: "0 \<le> sint x \<Longrightarrow> size_t_of x = nat (sint x)"
proof -
  assume nn: "0 \<le> sint x"
  have "sint x < 2 ^ (LENGTH(32) - 1)" by (rule sint_lt)
  then have "sint x < 2 ^ 64" by simp
  then have "sint x mod 2 ^ 64 = sint x" using nn by simp
  then show ?thesis by (simp add: size_t_of_def)
qed

lemma gather_body_returns:
  assumes tin: "tshape input = n_in # sh"
    and k: "k < length (indices params)"
    and nn: "0 \<le> sint (indices params ! k)"
    and b1: "nat (sint (indices params ! k)) < n_in"
    and b2: "nat (sint (indices params ! k)) < length (previous_tiles params)"
    and tile: "unat (tiles params ! k) < numTiles g"
  shows "\<exists>st' g'. gather_body params input (elementType input) sh k st g = Returned st' g'"
proof -
  let ?gi = "size_t_of (indices params ! k)"
  have gi: "?gi = nat (sint (indices params ! k))" using nn by (rule size_t_of_nonneg)
  obtain src where src: "index input ?gi = Inr src"
    and ty: "elementType src = elementType input" and shp: "tshape src = sh"
    using tin b1 gi by (simp add: index_def)
  show ?thesis
    using k b2 gi src ty shp tile
    by (simp add: gather_body_def vector_at_def Let_def addVariable_def setTileMapping_def
        make_Copy_def)
qed

lemma gather_graph_numTiles [simp]: "numTiles (gather_graph params g ty sh k) = numTiles g"
  by (simp add: gather_graph_def)

lemma gather_loop_returns:
  assumes tin: "tshape input = n_in # sh"
    and len: "length (tiles params) \<le> length (indices params)"
    and idx: "\<forall>j<length (tiles params). 0 \<le> sint (indices params ! j)
                \<and> nat (sint (indices params ! j)) < n_in
                \<and> nat (sint (indices params ! j)) < length (previous_tiles params)"
    and tls: "\<forall>j<length (tiles params). unat (tiles params ! j) < numTiles g"
    and k: "k \<le> length (tiles params)"
  shows "\<exists>st g'. foreach [0..<k] (gather_body params input (elementType input) sh) ([], []) g
           = Returned st g'"
  using k
proof (induction k)
  case 0
  show ?case by simp
next
  case (Suc k)
  then obtain st1 g1 where
    pre: "foreach [0..<k] (gather_body params input (elementType input) sh) ([], []) g = Returned st1 g1"
    by auto
  have g1: "numTiles g1 = numTiles g"
    using gather_loop_closed [OF pre] by simp
  have kk: "k < length (tiles params)" using Suc.prems by simp
  have "\<exists>st' g'. gather_body params input (elementType input) sh k st1 g1 = Returned st' g'"
    using tin kk len idx tls g1 by (intro gather_body_returns [where n_in = n_in]) auto
  then show ?case
    using pre by (auto simp: foreach_append)
qed

lemma gather_loop_concat:
  assumes loop: "foreach [0..<n] (gather_body params input (elementType input) (tl (tshape input)))
                   ([], []) g = Returned st g'"
    and wfi: "wf_tensor input" and npos: "0 < n"
  shows "\<exists>out. concat_tensors (snd st) = Inr out"
proof -
  let ?ty = "elementType input" and ?sh = "tl (tshape input)"
  note closed = gather_loop_closed [OF loop]
  let ?slices = "map (\<lambda>j. expand0 (gather_slot params g input ?ty ?sh j)) [0..<n]"
  have st: "snd st = ?slices" using closed by simp
  have each: "\<And>j. j < n \<Longrightarrow>
            index input (size_t_of (indices params ! j)) = Inr (gather_src params input j)"
    using closed by blast
  have slot: "tshape (gather_slot params g input ?ty ?sh j) = ?sh
            \<and> elementType (gather_slot params g input ?ty ?sh j) = ?ty
            \<and> length (elems (gather_slot params g input ?ty ?sh j)) = prod_list ?sh" if "j < n" for j
    using gather_src_facts [OF wfi each [OF that]]
    by (simp add: gather_slot_def gather_dst_def)
  have ne: "?slices \<noteq> []" using npos by simp
  have all: "\<forall>u\<in>set ?slices. tshape u = 1 # ?sh \<and> elementType u = ?ty \<and> length (elems u) = prod_list ?sh"
    using slot by auto
  from concat_tensors_slices [OF ne all] show ?thesis
    unfolding st by blast
qed

lemma TileGather_returns:
  assumes wf: "wf_tensor input"
    and tin: "tshape input = n_in # sh"
    and ne: "tiles params \<noteq> []"
    and len: "length (tiles params) \<le> length (indices params)"
    and idx: "\<forall>j<length (tiles params). 0 \<le> sint (indices params ! j)
                \<and> nat (sint (indices params ! j)) < n_in
                \<and> nat (sint (indices params ! j)) < length (previous_tiles params)"
    and tls: "\<forall>j<length (tiles params). unat (tiles params ! j) < numTiles g"
  shows "\<exists>prog out g'. TileGatherPrimitive_program g [input] outputs params
           = Returned (prog, outputs @ [out]) g'"
proof -
  have npos: "0 < length (tiles params)" using ne by simp
  then have "0 < n_in" using idx by force
  then obtain input0 where i0: "index input 0 = Inr input0" and sh0: "tshape input0 = sh"
    using tin by (simp add: index_def)
  from gather_loop_returns [OF tin len idx tls le_refl] obtain st g1 where
    loop: "foreach [0..<length (tiles params)] (gather_body params input (elementType input) sh)
             ([], []) g = Returned st g1"
    by blast
  have sh: "sh = tl (tshape input)" using tin by simp
  from gather_loop_concat [OF loop [unfolded sh] wf npos] obtain out where
    "concat_tensors (snd st) = Inr out" by blast
  then show ?thesis
    using i0 sh0 loop by (simp add: TileGatherPrimitive_program_def)
qed

lemma gather_run_values:
  assumes wf: "wf_tensor input"
    and ing: "\<forall>e\<in>set (elems input). fst e < length (variables g)"
    and each: "\<forall>j<n. index input (size_t_of (indices params ! j)) = Inr (gather_src params input j)"
    and j: "j < n"
  shows "tensor_value
           (run E (Sequence (map (\<lambda>j. Copy (gather_src params input j)
                      (gather_dst params g (elementType input) (tl (tshape input)) j))
                   (filter (needs_copy params) [0..<n]))) s)
           (gather_slot params g input (elementType input) (tl (tshape input)) j)
         = tensor_value s (gather_src params input j)"
proof -
  let ?ty = "elementType input" and ?sh = "tl (tshape input)"
  let ?js = "filter (needs_copy params) [0..<n]"
  let ?V = "\<lambda>j. length (variables g) + length (filter (needs_copy params) [0..<j])"
  let ?s' = "fold (run E) (map (\<lambda>j. Copy (gather_src params input j) (var_tensor (?V j) ?ty ?sh)) ?js) s"
  have sub: "set (elems (gather_src params input k)) \<subseteq> set (elems input)" if "k < n" for k
  proof -
    have "elems (gather_src params input k)
        = take (prod_list ?sh) (drop (size_t_of (indices params ! k) * prod_list ?sh) (elems input))"
      using index_wf [OF wf] each that by blast
    then show ?thesis
      by (metis set_take_subset set_drop_subset subset_trans)
  qed
  have src_old: "\<forall>k\<in>set ?js. \<forall>e\<in>set (elems (gather_src params input k)). fst e < length (variables g)"
    using sub ing by auto
  have src_len: "\<forall>k\<in>set ?js. length (elems (gather_src params input k)) = prod_list ?sh"
    using gather_src_facts(4) [OF wf] each by simp
  have fresh: "\<forall>k\<in>set ?js. length (variables g) \<le> ?V k" by simp
  have "inj_on ?V (set ?js)"
    by (rule inj_onI) (use filter_upt_count_inj [of "needs_copy params"] in auto)
  then have dist: "distinct (map ?V ?js)"
    by (simp add: distinct_map)
  note rf = run_fresh_copies [of ?js "gather_src params input" "length (variables g)" ?sh ?V E ?ty s,
      OF src_old src_len fresh dist]
  have run: "run E (Sequence (map (\<lambda>j. Copy (gather_src params input j)
                      (gather_dst params g ?ty ?sh j)) ?js)) s = ?s'"
    by (simp add: gather_dst_def)
  show ?thesis
  proof (cases "needs_copy params j")
    case True
    then have "j \<in> set ?js" using j by simp
    then have "tensor_value ?s' (var_tensor (?V j) ?ty ?sh) = tensor_value s (gather_src params input j)"
      using rf by blast
    then show ?thesis unfolding run using True by (simp add: gather_slot_def gather_dst_def)
  next
    case False
    have "tensor_value ?s' (gather_src params input j) = tensor_value s (gather_src params input j)"
    proof (rule tensor_value_cong)
      fix e assume "e \<in> set (elems (gather_src params input j))"
      then have "fst e < length (variables g)" using sub [OF j] ing by auto
      then show "?s' e = s e" using rf by blast
    qed
    then show ?thesis unfolding run using False by (simp add: gather_slot_def)
  qed
qed

subsection \<open>How a loop fails\<close>

lemma foreach_cong_body:
  "(\<And>x s h. x \<in> set xs \<Longrightarrow> body x s h = body' x s h) \<Longrightarrow> foreach xs body st g = foreach xs body' st g"
proof (induction xs arbitrary: st g)
  case Nil
  show ?case by simp
next
  case (Cons x xs)
  have "body x st g = body' x st g" using Cons.prems by simp
  moreover have "foreach xs body = foreach xs body'"
    using Cons.IH Cons.prems by (intro ext) simp
  ultimately show ?case by simp
qed

lemma foreach_failure:
  assumes "foreach xs body st g = r" and "\<forall>a h. r \<noteq> Returned a h"
  shows "\<exists>x\<in>set xs. \<exists>s h. body x s h = r"
  using assms
proof (induction xs arbitrary: st g)
  case Nil
  then show ?case by auto
next
  case (Cons x xs)
  show ?case
  proof (cases "body x st g")
    case (Returned s1 h1)
    then have "foreach xs body s1 h1 = r" using Cons.prems(1) by simp
    from Cons.IH [OF this Cons.prems(2)] show ?thesis by auto
  next
    case (Thrown e h)
    then show ?thesis using Cons.prems(1) by (intro bexI [of _ x]) auto
  next
    case Terminated
    then show ?thesis using Cons.prems(1) by (intro bexI [of _ x]) auto
  next
    case (Undefined u)
    then show ?thesis using Cons.prems(1) by (intro bexI [of _ x]) auto
  qed
qed

lemma foreach_Returned_each:
  assumes "foreach xs body st g = Returned st' g'" and "x \<in> set xs"
  shows "\<exists>s h s' h'. body x s h = Returned s' h'"
  using assms
proof (induction xs arbitrary: st g)
  case Nil
  then show ?case by simp
next
  case (Cons y ys)
  from Cons.prems(1) obtain s1 h1 where b: "body y st g = Returned s1 h1"
    and r: "foreach ys body s1 h1 = Returned st' g'"
    by (auto simp: bind_Returned)
  show ?case
  proof (cases "x = y")
    case True
    then show ?thesis using b by blast
  next
    case False
    then have "x \<in> set ys" using Cons.prems(2) by simp
    from Cons.IH [OF r this] show ?thesis .
  qed
qed

lemma gather_body_failures:
  "(\<exists>s' g'. gather_body params input ty sh idx st g = Returned s' g')
   \<or> (\<exists>g'. gather_body params input ty sh idx st g = Thrown poplar_error g')
   \<or> gather_body params input ty sh idx st g = Undefined OutOfBounds"
  by (auto simp: gather_body_def index_def vector_at_def Let_def addVariable_def
      setTileMapping_def make_Copy_def split: option.splits list.splits)

lemma gather_body_truncate:
  assumes "idx < length (tiles params)" and "length (tiles params) \<le> length (indices params)"
  shows "gather_body (params\<lparr>indices := take (length (tiles params)) (indices params)\<rparr>) input ty sh idx st g
         = gather_body params input ty sh idx st g"
  using assms by (simp add: gather_body_def vector_at_def)

lemma gather_body_past_indices:
  "length (indices params) \<le> idx \<Longrightarrow> gather_body params input ty sh idx st g = Undefined OutOfBounds"
  by (simp add: gather_body_def vector_at_def)

subsection \<open>Tile data barrier\<close>

lemma barrier_slot_body_Returned:
  assumes "barrier_slot_body tls t_re k b g = Returned b' g'"
  shows "g' = g \<and> size_t_of (tls ! k) < length b
       \<and> (\<exists>s. index t_re k = Inr s)
       \<and> b' = b[size_t_of (tls ! k) := b ! size_t_of (tls ! k) @ [projr (index t_re k)]]"
  using assms
  by (auto simp: barrier_slot_body_def vector_at_def bind_Returned lift_Returned
      split: option.splits if_splits)

lemma barrier_slot_loop:
  assumes "foreach [0..<k] (barrier_slot_body tls t_re) b g = Returned b' g'"
  shows "g' = g \<and> length b' = length b
       \<and> (\<forall>t<length b. b' ! t = b ! t @ map (\<lambda>j. projr (index t_re j))
                                              (filter (\<lambda>j. size_t_of (tls ! j) = t) [0..<k]))
       \<and> (\<forall>j<k. size_t_of (tls ! j) < length b \<and> (\<exists>s. index t_re j = Inr s))"
  using assms
proof (induction k arbitrary: b' g')
  case 0
  then show ?case by simp
next
  case (Suc k)
  from Suc.prems obtain b1 g1 where
    pre: "foreach [0..<k] (barrier_slot_body tls t_re) b g = Returned b1 g1"
    and step: "barrier_slot_body tls t_re k b1 g1 = Returned b' g'"
    by (auto simp: foreach_append bind_Returned)
  note ih = Suc.IH [OF pre]
  note st = barrier_slot_body_Returned [OF step]
  have len: "length b1 = length b" using ih by simp
  have g: "g' = g" using ih st by simp
  have len': "length b' = length b" using st len by simp
  have rng: "\<forall>j<Suc k. size_t_of (tls ! j) < length b \<and> (\<exists>s. index t_re j = Inr s)"
    using ih st len by (auto simp: less_Suc_eq)
  have nth: "b' ! t = b ! t @ map (\<lambda>j. projr (index t_re j))
                                 (filter (\<lambda>j. size_t_of (tls ! j) = t) [0..<Suc k])"
    if t: "t < length b" for t
  proof (cases "size_t_of (tls ! k) = t")
    case True
    have "b' ! t = b1 ! t @ [projr (index t_re k)]"
      using st t len True by simp
    then show ?thesis using ih t True by simp
  next
    case False
    have "b' ! t = b1 ! t" using st False by simp
    then show ?thesis using ih t False by simp
  qed
  show ?case using g len' nth rng by blast
qed

lemma barrier_input_body_Returned:
  assumes "barrier_input_body params inputs idx b g = Returned b' g'"
  shows "\<exists>t_re. tileBarrierReinterpretTensor (inputs ! idx) = Inr t_re
           \<and> idx < length (inputs_tiles params)
           \<and> foreach [0..<length (inputs_tiles params ! idx)]
                 (barrier_slot_body (inputs_tiles params ! idx) t_re) b g = Returned b' g'"
  using assms
  by (auto simp: barrier_input_body_def vector_at_def bind_Returned lift_Returned
      split: option.splits if_splits)

lemma barrier_input_loop:
  assumes "foreach [0..<m] (barrier_input_body params inputs) b g = Returned b' g'"
  shows "g' = g \<and> length b' = length b
       \<and> (\<forall>t<length b. b' ! t = b ! t @
             concat (map (\<lambda>idx. map (barrier_slot inputs idx)
                                  (filter (\<lambda>k. size_t_of (inputs_tiles params ! idx ! k) = t)
                                     [0..<length (inputs_tiles params ! idx)]))
                       [0..<m]))
       \<and> (\<forall>idx<m. idx < length (inputs_tiles params)
              \<and> (\<exists>t_re. tileBarrierReinterpretTensor (inputs ! idx) = Inr t_re)
              \<and> (\<forall>k<length (inputs_tiles params ! idx).
                    size_t_of (inputs_tiles params ! idx ! k) < length b
                  \<and> (\<exists>s. index (projr (tileBarrierReinterpretTensor (inputs ! idx))) k = Inr s)))"
  using assms
proof (induction m arbitrary: b' g')
  case 0
  then show ?case by simp
next
  case (Suc m)
  from Suc.prems obtain b1 g1 where
    pre: "foreach [0..<m] (barrier_input_body params inputs) b g = Returned b1 g1"
    and step: "barrier_input_body params inputs m b1 g1 = Returned b' g'"
    by (auto simp: foreach_append bind_Returned)
  note ih = Suc.IH [OF pre]
  from barrier_input_body_Returned [OF step] obtain t_re where
    re: "tileBarrierReinterpretTensor (inputs ! m) = Inr t_re"
    and m: "m < length (inputs_tiles params)"
    and inner: "foreach [0..<length (inputs_tiles params ! m)]
                 (barrier_slot_body (inputs_tiles params ! m) t_re) b1 g1 = Returned b' g'"
    by blast
  note il = barrier_slot_loop [OF inner]
  have tre: "projr (tileBarrierReinterpretTensor (inputs ! m)) = t_re" using re by simp
  have len1: "length b1 = length b" using ih by simp
  have g: "g' = g" using ih il by simp
  have len': "length b' = length b" using il len1 by simp
  have nth: "b' ! t = b ! t @
             concat (map (\<lambda>idx. map (barrier_slot inputs idx)
                                  (filter (\<lambda>k. size_t_of (inputs_tiles params ! idx ! k) = t)
                                     [0..<length (inputs_tiles params ! idx)]))
                       [0..<Suc m])" if t: "t < length b" for t
  proof -
    have "b' ! t = b1 ! t @ map (\<lambda>j. projr (index t_re j))
              (filter (\<lambda>j. size_t_of (inputs_tiles params ! m ! j) = t)
                 [0..<length (inputs_tiles params ! m)])"
      using il t len1 by simp
    moreover have "(\<lambda>j. projr (index t_re j)) = barrier_slot inputs m"
      by (intro ext) (simp add: barrier_slot_def tre)
    ultimately show ?thesis using ih t by simp
  qed
  have rng: "\<forall>idx<Suc m. idx < length (inputs_tiles params)
              \<and> (\<exists>t_re. tileBarrierReinterpretTensor (inputs ! idx) = Inr t_re)
              \<and> (\<forall>k<length (inputs_tiles params ! idx).
                    size_t_of (inputs_tiles params ! idx ! k) < length b
                  \<and> (\<exists>s. index (projr (tileBarrierReinterpretTensor (inputs ! idx))) k = Inr s))"
  proof (intro allI impI)
    fix idx assume "idx < Suc m"
    then consider "idx < m" | "idx = m" by linarith
    then show "idx < length (inputs_tiles params)
              \<and> (\<exists>t_re. tileBarrierReinterpretTensor (inputs ! idx) = Inr t_re)
              \<and> (\<forall>k<length (inputs_tiles params ! idx).
                    size_t_of (inputs_tiles params ! idx ! k) < length b
                  \<and> (\<exists>s. index (projr (tileBarrierReinterpretTensor (inputs ! idx))) k = Inr s))"
    proof cases
      case 1
      then show ?thesis using ih by blast
    next
      case 2
      then show ?thesis using re m il len1 tre by auto
    qed
  qed
  show ?case using g len' nth rng by blast
qed

lemma unat_of_nat_tile: "t < 2 ^ 31 \<Longrightarrow> unat (of_nat t :: 32 word) = t"
  by (simp add: unat_of_nat)

lemma update_last_vertex:
  "update_vertex (length (vertices g)) f (g\<lparr>vertices := vertices g @ [v]\<rparr>)
     = g\<lparr>vertices := vertices g @ [f v]\<rparr>"
  by (simp add: update_vertex_def)

lemma barrier_vertex_body_Returned:
  assumes "barrier_vertex_body params cs buckets t u g = Returned u' g'" and "t < 2 ^ 31"
  shows "if buckets ! t = [] then g' = g
         else t < numTiles g
            \<and> g' = g\<lparr>vertices := vertices g @
                   [\<lparr>vertex_cs = cs, vertex_name = vname params, vertex_tile = Some t,
                     vertex_perf = Some 14,
                     vertex_edges = [(''data'', EdgeVector (buckets ! t))], vertex_init = []\<rparr>]\<rparr>"
  using assms
  by (auto simp: barrier_vertex_body_def Let_def addVertex_def setVertexTileMapping_def
      bind_Returned unat_of_nat_tile connect_def setPerfEstimate_def update_vertex_def
      split: if_splits)

lemma barrier_vertex_loop:
  assumes "foreach [0..<k] (barrier_vertex_body params cs buckets) () g = Returned u g'"
    and "k \<le> 2 ^ 31"
  shows "g' = g\<lparr>vertices := vertices g @
                 map (\<lambda>t. \<lparr>vertex_cs = cs, vertex_name = vname params, vertex_tile = Some t,
                            vertex_perf = Some 14,
                            vertex_edges = [(''data'', EdgeVector (buckets ! t))],
                            vertex_init = []\<rparr>)
                     (filter (\<lambda>t. buckets ! t \<noteq> []) [0..<k])\<rparr>
       \<and> (\<forall>t<k. buckets ! t \<noteq> [] \<longrightarrow> t < numTiles g)"
  using assms
proof (induction k arbitrary: u g')
  case 0
  then show ?case by simp
next
  case (Suc k)
  from Suc.prems(1) obtain u1 g1 where
    pre: "foreach [0..<k] (barrier_vertex_body params cs buckets) () g = Returned u1 g1"
    and step: "barrier_vertex_body params cs buckets k u1 g1 = Returned u g'"
    by (auto simp: foreach_append bind_Returned)
  have k: "k \<le> 2 ^ 31" "k < 2 ^ 31" using Suc.prems(2) by simp_all
  note ih = Suc.IH [OF pre k(1)]
  note st = barrier_vertex_body_Returned [OF step k(2)]
  have nt: "numTiles g1 = numTiles g" using ih by simp
  show ?case
  proof (cases "buckets ! k = []")
    case True
    then have "g' = g1" using st by simp
    then show ?thesis using ih True by (auto simp: less_Suc_eq)
  next
    case False
    then have kt: "k < numTiles g" and g': "g' = g1\<lparr>vertices := vertices g1 @
                   [\<lparr>vertex_cs = cs, vertex_name = vname params, vertex_tile = Some k,
                     vertex_perf = Some 14,
                     vertex_edges = [(''data'', EdgeVector (buckets ! k))], vertex_init = []\<rparr>]\<rparr>"
      using st nt by simp_all
    have "g' = g\<lparr>vertices := vertices g @
                 map (\<lambda>t. \<lparr>vertex_cs = cs, vertex_name = vname params, vertex_tile = Some t,
                            vertex_perf = Some 14,
                            vertex_edges = [(''data'', EdgeVector (buckets ! t))],
                            vertex_init = []\<rparr>)
                     (filter (\<lambda>t. buckets ! t \<noteq> []) [0..<Suc k])\<rparr>"
      using ih False by (simp add: g')
    moreover have "\<forall>t<Suc k. buckets ! t \<noteq> [] \<longrightarrow> t < numTiles g"
      using ih kt by (auto simp: less_Suc_eq)
    ultimately show ?thesis by blast
  qed
qed

lemma make_tensors_per_tiles_Returned:
  assumes "make_tensors_per_tiles mt g = Returned b g'"
  shows "g' = g \<and> b = replicate (nat (sint mt + 1)) [] \<and> sint mt \<noteq> 2 ^ 31 - 1 \<and> 0 \<le> sint mt + 1"
  using assms by (auto simp: make_tensors_per_tiles_def split: if_splits)

lemma bucket_count_bound: "sint (mt :: 32 word) \<noteq> 2 ^ 31 - 1 \<Longrightarrow> nat (sint mt + 1) \<le> 2 ^ 31"
proof -
  have "sint mt < 2 ^ (LENGTH(32) - 1)" by (rule sint_lt)
  then show ?thesis by simp
qed

lemma TileDataBarrier_closed:
  assumes ret: "TileDataBarrierPrimitive_program g inputs outputs params = Returned (prog, outs) g'"
  shows "outs = inputs \<and> inputs \<noteq> [] \<and> prog = Sequence [Execute (computeSets g)]
       \<and> sint (max_tile params) \<noteq> 2 ^ 31 - 1 \<and> 0 \<le> sint (max_tile params) + 1
       \<and> g' = g\<lparr>computeSets := Suc (computeSets g),
                 vertices := vertices g @
                   map (barrier_vertex params inputs (computeSets g))
                     (filter (\<lambda>t. barrier_bucket params inputs t \<noteq> [])
                        [0..<nat (sint (max_tile params) + 1)])\<rparr>
       \<and> (\<forall>idx<length inputs. idx < length (inputs_tiles params)
              \<and> (\<exists>t_re. tileBarrierReinterpretTensor (inputs ! idx) = Inr t_re)
              \<and> (\<forall>k<length (inputs_tiles params ! idx).
                    size_t_of (inputs_tiles params ! idx ! k) < nat (sint (max_tile params) + 1)
                  \<and> (\<exists>s. index (projr (tileBarrierReinterpretTensor (inputs ! idx))) k = Inr s)))
       \<and> (\<forall>t<nat (sint (max_tile params) + 1).
              barrier_bucket params inputs t \<noteq> [] \<longrightarrow> t < numTiles g)"
proof -
  let ?n = "nat (sint (max_tile params) + 1)"
  from ret have ne: "inputs \<noteq> []"
    by (auto simp: TileDataBarrierPrimitive_program_def split: if_splits)
  from ret ne obtain b0 g0 b g1 u g3 where
    mk: "make_tensors_per_tiles (max_tile params) g = Returned b0 g0"
    and l1: "foreach [0..<length inputs] (barrier_input_body params inputs) b0 g0 = Returned b g1"
    and l2: "foreach [0..<length b] (barrier_vertex_body params (computeSets g1) b) ()
               (g1\<lparr>computeSets := Suc (computeSets g1)\<rparr>) = Returned u g3"
    and res: "prog = Sequence [Execute (computeSets g1)]" "outs = inputs" "g' = g3"
    by (auto simp: TileDataBarrierPrimitive_program_def bind_Returned addComputeSet_def
        split: if_splits)
  note m = make_tensors_per_tiles_Returned [OF mk]
  note c1 = barrier_input_loop [OF l1]
  have g1: "g1 = g" using m c1 by simp
  have lenb: "length b = ?n" using m c1 by simp
  have bk: "b ! t = barrier_bucket params inputs t" if "t < ?n" for t
    using c1 m that by (simp add: barrier_bucket_def)
  have bound: "length b \<le> 2 ^ 31"
    unfolding lenb using m by (intro bucket_count_bound) simp
  note c2 = barrier_vertex_loop [OF l2 bound]
  have filt: "filter (\<lambda>t. b ! t \<noteq> []) [0..<?n] = filter (\<lambda>t. barrier_bucket params inputs t \<noteq> []) [0..<?n]"
    using bk by (intro filter_cong) auto
  have verts: "map (\<lambda>t. \<lparr>vertex_cs = computeSets g, vertex_name = vname params, vertex_tile = Some t,
                            vertex_perf = Some 14,
                            vertex_edges = [(''data'', EdgeVector (b ! t))],
                            vertex_init = []\<rparr>)
                     (filter (\<lambda>t. b ! t \<noteq> []) [0..<?n])
             = map (barrier_vertex params inputs (computeSets g))
                     (filter (\<lambda>t. barrier_bucket params inputs t \<noteq> []) [0..<?n])"
    unfolding filt using bk by (intro map_cong) (auto simp: barrier_vertex_def)
  have g': "g' = g\<lparr>computeSets := Suc (computeSets g),
                 vertices := vertices g @
                   map (barrier_vertex params inputs (computeSets g))
                     (filter (\<lambda>t. barrier_bucket params inputs t \<noteq> []) [0..<?n])\<rparr>"
    using c2 verts by (simp add: res g1 lenb)
  have tiles_ok: "\<forall>t<?n. barrier_bucket params inputs t \<noteq> [] \<longrightarrow> t < numTiles g"
    using c2 bk by (simp add: lenb g1)
  have rng: "\<forall>idx<length inputs. idx < length (inputs_tiles params)
              \<and> (\<exists>t_re. tileBarrierReinterpretTensor (inputs ! idx) = Inr t_re)
              \<and> (\<forall>k<length (inputs_tiles params ! idx).
                    size_t_of (inputs_tiles params ! idx ! k) < ?n
                  \<and> (\<exists>s. index (projr (tileBarrierReinterpretTensor (inputs ! idx))) k = Inr s))"
    using c1 m by simp
  show ?thesis
    using res(2) ne res(1) g1 m g' rng tiles_ok by blast
qed

lemma supported_type:
  "tileBarrierReinterpretTensor t = Inr r \<Longrightarrow>
     elementType t \<in> {BOOL, CHAR_T, SIGNED_CHAR, UNSIGNED_CHAR, SHORT, UNSIGNED_SHORT, HALF,
                       INT_T, UNSIGNED_INT, FLOAT}"
  by (auto simp: tileBarrierReinterpretTensor_def split: if_splits)

lemma indicator_sum_upt:
  "(a :: nat) < n \<Longrightarrow> (\<Sum>t\<in>{0..<n}. if a = t then 1 else 0 :: nat) = 1"
  by simp

lemma filter_partition_count:
  fixes f :: "'a \<Rightarrow> nat"
  shows "\<forall>k\<in>set ks. f k < n \<Longrightarrow> (\<Sum>t\<in>{0..<n}. length (filter (\<lambda>k. f k = t) ks)) = length ks"
proof (induction ks)
  case Nil
  show ?case by simp
next
  case (Cons a ks)
  have "(\<Sum>t\<in>{0..<n}. length (filter (\<lambda>k. f k = t) (a # ks)))
      = (\<Sum>t\<in>{0..<n}. (if f a = t then 1 else 0) + length (filter (\<lambda>k. f k = t) ks))"
    by (intro sum.cong) auto
  also have "\<dots> = (\<Sum>t\<in>{0..<n}. if f a = t then 1 else 0) + (\<Sum>t\<in>{0..<n}. length (filter (\<lambda>k. f k = t) ks))"
    by (simp add: sum.distrib)
  also have "\<dots> = 1 + length ks"
    using Cons indicator_sum_upt [of "f a" n] by simp
  finally show ?case by simp
qed

lemma barrier_bucket_total:
  assumes "\<forall>idx<length inputs. \<forall>k<length (inputs_tiles params ! idx).
             size_t_of (inputs_tiles params ! idx ! k) < n"
  shows "sum_list (map (\<lambda>t. length (barrier_bucket params inputs t)) [0..<n])
       = sum_list (map (\<lambda>idx. length (inputs_tiles params ! idx)) [0..<length inputs])"
proof -
  let ?c = "\<lambda>idx t. length (filter (\<lambda>k. size_t_of (inputs_tiles params ! idx ! k) = t)
                                [0..<length (inputs_tiles params ! idx)])"
  have len: "length (barrier_bucket params inputs t) = (\<Sum>idx\<in>{0..<length inputs}. ?c idx t)" for t
    by (simp add: barrier_bucket_def length_concat comp_def interv_sum_list_conv_sum_set_nat)
  have "sum_list (map (\<lambda>t. length (barrier_bucket params inputs t)) [0..<n])
      = (\<Sum>t\<in>{0..<n}. \<Sum>idx\<in>{0..<length inputs}. ?c idx t)"
    by (simp add: interv_sum_list_conv_sum_set_nat len)
  also have "\<dots> = (\<Sum>idx\<in>{0..<length inputs}. \<Sum>t\<in>{0..<n}. ?c idx t)"
    by (rule sum.swap)
  also have "\<dots> = (\<Sum>idx\<in>{0..<length inputs}. length (inputs_tiles params ! idx))"
  proof (rule sum.cong [OF refl])
    fix idx assume "idx \<in> {0..<length inputs}"
    then have "\<forall>k\<in>set [0..<length (inputs_tiles params ! idx)].
                 size_t_of (inputs_tiles params ! idx ! k) < n"
      using assms by simp
    from filter_partition_count [OF this]
    show "(\<Sum>t\<in>{0..<n}. ?c idx t) = length (inputs_tiles params ! idx)" by simp
  qed
  finally show ?thesis
    by (simp add: interv_sum_list_conv_sum_set_nat)
qed

lemma foreach_failure_inv:
  assumes "foreach xs body st g = r" and "\<forall>a h. r \<noteq> Returned a h" and "I st"
    and pres: "\<And>x s h s' h'. x \<in> set xs \<Longrightarrow> I s \<Longrightarrow> body x s h = Returned s' h' \<Longrightarrow> I s'"
  shows "\<exists>x\<in>set xs. \<exists>s h. I s \<and> body x s h = r"
  using assms(1,2,3) pres
proof (induction xs arbitrary: st g)
  case Nil
  then show ?case by auto
next
  case (Cons x xs)
  show ?case
  proof (cases "body x st g")
    case (Returned s1 h1)
    then have r: "foreach xs body s1 h1 = r" using Cons.prems(1) by simp
    have i1: "I s1" using Cons.prems(4) [of x st g s1 h1] Cons.prems(3) Returned by simp
    have "\<exists>x\<in>set xs. \<exists>s h. I s \<and> body x s h = r"
      by (rule Cons.IH [OF r Cons.prems(2) i1]) (rule Cons.prems(4), auto)
    then show ?thesis by auto
  next
    case (Thrown e h)
    then have "body x st g = r" using Cons.prems(1) by simp
    then show ?thesis using Cons.prems(3) by auto
  next
    case Terminated
    then have "body x st g = r" using Cons.prems(1) by simp
    then show ?thesis using Cons.prems(3) by auto
  next
    case (Undefined u)
    then have "body x st g = r" using Cons.prems(1) by simp
    then show ?thesis using Cons.prems(3) by auto
  qed
qed

lemma size_t_of_small:
  assumes "size_t_of x < n" and "n \<le> 2 ^ 31"
  shows "0 \<le> sint x \<and> nat (sint x) < n"
proof -
  have lo: "- (2 ^ (LENGTH(32) - 1)) \<le> sint x" by (rule sint_ge)
  have nn: "0 \<le> sint x"
  proof (rule ccontr)
    assume "\<not> 0 \<le> sint x"
    then have neg: "sint x < 0" by simp
    have "sint x mod 2 ^ 64 = (sint x + 2 ^ 64) mod 2 ^ 64"
      by simp
    also have "\<dots> = sint x + 2 ^ 64"
      using lo neg by (intro mod_pos_pos_trivial) auto
    finally have "sint x mod 2 ^ 64 = sint x + 2 ^ 64" .
    then have "size_t_of x = nat (sint x + 2 ^ 64)" by (simp add: size_t_of_def)
    moreover have "2 ^ 31 \<le> nat (sint x + 2 ^ 64)" using lo by simp
    ultimately show False using assms by simp
  qed
  then show ?thesis using assms(1) by (simp add: size_t_of_nonneg)
qed

lemma barrier_slot_body_length:
  "barrier_slot_body tls t_re k b g = Returned b' g' \<Longrightarrow> length b' = length b"
  using barrier_slot_body_Returned by fastforce

lemma barrier_input_body_length:
  "barrier_input_body params inputs idx b g = Returned b' g' \<Longrightarrow> length b' = length b"
  using barrier_input_body_Returned barrier_slot_loop by metis

lemma barrier_slot_body_in_bounds:
  assumes "0 \<le> sint (tls ! k)" and "nat (sint (tls ! k)) < length b"
  shows "barrier_slot_body tls t_re k b g \<noteq> Undefined OutOfBounds"
  using assms
  by (cases "index t_re k") (simp_all add: barrier_slot_body_def vector_at_def size_t_of_nonneg)

lemma barrier_input_body_in_bounds:
  assumes idx: "idx < length (inputs_tiles params)"
    and tls: "\<forall>t\<in>set (inputs_tiles params ! idx). 0 \<le> sint t \<and> nat (sint t) < length b"
  shows "barrier_input_body params inputs idx b g \<noteq> Undefined OutOfBounds"
proof
  assume u: "barrier_input_body params inputs idx b g = Undefined OutOfBounds"
  let ?tls = "inputs_tiles params ! idx"
  from u obtain t_re where
    inner: "foreach [0..<length ?tls] (barrier_slot_body ?tls t_re) b g = Undefined OutOfBounds"
    using idx
    by (cases "tileBarrierReinterpretTensor (inputs ! idx)")
      (simp_all add: barrier_input_body_def vector_at_def)
  have "\<exists>k\<in>set [0..<length ?tls]. \<exists>s h. length s = length b
           \<and> barrier_slot_body ?tls t_re k s h = Undefined OutOfBounds"
    by (rule foreach_failure_inv [OF inner, where I = "\<lambda>s. length s = length b"])
      (auto dest: barrier_slot_body_length)
  then obtain k s h where k: "k < length ?tls" and ls: "length s = length b"
    and f: "barrier_slot_body ?tls t_re k s h = Undefined OutOfBounds"
    by auto
  have "0 \<le> sint (?tls ! k)" "nat (sint (?tls ! k)) < length s"
    using tls k ls by simp_all
  from barrier_slot_body_in_bounds [OF this] f show False by blast
qed

lemma barrier_vertex_body_failures:
  "(\<exists>u' g'. barrier_vertex_body params cs buckets t u g = Returned u' g')
   \<or> (\<exists>g'. barrier_vertex_body params cs buckets t u g = Thrown poplar_error g')"
  by (simp add: barrier_vertex_body_def Let_def addVertex_def setVertexTileMapping_def)

lemma barrier_slot_body_failures:
  "(\<exists>b' g'. barrier_slot_body tls t_re k b g = Returned b' g')
   \<or> (\<exists>g'. barrier_slot_body tls t_re k b g = Thrown poplar_error g')
   \<or> barrier_slot_body tls t_re k b g = Undefined OutOfBounds"
  by (auto simp: barrier_slot_body_def vector_at_def index_def split: list.splits)

lemma barrier_input_body_failures:
  "(\<exists>b' g'. barrier_input_body params inputs idx b g = Returned b' g')
   \<or> (\<exists>g'. barrier_input_body params inputs idx b g = Thrown poplar_error g')
   \<or> (\<exists>g'. barrier_input_body params inputs idx b g = Thrown runtime_error g')
   \<or> barrier_input_body params inputs idx b g = Undefined OutOfBounds"
proof (cases "tileBarrierReinterpretTensor (inputs ! idx)")
  case (Inl e)
  then have "e = runtime_error"
    by (auto simp: tileBarrierReinterpretTensor_def split: if_splits)
  then show ?thesis using Inl by (simp add: barrier_input_body_def)
next
  case (Inr t_re)
  show ?thesis
  proof (cases "idx < length (inputs_tiles params)")
    case False
    then show ?thesis using Inr by (simp add: barrier_input_body_def vector_at_def)
  next
    case True
    let ?tls = "inputs_tiles params ! idx"
    let ?r = "foreach [0..<length ?tls] (barrier_slot_body ?tls t_re) b g"
    have eq: "barrier_input_body params inputs idx b g = ?r"
      using Inr True by (simp add: barrier_input_body_def vector_at_def)
    show ?thesis
    proof (cases "\<exists>a h. ?r = Returned a h")
      case True
      then show ?thesis unfolding eq by blast
    next
      case False
      then have "\<forall>a h. ?r \<noteq> Returned a h" by blast
      from foreach_failure [OF refl this] obtain k s h where
        "barrier_slot_body ?tls t_re k s h = ?r" by blast
      then show ?thesis
        unfolding eq using barrier_slot_body_failures [of ?tls t_re k s h] False by metis
    qed
  qed
qed

lemma bind_Undefined:
  "bind m f = Undefined u \<longleftrightarrow> m = Undefined u \<or> (\<exists>a g1. m = Returned a g1 \<and> f a g1 = Undefined u)"
  by (cases m) auto

lemma bind_Thrown:
  "bind m f = Thrown e g' \<longleftrightarrow> m = Thrown e g' \<or> (\<exists>a g1. m = Returned a g1 \<and> f a g1 = Thrown e g')"
  by (cases m) auto

lemma barrier_precondition_nth:
  assumes "barrier_precondition params m" and "idx < m" and "t \<in> set (inputs_tiles params ! idx)"
  shows "idx < length (inputs_tiles params) \<and> 0 \<le> sint t \<and> sint t \<le> sint (max_tile params)"
proof -
  have le: "m \<le> length (inputs_tiles params)"
    and all: "\<forall>tls\<in>set (take m (inputs_tiles params)). \<forall>t\<in>set tls. 0 \<le> sint t \<and> sint t \<le> sint (max_tile params)"
    using assms(1) by (simp_all add: barrier_precondition_def list_all_iff)
  have "inputs_tiles params ! idx \<in> set (take m (inputs_tiles params))"
    using assms(2) le by (auto simp: in_set_conv_nth intro!: exI [of _ idx])
  then show ?thesis using all assms(2,3) le by auto
qed

lemma barrier_input_loop_in_bounds:
  assumes pre: "barrier_precondition params m"
    and len: "length b = nat (sint (max_tile params) + 1)"
  shows "foreach [0..<m] (barrier_input_body params inputs) b g \<noteq> Undefined OutOfBounds"
proof
  assume u: "foreach [0..<m] (barrier_input_body params inputs) b g = Undefined OutOfBounds"
  have "\<exists>idx\<in>set [0..<m]. \<exists>s h. length s = length b
           \<and> barrier_input_body params inputs idx s h = Undefined OutOfBounds"
    by (rule foreach_failure_inv [OF u, where I = "\<lambda>s. length s = length b"])
      (auto dest: barrier_input_body_length)
  then obtain idx s h where idx: "idx < m" and ls: "length s = length b"
    and f: "barrier_input_body params inputs idx s h = Undefined OutOfBounds"
    by auto
  have i: "idx < length (inputs_tiles params)"
    using pre idx by (simp add: barrier_precondition_def)
  have "\<forall>t\<in>set (inputs_tiles params ! idx). 0 \<le> sint t \<and> nat (sint t) < length s"
  proof
    fix t assume "t \<in> set (inputs_tiles params ! idx)"
    from barrier_precondition_nth [OF pre idx this]
    have "0 \<le> sint t" "sint t \<le> sint (max_tile params)" by simp_all
    then have "nat (sint t) < nat (sint (max_tile params) + 1)" by arith
    then show "0 \<le> sint t \<and> nat (sint t) < length s"
      using \<open>0 \<le> sint t\<close> ls len by simp
  qed
  from barrier_input_body_in_bounds [OF i this] f show False by blast
qed

lemma barrier_vertex_loop_failures:
  "(\<exists>u' g'. foreach xs (barrier_vertex_body params cs buckets) u g = Returned u' g')
   \<or> (\<exists>g'. foreach xs (barrier_vertex_body params cs buckets) u g = Thrown poplar_error g')"
proof (cases "\<exists>a h. foreach xs (barrier_vertex_body params cs buckets) u g = Returned a h")
  case True
  then show ?thesis by blast
next
  case False
  then have "\<forall>a h. foreach xs (barrier_vertex_body params cs buckets) u g \<noteq> Returned a h" by blast
  from foreach_failure [OF refl this] obtain t s h where
    "barrier_vertex_body params cs buckets t s h = foreach xs (barrier_vertex_body params cs buckets) u g"
    by blast
  then show ?thesis
    using barrier_vertex_body_failures [of params cs buckets t s h] by metis
qed

lemma barrier_input_loop_failures:
  "(\<exists>b' g'. foreach xs (barrier_input_body params inputs) b g = Returned b' g')
   \<or> (\<exists>g'. foreach xs (barrier_input_body params inputs) b g = Thrown poplar_error g')
   \<or> (\<exists>g'. foreach xs (barrier_input_body params inputs) b g = Thrown runtime_error g')
   \<or> foreach xs (barrier_input_body params inputs) b g = Undefined OutOfBounds"
proof (cases "\<exists>a h. foreach xs (barrier_input_body params inputs) b g = Returned a h")
  case True
  then show ?thesis by blast
next
  case False
  then have "\<forall>a h. foreach xs (barrier_input_body params inputs) b g \<noteq> Returned a h" by blast
  from foreach_failure [OF refl this] obtain idx s h where
    "barrier_input_body params inputs idx s h = foreach xs (barrier_input_body params inputs) b g"
    by blast
  then show ?thesis
    using barrier_input_body_failures [of params inputs idx s h] by metis
qed

lemma TileDataBarrier_no_validation:
  assumes "inputs \<noteq> []"
  shows "TileDataBarrierPrimitive_program g inputs outputs params \<noteq> Thrown poplibs_error g'"
proof
  assume t: "TileDataBarrierPrimitive_program g inputs outputs params = Thrown poplibs_error g'"
  let ?mk = "make_tensors_per_tiles (max_tile params) g"
  have mk: "?mk \<noteq> Thrown poplibs_error g'"
    by (simp add: make_tensors_per_tiles_def)
  with t assms obtain b0 g0 where mk0: "?mk = Returned b0 g0"
    and t1: "bind (foreach [0..<length inputs] (barrier_input_body params inputs) b0 g0)
          (\<lambda>tensors_per_tiles g1.
             let (cs, g2) = addComputeSet g1 in
             bind (foreach [0..<length tensors_per_tiles]
                     (barrier_vertex_body params cs tensors_per_tiles) () g2)
               (\<lambda>_ g3. Returned (Sequence [Execute cs], inputs) g3)) = Thrown poplibs_error g'"
    by (auto simp: TileDataBarrierPrimitive_program_def bind_Thrown)
  from t1 barrier_input_loop_failures [of "[0..<length inputs]" params inputs b0 g0]
  obtain b g1 where
    t2: "bind (foreach [0..<length b] (barrier_vertex_body params (computeSets g1) b) ()
                (g1\<lparr>computeSets := Suc (computeSets g1)\<rparr>))
               (\<lambda>_ g3. Returned (Sequence [Execute (computeSets g1)], inputs) g3)
         = Thrown poplibs_error g'"
    by (auto simp: bind_Thrown addComputeSet_def)
  from t2 barrier_vertex_loop_failures [of "[0..<length b]" params "computeSets g1" b "()"
      "g1\<lparr>computeSets := Suc (computeSets g1)\<rparr>"]
  show False
    by (auto simp: bind_Thrown)
qed

lemma TileDataBarrier_in_bounds:
  assumes pre: "barrier_precondition params (length inputs)"
  shows "TileDataBarrierPrimitive_program g inputs outputs params \<noteq> Undefined OutOfBounds"
proof
  assume u: "TileDataBarrierPrimitive_program g inputs outputs params = Undefined OutOfBounds"
  let ?mk = "make_tensors_per_tiles (max_tile params) g"
  have ne: "inputs \<noteq> []" using u
    by (auto simp: TileDataBarrierPrimitive_program_def split: if_splits)
  have mk: "?mk \<noteq> Undefined OutOfBounds"
    by (simp add: make_tensors_per_tiles_def)
  with u ne obtain b0 g0 where mk0: "?mk = Returned b0 g0"
    and u1: "bind (foreach [0..<length inputs] (barrier_input_body params inputs) b0 g0)
          (\<lambda>tensors_per_tiles g1.
             let (cs, g2) = addComputeSet g1 in
             bind (foreach [0..<length tensors_per_tiles]
                     (barrier_vertex_body params cs tensors_per_tiles) () g2)
               (\<lambda>_ g3. Returned (Sequence [Execute cs], inputs) g3)) = Undefined OutOfBounds"
    by (auto simp: TileDataBarrierPrimitive_program_def bind_Undefined)
  have len0: "length b0 = nat (sint (max_tile params) + 1)"
    using make_tensors_per_tiles_Returned [OF mk0] by simp
  from u1 barrier_input_loop_in_bounds [OF pre len0, of inputs g0]
  obtain b g1 where
    u2: "bind (foreach [0..<length b] (barrier_vertex_body params (computeSets g1) b) ()
                (g1\<lparr>computeSets := Suc (computeSets g1)\<rparr>))
               (\<lambda>_ g3. Returned (Sequence [Execute (computeSets g1)], inputs) g3)
         = Undefined OutOfBounds"
    by (auto simp: bind_Undefined addComputeSet_def)
  from u2 barrier_vertex_loop_failures [of "[0..<length b]" params "computeSets g1" b "()"
      "g1\<lparr>computeSets := Suc (computeSets g1)\<rparr>"]
  show False
    by (auto simp: bind_Undefined)
qed

lemma TileDataBarrier_Returned_precondition:
  assumes ret: "TileDataBarrierPrimitive_program g inputs outputs params = Returned (prog, outs) g'"
  shows "barrier_precondition params (length inputs)"
proof -
  note c = TileDataBarrier_closed [OF ret]
  let ?n = "nat (sint (max_tile params) + 1)"
  have n: "?n \<le> 2 ^ 31" using c by (intro bucket_count_bound) simp
  have mt: "0 \<le> sint (max_tile params) + 1" using c by simp
  have idx: "idx < length (inputs_tiles params)" if "idx < length inputs" for idx
    using c that by blast
  have le: "length inputs \<le> length (inputs_tiles params)"
  proof (rule ccontr)
    assume "\<not> length inputs \<le> length (inputs_tiles params)"
    then have "length (inputs_tiles params) < length inputs" by simp
    from idx [OF this] show False by simp
  qed
  have "0 \<le> sint t \<and> sint t \<le> sint (max_tile params)"
    if "tls \<in> set (take (length inputs) (inputs_tiles params))" and "t \<in> set tls" for tls t
  proof -
    from that(1) obtain i where i: "i < length inputs" "tls = inputs_tiles params ! i"
      using le by (auto simp: in_set_conv_nth)
    from that(2) i obtain k where k: "k < length (inputs_tiles params ! i)"
      "t = inputs_tiles params ! i ! k"
      by (auto simp: in_set_conv_nth)
    have "size_t_of t < ?n" using c i(1) k by blast
    from size_t_of_small [OF this n] mt show ?thesis by linarith
  qed
  then show ?thesis
    using le by (auto simp: barrier_precondition_def list_all_iff)
qed

lemma reinterpret_supported:
  assumes "elementType t \<in> {BOOL, CHAR_T, SIGNED_CHAR, UNSIGNED_CHAR, SHORT,
                            UNSIGNED_SHORT, HALF, INT_T, UNSIGNED_INT, FLOAT}"
  shows "\<exists>r. tileBarrierReinterpretTensor t = Inr r \<and> tshape r = tshape t"
  using assms by (auto simp: tileBarrierReinterpretTensor_def reinterpret_def)

lemma index_in_range:
  "tshape t \<noteq> [] \<Longrightarrow> k < hd (tshape t) \<Longrightarrow> \<exists>s. index t k = Inr s"
  by (cases "tshape t") (simp_all add: index_def)

lemma barrier_slot_body_Thrown:
  "barrier_slot_body tls t_re k b g = Thrown e g' \<Longrightarrow> \<exists>e'. index t_re k = Inl e'"
  by (cases "index t_re k")
    (auto simp: barrier_slot_body_def vector_at_def split: option.splits)

lemma barrier_input_body_Thrown:
  assumes "barrier_input_body params inputs idx b g = Thrown e g'"
  shows "(\<exists>e'. tileBarrierReinterpretTensor (inputs ! idx) = Inl e')
       \<or> (idx < length (inputs_tiles params)
          \<and> (\<exists>k<length (inputs_tiles params ! idx). \<exists>e'.
                index (projr (tileBarrierReinterpretTensor (inputs ! idx))) k = Inl e'))"
proof (cases "tileBarrierReinterpretTensor (inputs ! idx)")
  case (Inl e')
  then show ?thesis by blast
next
  case (Inr t_re)
  let ?tls = "inputs_tiles params ! idx"
  have idx: "idx < length (inputs_tiles params)"
    using assms Inr by (auto simp: barrier_input_body_def vector_at_def split: if_splits)
  then have inner: "foreach [0..<length ?tls] (barrier_slot_body ?tls t_re) b g = Thrown e g'"
    using assms Inr by (simp add: barrier_input_body_def vector_at_def)
  have "\<forall>a h. Thrown e g' \<noteq> (Returned a h :: Tensor list list outcome)" by simp
  from foreach_failure [OF inner this] obtain k s h where
    "k < length ?tls" "barrier_slot_body ?tls t_re k s h = Thrown e g'"
    by auto
  then show ?thesis
    using idx Inr barrier_slot_body_Thrown by fastforce
qed

lemma barrier_input_loop_precondition:
  assumes l1: "foreach [0..<m] (barrier_input_body params inputs) b g = Returned b' g'"
    and len: "length b = nat (sint (max_tile params) + 1)"
    and n: "length b \<le> 2 ^ 31" and mt: "0 \<le> sint (max_tile params) + 1"
  shows "barrier_precondition params m"
proof -
  note c = barrier_input_loop [OF l1]
  have idx: "idx < length (inputs_tiles params)" if "idx < m" for idx
    using c that by blast
  have le: "m \<le> length (inputs_tiles params)"
  proof (rule ccontr)
    assume "\<not> m \<le> length (inputs_tiles params)"
    then have "length (inputs_tiles params) < m" by simp
    from idx [OF this] show False by simp
  qed
  have "0 \<le> sint t \<and> sint t \<le> sint (max_tile params)"
    if "tls \<in> set (take m (inputs_tiles params))" and "t \<in> set tls" for tls t
  proof -
    from that(1) obtain i where i: "i < m" "tls = inputs_tiles params ! i"
      using le by (auto simp: in_set_conv_nth)
    from that(2) i obtain k where k: "k < length (inputs_tiles params ! i)"
      "t = inputs_tiles params ! i ! k"
      by (auto simp: in_set_conv_nth)
    have "size_t_of t < length b" using c i(1) k by blast
    from size_t_of_small [OF this n] mt len show ?thesis by linarith
  qed
  then show ?thesis
    using le by (auto simp: barrier_precondition_def list_all_iff)
qed

lemma TileDataBarrier_out_of_bounds:
  assumes fit: "barrier_inputs_fit params inputs"
    and npre: "\<not> barrier_precondition params (length inputs)"
  shows "TileDataBarrierPrimitive_program g inputs outputs params = Undefined OutOfBounds"
proof -
  let ?n = "nat (sint (max_tile params) + 1)"
  let ?b0 = "replicate ?n ([] :: Tensor list)"
  let ?r1 = "foreach [0..<length inputs] (barrier_input_body params inputs) ?b0 g"
  have ne: "inputs \<noteq> []" and mt: "- 1 \<le> sint (max_tile params)" "sint (max_tile params) < 2 ^ 31 - 1"
    and types: "\<forall>t\<in>set inputs. elementType t \<in> {BOOL, CHAR_T, SIGNED_CHAR, UNSIGNED_CHAR, SHORT,
                                       UNSIGNED_SHORT, HALF, INT_T, UNSIGNED_INT, FLOAT}"
    and shapes: "\<forall>(t, tls)\<in>set (zip inputs (inputs_tiles params)).
                   tshape t \<noteq> [] \<and> length tls \<le> hd (tshape t)"
    using fit by (simp_all add: barrier_inputs_fit_def list_all_iff)
  have mk: "make_tensors_per_tiles (max_tile params) g = Returned ?b0 g"
    using mt by (simp add: make_tensors_per_tiles_def)
  have n: "length ?b0 \<le> 2 ^ 31" using mt by simp
  have notret: "\<forall>a h. ?r1 \<noteq> Returned a h"
  proof (intro allI notI)
    fix a h assume "?r1 = Returned a h"
    from barrier_input_loop_precondition [OF this _ n] mt npre show False by simp
  qed
  have notthrown: "?r1 \<noteq> Thrown e h" for e h
  proof
    assume t: "?r1 = Thrown e h"
    have "\<forall>a h'. Thrown e h \<noteq> (Returned a h' :: Tensor list list outcome)" by simp
    from foreach_failure [OF t this] obtain idx s h' where idx: "idx < length inputs"
      and f: "barrier_input_body params inputs idx s h' = Thrown e h"
      by auto
    have ty: "elementType (inputs ! idx) \<in> {BOOL, CHAR_T, SIGNED_CHAR, UNSIGNED_CHAR, SHORT,
                                       UNSIGNED_SHORT, HALF, INT_T, UNSIGNED_INT, FLOAT}"
      using types idx by simp
    from reinterpret_supported [OF ty] obtain r where
      r: "tileBarrierReinterpretTensor (inputs ! idx) = Inr r" "tshape r = tshape (inputs ! idx)"
      by blast
    from barrier_input_body_Thrown [OF f] r obtain k e' where
      i2: "idx < length (inputs_tiles params)" and k: "k < length (inputs_tiles params ! idx)"
      and bad: "index r k = Inl e'"
      by auto
    have "(inputs ! idx, inputs_tiles params ! idx) \<in> set (zip inputs (inputs_tiles params))"
      using idx i2 by (auto simp: set_zip)
    then have "tshape r \<noteq> []" "length (inputs_tiles params ! idx) \<le> hd (tshape r)"
      using shapes r(2) by auto
    then have "\<exists>s. index r k = Inr s"
      using k by (intro index_in_range) simp_all
    then show False using bad by simp
  qed
  have "?r1 = Undefined OutOfBounds"
    using barrier_input_loop_failures [of "[0..<length inputs]" params inputs ?b0 g]
      notret notthrown by blast
  then show ?thesis
    using ne mk by (simp add: TileDataBarrierPrimitive_program_def)
qed

subsection \<open>Tile-mapped equation\<close>

lemma takeWhile_length_less:
  "\<exists>x\<in>set xs. \<not> P x \<Longrightarrow> length (takeWhile P xs) < length xs"
  by (induction xs) auto

lemma takeWhile_length_all:
  "\<forall>x\<in>set xs. P x \<Longrightarrow> length (takeWhile P xs) = length xs"
  by (induction xs) auto

lemma find_if_distance_found:
  assumes "\<exists>x\<in>set xs. p x"
  shows "find_if_distance p xs < length xs \<and> p (xs ! find_if_distance p xs)
       \<and> (\<forall>j<find_if_distance p xs. \<not> p (xs ! j))"
proof -
  let ?n = "length (takeWhile (\<lambda>x. \<not> p x) xs)"
  have lt: "?n < length xs"
    using assms by (intro takeWhile_length_less) simp
  then have hit: "p (xs ! ?n)"
    using nth_length_takeWhile [of "\<lambda>x. \<not> p x" xs] by simp
  have "\<not> p (xs ! j)" if "j < ?n" for j
  proof -
    have "takeWhile (\<lambda>x. \<not> p x) xs ! j \<in> set (takeWhile (\<lambda>x. \<not> p x) xs)"
      using that by simp
    then have "\<not> p (takeWhile (\<lambda>x. \<not> p x) xs ! j)"
      by (rule set_takeWhileD [THEN conjunct2])
    then show ?thesis using that by (simp add: takeWhile_nth)
  qed
  then show ?thesis using lt hit by (simp add: find_if_distance_def)
qed

lemma find_if_distance_missing:
  "\<not> (\<exists>x\<in>set xs. p x) \<Longrightarrow> find_if_distance p xs = length xs"
  unfolding find_if_distance_def by (rule takeWhile_length_all) simp

lemma allocate_body_InOut:
  assumes "iotype outinfo = InOut" and "length inputs = length (inputs_info eqn)"
  shows "allocate_body toPoplar eqn inputs outinfo outputs g
        = (if name outinfo \<in> set (map name (inputs_info eqn))
           then Returned (outputs @ [inputs ! first_match eqn outinfo]) g
           else Thrown out_of_range g)"
proof (cases "name outinfo \<in> set (map name (inputs_info eqn))")
  case True
  then have "\<exists>x\<in>set (inputs_info eqn). name x = name outinfo" by auto
  from find_if_distance_found [OF this] have "first_match eqn outinfo < length inputs"
    using assms(2) by (simp add: first_match_def)
  then show ?thesis
    using True assms(1) by (simp add: allocate_body_def at_def first_match_def Let_def)
next
  case False
  have "\<not> (\<exists>x\<in>set (inputs_info eqn). name x = name outinfo)"
  proof
    assume "\<exists>x\<in>set (inputs_info eqn). name x = name outinfo"
    then obtain x where "x \<in> set (inputs_info eqn)" "name x = name outinfo" by blast
    then have "name outinfo \<in> name ` set (inputs_info eqn)" by (metis imageI)
    then show False using False by simp
  qed
  from find_if_distance_missing [OF this] have "first_match eqn outinfo = length inputs"
    using assms(2) by (simp add: first_match_def)
  then show ?thesis
    using False assms(1) by (simp add: allocate_body_def at_def first_match_def Let_def)
qed

lemma allocate_loop:
  assumes "foreach xs (allocate_body toPoplar eqn inputs) outs0 g = Returned outs g'"
    and "length inputs = length (inputs_info eqn)"
  shows "\<exists>ts. outs = outs0 @ ts \<and> length ts = length xs
         \<and> (\<forall>k<length xs. iotype (xs ! k) = InOut \<longrightarrow>
               name (xs ! k) \<in> set (map name (inputs_info eqn))
             \<and> ts ! k = inputs ! first_match eqn (xs ! k))"
  using assms(1)
proof (induction xs arbitrary: outs g' rule: rev_induct)
  case Nil
  then show ?case by simp
next
  case (snoc x xs)
  from snoc.prems obtain outs1 g1 where
    pre: "foreach xs (allocate_body toPoplar eqn inputs) outs0 g = Returned outs1 g1"
    and step: "allocate_body toPoplar eqn inputs x outs1 g1 = Returned outs g'"
    by (auto simp: foreach_append bind_Returned)
  from snoc.IH [OF pre] obtain ts where ts: "outs1 = outs0 @ ts" "length ts = length xs"
    and old: "\<forall>k<length xs. iotype (xs ! k) = InOut \<longrightarrow>
               name (xs ! k) \<in> set (map name (inputs_info eqn))
             \<and> ts ! k = inputs ! first_match eqn (xs ! k)"
    by blast
  from step obtain t where t: "outs = outs1 @ [t]"
    by (auto simp: allocate_body_def bind_Returned Let_def split: if_splits)
  have new: "name x \<in> set (map name (inputs_info eqn)) \<and> t = inputs ! first_match eqn x"
    if "iotype x = InOut"
    using step t allocate_body_InOut [OF that assms(2), of toPoplar outs1 g1]
    by (auto split: if_splits)
  have "\<forall>k<length (xs @ [x]). iotype ((xs @ [x]) ! k) = InOut \<longrightarrow>
               name ((xs @ [x]) ! k) \<in> set (map name (inputs_info eqn))
             \<and> (ts @ [t]) ! k = inputs ! first_match eqn ((xs @ [x]) ! k)"
    using old new ts(2) by (auto simp: nth_append less_Suc_eq)
  then show ?case
    using ts t by (intro exI [of _ "ts @ [t]"]) simp
qed

lemma TileMapEquationCall_outputs:
  assumes "TileMapEquationCall_program toPoplar g inputs outs0 eqn = Returned (prog, outs) g'"
  shows "\<exists>g1. allocateOutputTensors toPoplar eqn inputs g = Returned outs g1
             \<and> length inputs = length (inputs_info eqn)"
  using assms
  by (auto simp: TileMapEquationCall_program_def add_equation_allocating_def bind_Returned
      allocateOutputTensors_def split: if_splits)

subsection \<open>Failures\<close>

lemma sat_Returned [simp]: "outcome_sat (Returned a h) P Q \<longleftrightarrow> P a h"
  by (simp add: outcome_sat_def)

lemma sat_Thrown [simp]: "outcome_sat (Thrown e h) P Q \<longleftrightarrow> Q e h"
  by (simp add: outcome_sat_def)

lemma sat_Terminated [simp]: "outcome_sat Terminated P Q"
  by (simp add: outcome_sat_def)

lemma sat_Undefined [simp]: "outcome_sat (Undefined u) P Q"
  by (simp add: outcome_sat_def)





lemma prefix_iff: "length xs \<le> length ys \<and> take (length xs) ys = xs \<longleftrightarrow> (\<exists>zs. ys = xs @ zs)"
proof
  assume "length xs \<le> length ys \<and> take (length xs) ys = xs"
  then have "ys = xs @ drop (length xs) ys"
    by (metis append_take_drop_id)
  then show "\<exists>zs. ys = xs @ zs" ..
qed auto

lemma suffix_iff:
  "length xs \<le> length ys \<and> drop (length ys - length xs) ys = xs
     \<and> list_all P (take (length ys - length xs) ys)
   \<longleftrightarrow> (\<exists>zs. ys = zs @ xs \<and> list_all P zs)"
proof
  assume a: "length xs \<le> length ys \<and> drop (length ys - length xs) ys = xs
     \<and> list_all P (take (length ys - length xs) ys)"
  then have "ys = take (length ys - length xs) ys @ xs"
    by (metis append_take_drop_id)
  with a show "\<exists>zs. ys = zs @ xs \<and> list_all P zs" by blast
qed auto

lemma graph_extends_iff:
  "graph_extends g h \<longleftrightarrow>
     numTiles h = numTiles g
   \<and> (\<exists>vs. variables h = variables g @ vs)
   \<and> computeSets g \<le> computeSets h
   \<and> (\<exists>ws. vertices h = vertices g @ ws)
   \<and> (\<exists>ms. tileMapping h = ms @ tileMapping g
           \<and> list_all (\<lambda>m. length (variables g) \<le> fst (fst m)) ms)"
  unfolding graph_extends_def
  using prefix_iff [of "variables g" "variables h"] prefix_iff [of "vertices g" "vertices h"]
    suffix_iff [of "tileMapping g" "tileMapping h" "\<lambda>m. length (variables g) \<le> fst (fst m)"]
  by blast

lemma graph_extends_refl [simp]: "graph_extends g g"
  by (simp add: graph_extends_def)

text \<open>What \<open>g\<close> had mapped stays mapped as it was.\<close>

lemma graph_extends_tile_of:
  assumes "graph_extends g h" and "fst e < length (variables g)"
  shows "tile_of h e = tile_of g e"
proof -
  obtain ms where ms: "tileMapping h = ms @ tileMapping g"
      "list_all (\<lambda>m. length (variables g) \<le> fst (fst m)) ms"
    using assms(1) unfolding graph_extends_iff by blast
  have "e \<notin> fst ` set ms"
  proof
    assume "e \<in> fst ` set ms"
    then obtain m where "m \<in> set ms" "fst m = e" by auto
    then have "length (variables g) \<le> fst e" using ms(2) by (auto simp: list_all_iff)
    then show False using assms(2) by simp
  qed
  then have "map_of ms e = None" by (simp add: map_of_eq_None_iff)
  then show ?thesis by (simp add: tile_of_def ms(1) map_add_def)
qed







lemma index_elems_subset: "index t i = Inr s \<Longrightarrow> set (elems s) \<subseteq> set (elems t)"
proof -
  assume "index t i = Inr s"
  then obtain m n where "elems s = take m (drop n (elems t))"
    by (auto simp: index_def split: list.splits if_splits)
  then show ?thesis
    by (metis set_take_subset set_drop_subset subset_trans)
qed


lemma allocating_refl [simp]: "allocating g g"
  by (simp add: allocating_def)








text \<open>How many variables the allocation of the outputs adds.\<close>

lemma variables_setTileMapping:
  "outcome_sat (setTileMapping t tile h) (\<lambda>_ h'. variables h' = variables h) (\<lambda>_ _. True)"
  by (simp add: setTileMapping_def)






























subsection \<open>Sharded placement\<close>

lemma index_var_tensor:
  assumes "i < n"
  shows "index (var_tensor v ty (n # sh)) i = Inr (sharded_part v ty sh i)"
proof -
  let ?m = "prod_list sh"
  have "i * ?m + ?m \<le> n * ?m"
    using assms mult_le_mono1 [of "Suc i" n ?m] by simp
  then have "take ?m (drop (i * ?m) [0..<n * ?m]) = [i * ?m..<i * ?m + ?m]"
    by (simp add: take_upt)
  moreover have "map (\<lambda>off. (v, off)) [i * ?m..<i * ?m + ?m]
      = map (\<lambda>off. (v, i * ?m + off)) [0..<?m]"
  proof -
    have "[i * ?m..<i * ?m + ?m] = map (\<lambda>off. i * ?m + off) [0..<?m]"
      using map_add_upt [of "i * ?m" ?m] by (simp add: add.commute)
    then show ?thesis by (simp add: comp_def)
  qed
  ultimately show ?thesis
    using assms by (simp add: index_def var_tensor_def sharded_part_def take_map drop_map)
qed

lemma sharded_loop_closed:
  assumes "list_all (\<lambda>t. unat t < numTiles g) tile_array" and "k \<le> length tile_array"
  shows "foreach [0..<k]
           (\<lambda>i _ g'. bind (lift (index (var_tensor (length (variables g)) ty
                                         (length tile_array # sh)) i) g')
                        (\<lambda>part g''. setTileMapping part (tile_array ! i) g''))
           () (sharded_graph g ty sh tile_array 0)
         = Returned () (sharded_graph g ty sh tile_array k)"
  using assms(2)
proof (induction k)
  case 0
  then show ?case by simp
next
  case (Suc k)
  have k: "k < length tile_array" using Suc.prems by simp
  then have "unat (tile_array ! k) < numTiles g"
    using assms(1) by (simp add: list_all_length)
  then show ?case
    using Suc k
    by (simp add: foreach_append index_var_tensor setTileMapping_def sharded_graph_def)
qed

lemma createShardedVariable_closed:
  assumes "list_all (\<lambda>t. unat t < numTiles g) tile_array"
  shows "createShardedVariable ty sh tile_array g
         = Returned (var_tensor (length (variables g)) ty (length tile_array # sh))
             (sharded_graph g ty sh tile_array (length tile_array))"
proof -
  have "snd (addVariable ty (length tile_array # sh) g) = sharded_graph g ty sh tile_array 0"
    by (simp add: addVariable_def sharded_graph_def)
  then show ?thesis
    using sharded_loop_closed [OF assms order_refl, of ty sh]
    by (simp add: createShardedVariable_def split_beta addVariable_fst)
qed

lemma sharded_part_disjoint:
  assumes "i \<noteq> j" and "e \<in> set (elems (sharded_part v ty sh i))"
  shows "e \<notin> set (elems (sharded_part v ty sh j))"
proof
  let ?m = "prod_list sh"
  assume "e \<in> set (elems (sharded_part v ty sh j))"
  then obtain a b where a: "a < ?m" "snd e = i * ?m + a" and b: "b < ?m" "snd e = j * ?m + b"
    using assms(2) by (auto simp: sharded_part_def)
  show False
  proof (cases "i < j")
    case True
    then have "i * ?m + ?m \<le> j * ?m"
      using mult_le_mono1 [of "Suc i" j ?m] by simp
    then show False using a b by simp
  next
    case False
    then have "j < i" using assms(1) by simp
    then have "j * ?m + ?m \<le> i * ?m"
      using mult_le_mono1 [of "Suc j" i ?m] by simp
    then show False using a b by simp
  qed
qed

lemma sharded_graph_tile_of:
  assumes "i < k" and "e \<in> set (elems (sharded_part (length (variables g)) ty sh i))"
  shows "tile_of (sharded_graph g ty sh tile_array k) e = Some (unat (tile_array ! i))"
proof -
  have "i \<in> set (rev [0..<k])" using assms(1) by simp
  moreover have "\<forall>j\<in>set (rev [0..<k]). j \<noteq> i \<longrightarrow>
      e \<notin> set (elems (sharded_part (length (variables g)) ty sh j))"
  proof (intro ballI impI)
    fix j assume "j \<noteq> i"
    then have "i \<noteq> j" by simp
    then show "e \<notin> set (elems (sharded_part (length (variables g)) ty sh j))"
      using assms(2) by (rule sharded_part_disjoint)
  qed
  ultimately show ?thesis
    unfolding tile_of_def sharded_graph_def
    using map_of_concat_unique [of i "rev [0..<k]" e
        "\<lambda>j. elems (sharded_part (length (variables g)) ty sh j)"
        "\<lambda>j. unat (tile_array ! j)" "tileMapping g"] assms(2)
    by simp
qed

lemma TilePutSharded_closed:
  assumes tin: "tshape input = length tile_array # sh"
    and ne: "tile_array \<noteq> []"
    and tls: "list_all (\<lambda>t. unat t < numTiles g) tile_array"
  shows "TilePutShardedPrimitive_program g [input] outputs tile_array
         = Returned (Copy input (var_tensor (length (variables g)) (elementType input)
                                   (length tile_array # sh)),
                     outputs @ [var_tensor (length (variables g)) (elementType input)
                                   (length tile_array # sh)])
             (sharded_graph g (elementType input) sh tile_array (length tile_array))"
proof -
  have "index input 0 = Inr (input\<lparr>tshape := sh,
                                   elems := take (prod_list sh) (elems input)\<rparr>)"
    using tin ne by (simp add: index_def)
  then show ?thesis
    using tin
    by (simp add: TilePutShardedPrimitive_program_def vector_at_def
          createShardedVariable_closed [OF tls] make_Copy_def)
qed

lemma tensor_value_slice:
  assumes "elems dst = take m (drop n (elems out))"
    and "elems src = take m (drop n (elems input))"
    and "tensor_value s' out = tensor_value s input"
  shows "tensor_value s' dst = tensor_value s src"
proof -
  have "tensor_value s' dst = take m (drop n (tensor_value s' out))"
    by (simp add: tensor_value_def assms(1) take_map drop_map)
  also have "\<dots> = take m (drop n (tensor_value s input))"
    by (simp only: assms(3))
  also have "\<dots> = tensor_value s src"
    by (simp add: tensor_value_def assms(2) take_map drop_map)
  finally show ?thesis .
qed

section \<open>Cross-tile gather: copy elision and values\<close>

text \<open>
  C1. Whenever the gather returns, for every destination slot \<open>i\<close>: the index
  \<open>indices[i]\<close> was inside both the input and \<open>previous_tiles\<close>; if
  \<open>previous_tiles[indices[i]] = tiles[i]\<close> the output slot \<open>i\<close> is the very slice
  \<open>input[indices[i]]\<close> (the same storage elements); otherwise it is the tensor of a
  variable that did not exist before, of the item type and shape, with every element
  mapped to tile \<open>tiles[i]\<close>. The program is exactly one copy, from the source slice to the
  output slot, for every slot that changes tile, in slot order, and the graph gained exactly
  one variable for each of them: a slot that keeps its tile costs neither a variable nor a
  copy.
\<close>

theorem gather_copy_elision:
  assumes ret: "TileGatherPrimitive_program g inputs outputs params = Returned (prog, outs) g'"
    and wf: "list_all wf_tensor inputs"
    and i: "i < length (tiles params)"
  shows "\<exists>input out src.
       inputs = [input] \<and> outs = outputs @ [out]
     \<and> i < length (indices params)
     \<and> size_t_of (indices params ! i) < length (previous_tiles params)
     \<and> index input (size_t_of (indices params ! i)) = Inr src
     \<and> (if previous_tiles params ! size_t_of (indices params ! i) = tiles params ! i
        then index out i = Inr src
        else \<exists>v. v = length (variables g) + length (filter (needs_copy params) [0..<i])
               \<and> index out i = Inr (var_tensor v (elementType input) (tl (tshape input)))
               \<and> variables g' ! v = (elementType input, tl (tshape input))
               \<and> (\<forall>e\<in>set (elems (var_tensor v (elementType input) (tl (tshape input)))).
                     tile_of g' e = Some (unat (tiles params ! i))))
     \<and> prog = Sequence (map (\<lambda>j. Copy (projr (index input (size_t_of (indices params ! j))))
                                     (projr (index out j)))
                          (filter (needs_copy params) [0..<length (tiles params)]))
     \<and> variables g' = variables g @
           replicate (length (filter (needs_copy params) [0..<length (tiles params)]))
             (elementType input, tl (tshape input))"
proof -
  from TileGather_closed [OF ret wf] obtain input out where
    inputs: "inputs = [input]" and outs: "outs = outputs @ [out]"
    and prog: "prog = Sequence (map (\<lambda>j. Copy (gather_src params input j)
                                  (gather_dst params g (elementType input) (tl (tshape input)) j))
                          (filter (needs_copy params) [0..<length (tiles params)]))"
    and g': "g' = gather_graph params g (elementType input) (tl (tshape input)) (length (tiles params))"
    and each: "\<forall>j<length (tiles params).
           index out j = Inr (gather_slot params g input (elementType input) (tl (tshape input)) j)
         \<and> index input (size_t_of (indices params ! j)) = Inr (gather_src params input j)
         \<and> j < length (indices params)
         \<and> size_t_of (indices params ! j) < length (previous_tiles params)
         \<and> (needs_copy params j \<longrightarrow> unat (tiles params ! j) < numTiles g)"
    by blast
  let ?ty = "elementType input" and ?sh = "tl (tshape input)" and ?n = "length (tiles params)"
  have rng: "i < length (indices params)"
      "size_t_of (indices params ! i) < length (previous_tiles params)"
    using each i by simp_all
  have src: "index input (size_t_of (indices params ! i)) = Inr (gather_src params input i)"
    and outi: "index out i = Inr (gather_slot params g input ?ty ?sh i)"
    using each i by simp_all
  have slot: "if previous_tiles params ! size_t_of (indices params ! i) = tiles params ! i
        then index out i = Inr (gather_src params input i)
        else \<exists>v. v = length (variables g) + length (filter (needs_copy params) [0..<i])
               \<and> index out i = Inr (var_tensor v ?ty ?sh)
               \<and> variables g' ! v = (?ty, ?sh)
               \<and> (\<forall>e\<in>set (elems (var_tensor v ?ty ?sh)).
                     tile_of g' e = Some (unat (tiles params ! i)))"
  proof (cases "needs_copy params i")
    case False
    then show ?thesis using outi by (simp add: needs_copy_def gather_slot_def)
  next
    case True
    have "index out i = Inr (gather_dst params g ?ty ?sh i)"
      using outi True by (simp add: gather_slot_def)
    moreover have "variables g' ! (length (variables g) + length (filter (needs_copy params) [0..<i])) = (?ty, ?sh)"
      unfolding g' using i True by (rule gather_graph_variables)
    moreover have "\<forall>e\<in>set (elems (gather_dst params g ?ty ?sh i)).
                     tile_of g' e = Some (unat (tiles params ! i))"
      unfolding g' using i True by (auto intro: gather_graph_tile_of)
    ultimately show ?thesis using True by (simp add: needs_copy_def gather_dst_def)
  qed
  have copies: "map (\<lambda>j. Copy (gather_src params input j) (gather_dst params g ?ty ?sh j))
                          (filter (needs_copy params) [0..<?n])
        = map (\<lambda>j. Copy (projr (index input (size_t_of (indices params ! j)))) (projr (index out j)))
                          (filter (needs_copy params) [0..<?n])"
    using each by (intro map_cong) (auto simp: gather_slot_def)
  have vars: "variables g' = variables g @
           replicate (length (filter (needs_copy params) [0..<?n])) (?ty, ?sh)"
    by (simp add: g' gather_graph_def)
  show ?thesis
    using inputs outs rng src slot prog copies vars by simp
qed

theorem gather_copy_elision_witness:
  "TileGatherPrimitive_program example_graph [example_input] [] example_gather
     = Returned (example_gather_prog, [example_gather_output]) example_gather_graph
   \<and> list_all wf_tensor [example_input]
   \<and> (1 :: nat) < length (tiles example_gather)
   \<and> (\<exists>input out src.
       [example_input] = [input] \<and> [example_gather_output] = [] @ [out]
     \<and> 1 < length (indices example_gather)
     \<and> size_t_of (indices example_gather ! 1) < length (previous_tiles example_gather)
     \<and> index input (size_t_of (indices example_gather ! 1)) = Inr src
     \<and> (if previous_tiles example_gather ! size_t_of (indices example_gather ! 1)
             = tiles example_gather ! 1
        then index out 1 = Inr src
        else \<exists>v. v = length (variables example_graph)
                      + length (filter (needs_copy example_gather) [0..<1])
               \<and> index out 1 = Inr (var_tensor v (elementType input) (tl (tshape input)))
               \<and> variables example_gather_graph ! v = (elementType input, tl (tshape input))
               \<and> (\<forall>e\<in>set (elems (var_tensor v (elementType input) (tl (tshape input)))).
                     tile_of example_gather_graph e = Some (unat (tiles example_gather ! 1))))
     \<and> example_gather_prog
         = Sequence (map (\<lambda>j. Copy (projr (index input (size_t_of (indices example_gather ! j))))
                                     (projr (index out j)))
                          (filter (needs_copy example_gather) [0..<length (tiles example_gather)]))
     \<and> variables example_gather_graph = variables example_graph @
           replicate (length (filter (needs_copy example_gather)
                        [0..<length (tiles example_gather)]))
             (elementType input, tl (tshape input)))"
proof -
  have h1: "TileGatherPrimitive_program example_graph [example_input] [] example_gather
     = Returned (example_gather_prog, [example_gather_output]) example_gather_graph"
    by code_simp
  have h2: "list_all wf_tensor [example_input]"
    by code_simp
  have h3: "(1 :: nat) < length (tiles example_gather)"
    by code_simp
  show ?thesis
    by (intro conjI h1 h2 h3 gather_copy_elision [OF h1 h2 h3])
qed


text \<open>
  C3. For an input partitioned as \<open>previous_tiles\<close> says (one leading slice per entry), a
  descriptor with as many indices as destination tiles, every index inside
  \<open>previous_tiles\<close>, and destination tiles the target has: the gather returns, and after
  the returned program has run, output slot \<open>i\<close> holds the value \<open>input[indices[i]]\<close> had
  before, whether the slot was copied or not; the output has one leading slice per
  destination tile, and its value is the concatenation, in slot order, of the values of the
  source slices. The input is a well-formed tensor of the graph.
\<close>

theorem gather_value_correct:
  assumes wf: "wf_tensor input"
    and ing0: "list_all (\<lambda>e. fst e < length (variables g)) (elems input)"
    and tin: "tshape input = length (previous_tiles params) # sh"
    and len: "length (indices params) = length (tiles params)"
    and idx0: "list_all (\<lambda>x. 0 \<le> sint x \<and> nat (sint x) < length (previous_tiles params))
                 (indices params)"
    and tls0: "list_all (\<lambda>t. unat t < numTiles g) (tiles params)"
    and i: "i < length (tiles params)"
  shows "\<exists>prog out g' src dst.
       TileGatherPrimitive_program g [input] outputs params = Returned (prog, outputs @ [out]) g'
     \<and> index input (size_t_of (indices params ! i)) = Inr src
     \<and> index out i = Inr dst
     \<and> tensor_value (run E prog s) dst = tensor_value s src
     \<and> tshape out = length (tiles params) # sh
     \<and> elementType out = elementType input
     \<and> tensor_value (run E prog s) out
         = concat (map (\<lambda>j. tensor_value s (projr (index input (size_t_of (indices params ! j)))))
                    [0..<length (tiles params)])"
proof -
  let ?n = "length (tiles params)"
  let ?ty = "elementType input" and ?sh = "tl (tshape input)"
  have ing: "\<forall>e\<in>set (elems input). fst e < length (variables g)"
    using ing0 by (simp add: list_all_iff)
  have idx: "\<forall>x\<in>set (indices params). 0 \<le> sint x \<and> nat (sint x) < length (previous_tiles params)"
    using idx0 by (simp add: list_all_iff)
  have tls: "\<forall>t\<in>set (tiles params). unat t < numTiles g"
    using tls0 by (simp add: list_all_iff)
  have ne: "tiles params \<noteq> []" using i by auto
  have idx': "\<forall>j<?n. 0 \<le> sint (indices params ! j)
                \<and> nat (sint (indices params ! j)) < length (previous_tiles params)
                \<and> nat (sint (indices params ! j)) < length (previous_tiles params)"
    using idx len by simp
  have tls': "\<forall>j<?n. unat (tiles params ! j) < numTiles g"
    using tls by simp
  from TileGather_returns [OF wf tin ne _ idx' tls', of outputs] len obtain prog out g' where
    ret: "TileGatherPrimitive_program g [input] outputs params = Returned (prog, outputs @ [out]) g'"
    by auto
  have wfl: "list_all wf_tensor [input]" using wf by simp
  from TileGather_closed [OF ret wfl] have
    prog: "prog = Sequence (map (\<lambda>j. Copy (gather_src params input j)
                                  (gather_dst params g ?ty ?sh j))
                          (filter (needs_copy params) [0..<?n]))"
    and o1: "tshape out = ?n # ?sh" and o2: "elementType out = ?ty"
    and o3: "elems out = concat (map (\<lambda>j. elems (gather_slot params g input ?ty ?sh j)) [0..<?n])"
    and each: "\<forall>j<?n. index out j = Inr (gather_slot params g input ?ty ?sh j)
         \<and> index input (size_t_of (indices params ! j)) = Inr (gather_src params input j)"
    by auto
  have each': "\<forall>j<?n. index input (size_t_of (indices params ! j)) = Inr (gather_src params input j)"
    using each by simp
  have val: "tensor_value (run E prog s) (gather_slot params g input ?ty ?sh j)
              = tensor_value s (gather_src params input j)" if "j < ?n" for j
    unfolding prog using wf ing each' that by (rule gather_run_values)
  have whole: "tensor_value (run E prog s) out
       = concat (map (\<lambda>j. tensor_value (run E prog s) (gather_slot params g input ?ty ?sh j)) [0..<?n])"
    unfolding tensor_value_def o3 by (simp add: map_concat comp_def)
  also have "\<dots> = concat (map (\<lambda>j. tensor_value s (gather_src params input j)) [0..<?n])"
    using val by (intro arg_cong [where f = concat] map_cong) auto
  also have "\<dots> = concat (map (\<lambda>j. tensor_value s (projr (index input (size_t_of (indices params ! j)))))
                    [0..<?n])"
    using each' by (intro arg_cong [where f = concat] map_cong) auto
  finally have whole': "tensor_value (run E prog s) out
       = concat (map (\<lambda>j. tensor_value s (projr (index input (size_t_of (indices params ! j)))))
                    [0..<?n])" .
  have sh: "?sh = sh" using tin by simp
  show ?thesis
    using ret each i val [OF i] o1 o2 whole' sh by auto
qed

theorem gather_value_correct_witness:
  "wf_tensor example_input
   \<and> list_all (\<lambda>e. fst e < length (variables example_graph)) (elems example_input)
   \<and> tshape example_input = length (previous_tiles example_gather) # [2]
   \<and> length (indices example_gather) = length (tiles example_gather)
   \<and> list_all (\<lambda>x. 0 \<le> sint x \<and> nat (sint x) < length (previous_tiles example_gather))
        (indices example_gather)
   \<and> list_all (\<lambda>t. unat t < numTiles example_graph) (tiles example_gather)
   \<and> (1 :: nat) < length (tiles example_gather)
   \<and> (\<exists>prog out g' src dst.
       TileGatherPrimitive_program example_graph [example_input] [] example_gather
         = Returned (prog, [] @ [out]) g'
     \<and> index example_input (size_t_of (indices example_gather ! 1)) = Inr src
     \<and> index out 1 = Inr dst
     \<and> tensor_value (run (\<lambda>cs st. st) prog (\<lambda>e. 10 * fst e + snd e)) dst
         = tensor_value (\<lambda>e. 10 * fst e + snd e) src
     \<and> tshape out = length (tiles example_gather) # [2]
     \<and> elementType out = elementType example_input
     \<and> tensor_value (run (\<lambda>cs st. st) prog (\<lambda>e. 10 * fst e + snd e)) out
         = concat (map (\<lambda>j. tensor_value (\<lambda>e. 10 * fst e + snd e)
                               (projr (index example_input (size_t_of (indices example_gather ! j)))))
                    [0..<length (tiles example_gather)]))"
proof -
  have h1: "wf_tensor example_input"
    by code_simp
  have h2: "list_all (\<lambda>e. fst e < length (variables example_graph)) (elems example_input)"
    by code_simp
  have h3: "tshape example_input = length (previous_tiles example_gather) # [2]"
    by code_simp
  have h4: "length (indices example_gather) = length (tiles example_gather)"
    by code_simp
  have h5: "list_all (\<lambda>x. 0 \<le> sint x \<and> nat (sint x) < length (previous_tiles example_gather))
        (indices example_gather)"
    by (simp add: example_gather_def)
  have h6: "list_all (\<lambda>t. unat t < numTiles example_graph) (tiles example_gather)"
    by (simp add: example_gather_def example_graph_def)
  have h7: "(1 :: nat) < length (tiles example_gather)"
    by code_simp
  show ?thesis
    by (intro conjI h1 h2 h3 h4 h5 h6 h7 gather_value_correct [OF h1 h2 h3 h4 h5 h6 h7])
qed

section \<open>Cross-tile gather: the index count is not validated\<close>

text \<open>
  C8 (as amended). The gather never compares the number of indices with the number of
  destination tiles. With at least as many indices as tiles, the indices past the last
  destination slot are never read: the invocation behaves exactly as on the descriptor
  truncated to that many indices. With fewer indices than tiles and a single input, the
  loop reads the index vector past its end, which is undefined behaviour, unless Poplar
  threw at an earlier slot; no validation error of the primitive is raised.
\<close>

theorem gather_index_count_unchecked:
  "(length (tiles params) \<le> length (indices params) \<longrightarrow>
      TileGatherPrimitive_program g inputs outputs params
        = TileGatherPrimitive_program g inputs outputs
            (params\<lparr>indices := take (length (tiles params)) (indices params)\<rparr>))
   \<and> (length inputs = 1 \<longrightarrow> length (indices params) < length (tiles params) \<longrightarrow>
        TileGatherPrimitive_program g inputs outputs params = Undefined OutOfBounds
      \<or> (\<exists>g'. TileGatherPrimitive_program g inputs outputs params = Thrown poplar_error g'))"
proof (intro conjI impI)
  assume le: "length (tiles params) \<le> length (indices params)"
  let ?p = "params\<lparr>indices := take (length (tiles params)) (indices params)\<rparr>"
  have "foreach [0..<length (tiles params)] (gather_body ?p input ty sh) st h
      = foreach [0..<length (tiles params)] (gather_body params input ty sh) st h" for input ty sh st h
    using le by (intro foreach_cong_body gather_body_truncate) simp_all
  then show "TileGatherPrimitive_program g inputs outputs params
        = TileGatherPrimitive_program g inputs outputs ?p"
    by (simp add: TileGatherPrimitive_program_def)
next
  assume one: "length inputs = 1" and short: "length (indices params) < length (tiles params)"
  let ?input = "inputs ! 0"
  show "TileGatherPrimitive_program g inputs outputs params = Undefined OutOfBounds
      \<or> (\<exists>g'. TileGatherPrimitive_program g inputs outputs params = Thrown poplar_error g')"
  proof (cases "index ?input 0")
    case (Inl e)
    then have "e = poplar_error"
      by (auto simp: index_def split: list.splits if_splits)
    then show ?thesis using one Inl by (simp add: TileGatherPrimitive_program_def)
  next
    case (Inr input0)
    let ?body = "gather_body params ?input (elementType ?input) (tshape input0)"
    let ?r = "foreach [0..<length (tiles params)] ?body ([], []) g"
    have mem: "length (indices params) \<in> set [0..<length (tiles params)]"
      using short by simp
    have notret: "\<forall>a h. ?r \<noteq> Returned a h"
    proof (intro allI notI)
      fix a h assume "?r = Returned a h"
      from foreach_Returned_each [OF this mem] show False
        by (simp add: gather_body_past_indices)
    qed
    from foreach_failure [OF refl notret] obtain x s h where r: "?body x s h = ?r"
      by blast
    from gather_body_failures [of params ?input "elementType ?input" "tshape input0" x s h]
    have "?r = Undefined OutOfBounds \<or> (\<exists>g'. ?r = Thrown poplar_error g')"
      using notret unfolding r by blast
    then show ?thesis
      using one Inr by (auto simp: TileGatherPrimitive_program_def Let_def)
  qed
qed

text \<open>
  The claim as stated fails: four indices for three destination tiles are accepted, and the
  result is that of the three-index example.
\<close>

theorem gather_index_count_counterexample:
  "length (indices example_gather_surplus) \<noteq> length (tiles example_gather_surplus)
   \<and> TileGatherPrimitive_program example_graph [example_input] [] example_gather_surplus
       = Returned (example_gather_prog, [example_gather_output]) example_gather_graph"
  by code_simp

theorem gather_index_count_unchecked_witness:
  "length (tiles example_gather_surplus) \<le> length (indices example_gather_surplus)
   \<and> TileGatherPrimitive_program example_graph [example_input] [] example_gather_surplus
       = TileGatherPrimitive_program example_graph [example_input] []
           (example_gather_surplus\<lparr>indices :=
              take (length (tiles example_gather_surplus)) (indices example_gather_surplus)\<rparr>)
   \<and> length [example_input] = 1
   \<and> length (indices example_gather_short) < length (tiles example_gather_short)
   \<and> (TileGatherPrimitive_program example_graph [example_input] [] example_gather_short
         = Undefined OutOfBounds
      \<or> (\<exists>g'. TileGatherPrimitive_program example_graph [example_input] [] example_gather_short
                = Thrown poplar_error g'))"
proof -
  have h1: "length (tiles example_gather_surplus) \<le> length (indices example_gather_surplus)"
    by code_simp
  have h2: "length [example_input] = 1"
    by simp
  have h3: "length (indices example_gather_short) < length (tiles example_gather_short)"
    by code_simp
  note surplus = gather_index_count_unchecked
    [where params = example_gather_surplus and g = example_graph
       and inputs = "[example_input]" and outputs = "[]", THEN conjunct1, rule_format, OF h1]
  note short = gather_index_count_unchecked
    [where params = example_gather_short and g = example_graph
       and inputs = "[example_input]" and outputs = "[]", THEN conjunct2, rule_format, OF h2 h3]
  show ?thesis
    by (intro conjI h1 h2 h3 surplus short)
qed

section \<open>Tile data barrier: identity and bucketing\<close>

text \<open>
  C2. Whenever the barrier returns, the output list is the input list itself: the same
  tensors, with the same element types, shapes and storage elements, so reading an output
  gives what reading the input gives. There was at least one input and every input had a
  type of the 8-, 16- or 32-bit families. The program is the execution of one compute set
  and contains no copy; no variable was added to the graph and no tile mapping changed.
\<close>

theorem barrier_identity:
  assumes "TileDataBarrierPrimitive_program g inputs outputs params = Returned (prog, outs) g'"
  shows "outs = inputs
       \<and> map (tensor_value s) outs = map (tensor_value s) inputs
       \<and> inputs \<noteq> []
       \<and> list_all (\<lambda>t. elementType t \<in> {BOOL, CHAR_T, SIGNED_CHAR, UNSIGNED_CHAR, SHORT,
                                           UNSIGNED_SHORT, HALF, INT_T, UNSIGNED_INT, FLOAT}) inputs
       \<and> prog = Sequence [Execute (computeSets g)]
       \<and> variables g' = variables g
       \<and> tileMapping g' = tileMapping g"
proof -
  note c = TileDataBarrier_closed [OF assms]
  have "elementType t \<in> {BOOL, CHAR_T, SIGNED_CHAR, UNSIGNED_CHAR, SHORT,
                          UNSIGNED_SHORT, HALF, INT_T, UNSIGNED_INT, FLOAT}" if "t \<in> set inputs" for t
  proof -
    from that obtain idx where "idx < length inputs" "t = inputs ! idx"
      by (auto simp: in_set_conv_nth)
    then obtain r where "tileBarrierReinterpretTensor t = Inr r" using c by blast
    then show ?thesis by (rule supported_type)
  qed
  then have "list_all (\<lambda>t. elementType t \<in> {BOOL, CHAR_T, SIGNED_CHAR, UNSIGNED_CHAR, SHORT,
                                           UNSIGNED_SHORT, HALF, INT_T, UNSIGNED_INT, FLOAT}) inputs"
    unfolding list_all_iff by blast
  moreover have "variables g' = variables g" "tileMapping g' = tileMapping g"
    using c by simp_all
  ultimately show ?thesis using c by simp
qed

theorem barrier_identity_witness:
  "TileDataBarrierPrimitive_program barrier_example_graph barrier_example_inputs [] barrier_example
     = Returned (Sequence [Execute 5], barrier_example_inputs) barrier_example_result
   \<and> barrier_example_inputs = barrier_example_inputs
   \<and> map (tensor_value (\<lambda>e. 10 * fst e + snd e)) barrier_example_inputs
       = map (tensor_value (\<lambda>e. 10 * fst e + snd e)) barrier_example_inputs
   \<and> barrier_example_inputs \<noteq> []
   \<and> list_all (\<lambda>t. elementType t \<in> {BOOL, CHAR_T, SIGNED_CHAR, UNSIGNED_CHAR, SHORT,
                                       UNSIGNED_SHORT, HALF, INT_T, UNSIGNED_INT, FLOAT})
        barrier_example_inputs
   \<and> Sequence [Execute 5] = Sequence [Execute (computeSets barrier_example_graph)]
   \<and> variables barrier_example_result = variables barrier_example_graph
   \<and> tileMapping barrier_example_result = tileMapping barrier_example_graph"
proof -
  have h: "TileDataBarrierPrimitive_program barrier_example_graph barrier_example_inputs []
             barrier_example
     = Returned (Sequence [Execute 5], barrier_example_inputs) barrier_example_result"
    by code_simp
  show ?thesis
    by (rule conjI [OF h barrier_identity [OF h]])
qed

text \<open>
  C6. Whenever the barrier returns: there are \<open>max_tile + 1\<close> buckets, numbered from 0;
  every slot \<open>k\<close> of every input \<open>idx\<close> has its tile \<open>inputs_tiles[idx][k]\<close> among
  them, and the bucket of tile \<open>t\<close> holds, in loop order, exactly the slices
  \<open>in_reinterpret[k]\<close> of the slots whose tile is \<open>t\<close> (this is \<open>barrier_bucket\<close>), so
  the buckets together hold as many slices as there are slots. The graph gained one compute
  set and, for every tile with a non-empty bucket and for no other, one vertex of that
  compute set, mapped to the tile, with the whole bucket connected to its field
  \<open>data\<close>. The program executes that compute set once.
\<close>

theorem barrier_tile_bucketing:
  assumes "TileDataBarrierPrimitive_program g inputs outputs params = Returned (prog, outs) g'"
  shows "0 \<le> sint (max_tile params) + 1
       \<and> list_all (\<lambda>idx. idx < length (inputs_tiles params)
                    \<and> list_all (\<lambda>t. size_t_of t < nat (sint (max_tile params) + 1))
                          (inputs_tiles params ! idx))
            [0..<length inputs]
       \<and> sum_list (map (\<lambda>t. length (barrier_bucket params inputs t))
                     [0..<nat (sint (max_tile params) + 1)])
           = sum_list (map (\<lambda>idx. length (inputs_tiles params ! idx)) [0..<length inputs])
       \<and> vertices g' = vertices g @
             map (\<lambda>t. \<lparr>vertex_cs = computeSets g, vertex_name = vname params,
                        vertex_tile = Some t, vertex_perf = Some 14,
                        vertex_edges = [(''data'', EdgeVector (barrier_bucket params inputs t))],
                        vertex_init = []\<rparr>)
               (filter (\<lambda>t. barrier_bucket params inputs t \<noteq> [])
                  [0..<nat (sint (max_tile params) + 1)])
       \<and> computeSets g' = Suc (computeSets g)
       \<and> prog = Sequence [Execute (computeSets g)]"
proof -
  note c = TileDataBarrier_closed [OF assms]
  have rng: "\<forall>idx<length inputs. idx < length (inputs_tiles params)
              \<and> (\<forall>k<length (inputs_tiles params ! idx).
                    size_t_of (inputs_tiles params ! idx ! k) < nat (sint (max_tile params) + 1))"
    using c by blast
  have rng': "list_all (\<lambda>idx. idx < length (inputs_tiles params)
                    \<and> list_all (\<lambda>t. size_t_of t < nat (sint (max_tile params) + 1))
                          (inputs_tiles params ! idx))
            [0..<length inputs]"
    unfolding list_all_iff using rng by (auto simp: in_set_conv_nth)
  from rng have total: "sum_list (map (\<lambda>t. length (barrier_bucket params inputs t))
                     [0..<nat (sint (max_tile params) + 1)])
           = sum_list (map (\<lambda>idx. length (inputs_tiles params ! idx)) [0..<length inputs])"
    by (intro barrier_bucket_total) blast
  have "barrier_vertex params inputs (computeSets g)
      = (\<lambda>t. \<lparr>vertex_cs = computeSets g, vertex_name = vname params,
                        vertex_tile = Some t, vertex_perf = Some 14,
                        vertex_edges = [(''data'', EdgeVector (barrier_bucket params inputs t))],
                        vertex_init = []\<rparr>)"
    by (intro ext) (simp add: barrier_vertex_def)
  then have verts: "vertices g' = vertices g @
             map (\<lambda>t. \<lparr>vertex_cs = computeSets g, vertex_name = vname params,
                        vertex_tile = Some t, vertex_perf = Some 14,
                        vertex_edges = [(''data'', EdgeVector (barrier_bucket params inputs t))],
                        vertex_init = []\<rparr>)
               (filter (\<lambda>t. barrier_bucket params inputs t \<noteq> [])
                  [0..<nat (sint (max_tile params) + 1)])"
    using c by simp
  have "computeSets g' = Suc (computeSets g)" using c by simp
  then show ?thesis using c rng' total verts by blast
qed

theorem barrier_tile_bucketing_witness:
  "TileDataBarrierPrimitive_program barrier_example_graph barrier_example_inputs [] barrier_example
     = Returned (Sequence [Execute 5], barrier_example_inputs) barrier_example_result
   \<and> 0 \<le> sint (max_tile barrier_example) + 1
   \<and> list_all (\<lambda>idx. idx < length (inputs_tiles barrier_example)
                \<and> list_all (\<lambda>t. size_t_of t < nat (sint (max_tile barrier_example) + 1))
                      (inputs_tiles barrier_example ! idx))
        [0..<length barrier_example_inputs]
   \<and> sum_list (map (\<lambda>t. length (barrier_bucket barrier_example barrier_example_inputs t))
                 [0..<nat (sint (max_tile barrier_example) + 1)])
       = sum_list (map (\<lambda>idx. length (inputs_tiles barrier_example ! idx))
                     [0..<length barrier_example_inputs])
   \<and> vertices barrier_example_result = vertices barrier_example_graph @
         map (\<lambda>t. \<lparr>vertex_cs = computeSets barrier_example_graph,
                    vertex_name = vname barrier_example,
                    vertex_tile = Some t, vertex_perf = Some 14,
                    vertex_edges = [(''data'', EdgeVector
                       (barrier_bucket barrier_example barrier_example_inputs t))],
                    vertex_init = []\<rparr>)
           (filter (\<lambda>t. barrier_bucket barrier_example barrier_example_inputs t \<noteq> [])
              [0..<nat (sint (max_tile barrier_example) + 1)])
   \<and> computeSets barrier_example_result = Suc (computeSets barrier_example_graph)
   \<and> Sequence [Execute 5] = Sequence [Execute (computeSets barrier_example_graph)]"
proof -
  have h: "TileDataBarrierPrimitive_program barrier_example_graph barrier_example_inputs []
             barrier_example
     = Returned (Sequence [Execute 5], barrier_example_inputs) barrier_example_result"
    by code_simp
  show ?thesis
    by (rule conjI [OF h barrier_tile_bucketing [OF h]])
qed

section \<open>Tile data barrier: reinterpretation table\<close>

text \<open>
  C5. The barrier reinterprets an input of the 8-bit family (bool, char, signed char,
  unsigned char) as unsigned char, of the 16-bit family (short, unsigned short, half) as
  unsigned short, of the 32-bit family (int, unsigned int, float) as unsigned int, keeping
  shape and storage; for every other element type, the 64-bit ones included, it throws.
\<close>

theorem tileBarrierReinterpretTensor_table:
  "tileBarrierReinterpretTensor t =
     (if elementType t \<in> {BOOL, CHAR_T, SIGNED_CHAR, UNSIGNED_CHAR}
      then Inr (t\<lparr>elementType := UNSIGNED_CHAR\<rparr>)
      else if elementType t \<in> {SHORT, UNSIGNED_SHORT, HALF}
      then Inr (t\<lparr>elementType := UNSIGNED_SHORT\<rparr>)
      else if elementType t \<in> {INT_T, UNSIGNED_INT, FLOAT}
      then Inr (t\<lparr>elementType := UNSIGNED_INT\<rparr>)
      else Inl runtime_error)"
  by (simp add: tileBarrierReinterpretTensor_def reinterpret_def)

section \<open>Tile data barrier: unchecked preconditions\<close>

text \<open>
  C10. The bucketing loop of the barrier reads \<^verbatim>\<open>params.inputs_tiles[idx]\<close> and
  \<^verbatim>\<open>tensors_per_tiles[tiles[k]]\<close> with the unchecked \<^verbatim>\<open>operator[]\<close>. The
  precondition is that \<open>inputs_tiles\<close> has at least as many tile arrays as there are
  inputs and that every tile of the arrays of the inputs lies in \<open>[0, max_tile]\<close>. Under
  the precondition no read is out of bounds. Without it, inputs that fit the descriptor
  otherwise end in a read out of bounds; and whatever the inputs, a run that returns
  satisfied the precondition. With at least one input the primitive never throws a
  validation error of its own: the invariants are never validated.
\<close>

theorem barrier_bucketing_unchecked:
  "(barrier_precondition params (length inputs) \<longrightarrow>
      TileDataBarrierPrimitive_program g inputs outputs params \<noteq> Undefined OutOfBounds)
   \<and> (barrier_inputs_fit params inputs \<and> \<not> barrier_precondition params (length inputs) \<longrightarrow>
        TileDataBarrierPrimitive_program g inputs outputs params = Undefined OutOfBounds)
   \<and> (TileDataBarrierPrimitive_program g inputs outputs params = Returned (prog, outs) g' \<longrightarrow>
        barrier_precondition params (length inputs))
   \<and> (inputs \<noteq> [] \<longrightarrow>
        TileDataBarrierPrimitive_program g inputs outputs params \<noteq> Thrown poplibs_error g'')"
proof (intro conjI impI)
  assume "barrier_precondition params (length inputs)"
  then show "TileDataBarrierPrimitive_program g inputs outputs params \<noteq> Undefined OutOfBounds"
    by (rule TileDataBarrier_in_bounds)
next
  assume "barrier_inputs_fit params inputs \<and> \<not> barrier_precondition params (length inputs)"
  then show "TileDataBarrierPrimitive_program g inputs outputs params = Undefined OutOfBounds"
    using TileDataBarrier_out_of_bounds by blast
next
  assume "TileDataBarrierPrimitive_program g inputs outputs params = Returned (prog, outs) g'"
  then show "barrier_precondition params (length inputs)"
    by (rule TileDataBarrier_Returned_precondition)
next
  assume "inputs \<noteq> []"
  then show "TileDataBarrierPrimitive_program g inputs outputs params \<noteq> Thrown poplibs_error g''"
    by (rule TileDataBarrier_no_validation)
qed

theorem barrier_bucketing_unchecked_witness:
  "barrier_precondition barrier_example (length barrier_example_inputs)
   \<and> TileDataBarrierPrimitive_program barrier_example_graph barrier_example_inputs []
        barrier_example \<noteq> Undefined OutOfBounds
   \<and> barrier_inputs_fit barrier_example_bad barrier_example_inputs
   \<and> \<not> barrier_precondition barrier_example_bad (length barrier_example_inputs)
   \<and> TileDataBarrierPrimitive_program barrier_example_graph barrier_example_inputs []
        barrier_example_bad = Undefined OutOfBounds
   \<and> TileDataBarrierPrimitive_program barrier_example_graph barrier_example_inputs []
        barrier_example
       = Returned (Sequence [Execute 5], barrier_example_inputs) barrier_example_result
   \<and> barrier_example_inputs \<noteq> []
   \<and> TileDataBarrierPrimitive_program barrier_example_graph barrier_example_inputs []
        barrier_example \<noteq> Thrown poplibs_error barrier_example_graph"
proof -
  have pre: "barrier_precondition barrier_example (length barrier_example_inputs)"
    by (simp add: barrier_precondition_def barrier_example_def barrier_example_inputs_def)
  have fit: "barrier_inputs_fit barrier_example_bad barrier_example_inputs"
    by (simp add: barrier_inputs_fit_def barrier_example_bad_def barrier_example_inputs_def)
  have npre: "\<not> barrier_precondition barrier_example_bad (length barrier_example_inputs)"
    by (simp add: barrier_precondition_def barrier_example_bad_def barrier_example_inputs_def)
  have ret: "TileDataBarrierPrimitive_program barrier_example_graph barrier_example_inputs []
        barrier_example
       = Returned (Sequence [Execute 5], barrier_example_inputs) barrier_example_result"
    by code_simp
  have ne: "barrier_example_inputs \<noteq> []"
    by (simp add: barrier_example_inputs_def)
  note p1 = barrier_bucketing_unchecked
    [where params = barrier_example and inputs = barrier_example_inputs
       and g = barrier_example_graph and outputs = "[]",
     THEN conjunct1, rule_format, OF pre]
  note p2 = barrier_bucketing_unchecked
    [where params = barrier_example_bad and inputs = barrier_example_inputs
       and g = barrier_example_graph and outputs = "[]",
     THEN conjunct2, THEN conjunct1, rule_format, OF conjI [OF fit npre]]
  note p3 = barrier_bucketing_unchecked
    [where params = barrier_example and inputs = barrier_example_inputs
       and g = barrier_example_graph and outputs = "[]",
     THEN conjunct2, THEN conjunct2, THEN conjunct1, rule_format, OF ret]
  note p4 = barrier_bucketing_unchecked
    [where params = barrier_example and inputs = barrier_example_inputs
       and g = barrier_example_graph and outputs = "[]"
       and g'' = barrier_example_graph,
     THEN conjunct2, THEN conjunct2, THEN conjunct2, rule_format, OF ne]
  show ?thesis
    by (intro conjI p3 p1 fit npre p2 ret ne p4)
qed

section \<open>Tile-mapped equation: resolution of InOut outputs\<close>

text \<open>
  C9 (as amended). An output of role \<open>InOut\<close> is resolved by the first input descriptor
  that carries its name: with the inputs matching the input descriptors in number, the
  step returns the input at that position, and throws \<^verbatim>\<open>std::out_of_range\<close> when no
  input descriptor carries the name; a second descriptor of the same name is never looked
  at. Whenever the primitive returns, it returns one handle per output descriptor, and the
  handle of every \<open>InOut\<close> output is the input at the first match, which exists.
\<close>

theorem inout_resolution:
  "(iotype outinfo = InOut \<and> length inputs = length (inputs_info eqn) \<longrightarrow>
      allocate_body toPoplar eqn inputs outinfo outputs g
        = (if name outinfo \<in> set (map name (inputs_info eqn))
           then Returned (outputs @ [inputs ! first_match eqn outinfo]) g
           else Thrown out_of_range g))
   \<and> (name outinfo \<in> set (map name (inputs_info eqn)) \<longrightarrow>
        first_match eqn outinfo < length (inputs_info eqn)
      \<and> name (inputs_info eqn ! first_match eqn outinfo) = name outinfo
      \<and> list_all (\<lambda>ininfo. name ininfo \<noteq> name outinfo)
           (take (first_match eqn outinfo) (inputs_info eqn)))
   \<and> (TileMapEquationCall_program toPoplar g inputs caller_outputs eqn = Returned (prog, outs) g' \<longrightarrow>
        length outs = length (outputs_info eqn)
      \<and> list_all (\<lambda>k. iotype (outputs_info eqn ! k) = InOut \<longrightarrow>
                      name (outputs_info eqn ! k) \<in> set (map name (inputs_info eqn))
                    \<and> outs ! k = inputs ! first_match eqn (outputs_info eqn ! k))
           [0..<length (outputs_info eqn)])"
proof (intro conjI impI)
  assume "iotype outinfo = InOut \<and> length inputs = length (inputs_info eqn)"
  then show "allocate_body toPoplar eqn inputs outinfo outputs g
        = (if name outinfo \<in> set (map name (inputs_info eqn))
           then Returned (outputs @ [inputs ! first_match eqn outinfo]) g
           else Thrown out_of_range g)"
    using allocate_body_InOut by blast
next
  assume "name outinfo \<in> set (map name (inputs_info eqn))"
  then have "\<exists>x\<in>set (inputs_info eqn). name x = name outinfo" by auto
  from find_if_distance_found [OF this]
  have lt: "first_match eqn outinfo < length (inputs_info eqn)"
    and hit: "name (inputs_info eqn ! first_match eqn outinfo) = name outinfo"
    and before: "\<forall>j<first_match eqn outinfo. name (inputs_info eqn ! j) \<noteq> name outinfo"
    by (simp_all add: first_match_def)
  show "first_match eqn outinfo < length (inputs_info eqn)" by (rule lt)
  show "name (inputs_info eqn ! first_match eqn outinfo) = name outinfo" by (rule hit)
  show "list_all (\<lambda>ininfo. name ininfo \<noteq> name outinfo)
           (take (first_match eqn outinfo) (inputs_info eqn))"
    unfolding list_all_iff using before lt by (auto simp: in_set_conv_nth)
next
  assume ret: "TileMapEquationCall_program toPoplar g inputs caller_outputs eqn = Returned (prog, outs) g'"
  from TileMapEquationCall_outputs [OF ret] obtain g1 where
    al: "foreach (outputs_info eqn) (allocate_body toPoplar eqn inputs) [] g = Returned outs g1"
    and len: "length inputs = length (inputs_info eqn)"
    by (auto simp: allocateOutputTensors_def split: if_splits)
  from allocate_loop [OF al len]
  have l: "length outs = length (outputs_info eqn)"
    and each: "\<forall>k<length (outputs_info eqn). iotype (outputs_info eqn ! k) = InOut \<longrightarrow>
            name (outputs_info eqn ! k) \<in> set (map name (inputs_info eqn))
          \<and> outs ! k = inputs ! first_match eqn (outputs_info eqn ! k)"
    by auto
  show "length outs = length (outputs_info eqn)" by (rule l)
  show "list_all (\<lambda>k. iotype (outputs_info eqn ! k) = InOut \<longrightarrow>
                      name (outputs_info eqn ! k) \<in> set (map name (inputs_info eqn))
                    \<and> outs ! k = inputs ! first_match eqn (outputs_info eqn ! k))
           [0..<length (outputs_info eqn)]"
    unfolding list_all_iff using each by simp
qed

text \<open>
  The claim as stated fails: with two input descriptors named \<open>x\<close> and an \<open>InOut\<close>
  output named \<open>x\<close>, the allocation of the outputs does not fail; it returns the first
  input.
\<close>

theorem inout_duplicate_counterexample:
  "map name (inputs_info example_equation_duplicate) = [''x'', ''x'']
   \<and> map name (outputs_info example_equation_duplicate) = [''x'']
   \<and> map iotype (outputs_info example_equation_duplicate) = [InOut]
   \<and> allocateOutputTensors id example_equation_duplicate equation_example_inputs
        equation_example_graph
       = Returned [equation_example_inputs ! 0] equation_example_graph"
  by code_simp

theorem inout_resolution_witness:
  "iotype (example_io ''x'' InOut 1) = InOut
   \<and> length equation_example_inputs = length (inputs_info example_equation_duplicate)
   \<and> allocate_body id example_equation_duplicate equation_example_inputs
        (example_io ''x'' InOut 1) [] equation_example_graph
       = (if name (example_io ''x'' InOut 1)
               \<in> set (map name (inputs_info example_equation_duplicate))
          then Returned ([] @ [equation_example_inputs
                   ! first_match example_equation_duplicate (example_io ''x'' InOut 1)])
                 equation_example_graph
          else Thrown out_of_range equation_example_graph)
   \<and> name (example_io ''x'' InOut 1) \<in> set (map name (inputs_info example_equation_duplicate))
   \<and> first_match example_equation_duplicate (example_io ''x'' InOut 1)
       < length (inputs_info example_equation_duplicate)
   \<and> name (inputs_info example_equation_duplicate
             ! first_match example_equation_duplicate (example_io ''x'' InOut 1))
       = name (example_io ''x'' InOut 1)
   \<and> list_all (\<lambda>ininfo. name ininfo \<noteq> name (example_io ''x'' InOut 1))
        (take (first_match example_equation_duplicate (example_io ''x'' InOut 1))
           (inputs_info example_equation_duplicate))
   \<and> TileMapEquationCall_program id equation_example_graph equation_example_inputs []
        example_equation_inout
       = Returned (Sequence [Execute 0], example_equation_inout_outputs)
           example_equation_inout_graph
   \<and> length example_equation_inout_outputs = length (outputs_info example_equation_inout)
   \<and> list_all (\<lambda>k. iotype (outputs_info example_equation_inout ! k) = InOut \<longrightarrow>
                   name (outputs_info example_equation_inout ! k)
                     \<in> set (map name (inputs_info example_equation_inout))
                 \<and> example_equation_inout_outputs ! k
                     = equation_example_inputs
                         ! first_match example_equation_inout
                             (outputs_info example_equation_inout ! k))
        [0..<length (outputs_info example_equation_inout)]"
proof -
  have h1: "iotype (example_io ''x'' InOut 1) = InOut"
    by code_simp
  have h2: "length equation_example_inputs = length (inputs_info example_equation_duplicate)"
    by code_simp
  have h3: "name (example_io ''x'' InOut 1)
              \<in> set (map name (inputs_info example_equation_duplicate))"
    by code_simp
  have h4: "TileMapEquationCall_program id equation_example_graph equation_example_inputs []
        example_equation_inout
       = Returned (Sequence [Execute 0], example_equation_inout_outputs)
           example_equation_inout_graph"
    by code_simp
  note p1 = inout_resolution
    [where outinfo = "example_io ''x'' InOut 1" and eqn = example_equation_duplicate
       and inputs = equation_example_inputs and toPoplar = id and outputs = "[]"
       and g = equation_example_graph,
     THEN conjunct1, rule_format, OF conjI [OF h1 h2]]
  note p2 = inout_resolution
    [where outinfo = "example_io ''x'' InOut 1" and eqn = example_equation_duplicate,
     THEN conjunct2, THEN conjunct1, rule_format, OF h3]
  note p3 = inout_resolution
    [where eqn = example_equation_inout and inputs = equation_example_inputs and toPoplar = id
       and caller_outputs = "[]" and g = equation_example_graph,
     THEN conjunct2, THEN conjunct2, rule_format, OF h4]
  show ?thesis
    by (intro conjI h1 h2 p1 h3 p2 [THEN conjunct1] p2 [THEN conjunct2, THEN conjunct1]
        p2 [THEN conjunct2, THEN conjunct2] h4 p3 [THEN conjunct1] p3 [THEN conjunct2])
qed

section \<open>Failures and the graph they leave behind\<close>




section \<open>Sharded placement: the output and its value\<close>

text \<open>
  C7. For a single well-formed input of the graph whose leading extent is the length of the
  tile array, with tiles the target has: the sharded placement returns one copy from the
  input to the output; the output is a variable the graph did not have (so it shares no
  storage with the input), of the input's element type, with one partition of the input's
  trailing shape per entry of the tile array; every storage element of partition \<open>i\<close> is
  mapped to entry \<open>i\<close> of the tile array; and after the copy has run, partition \<open>i\<close> of the
  output holds the value \<open>X[i]\<close> had before, the whole output the value of the whole input.
\<close>

theorem sharded_placement_correct:
  assumes wf: "wf_tensor input"
    and ing: "list_all (\<lambda>e. fst e < length (variables g)) (elems input)"
    and tin: "tshape input = length tile_array # sh"
    and tls: "list_all (\<lambda>t. unat t < numTiles g) tile_array"
    and i: "i < length tile_array"
  shows "\<exists>out g' src dst.
       TilePutShardedPrimitive_program g [input] outputs tile_array
         = Returned (Copy input out, outputs @ [out]) g'
     \<and> out = var_tensor (length (variables g)) (elementType input) (length tile_array # sh)
     \<and> variables g' = variables g @ [(elementType input, length tile_array # sh)]
     \<and> set (elems out) \<inter> set (elems input) = {}
     \<and> elementType out = elementType input
     \<and> tshape out = length tile_array # sh
     \<and> index input i = Inr src
     \<and> index out i = Inr dst
     \<and> tshape dst = sh
     \<and> list_all (\<lambda>e. tile_of g' e = Some (unat (tile_array ! i))) (elems dst)
     \<and> tensor_value (run E (Copy input out) s) dst = tensor_value s src
     \<and> tensor_value (run E (Copy input out) s) out = tensor_value s input"
proof -
  let ?n = "length tile_array" and ?ty = "elementType input" and ?m = "prod_list sh"
  let ?v = "length (variables g)"
  let ?out = "var_tensor ?v ?ty (?n # sh)"
  let ?g' = "sharded_graph g ?ty sh tile_array ?n"
  let ?src = "input\<lparr>tshape := sh, elems := take ?m (drop (i * ?m) (elems input))\<rparr>"
  let ?dst = "sharded_part ?v ?ty sh i"
  have ne: "tile_array \<noteq> []" using i by auto
  have ret: "TilePutShardedPrimitive_program g [input] outputs tile_array
         = Returned (Copy input ?out, outputs @ [?out]) ?g'"
    by (rule TilePutSharded_closed [OF tin ne tls])
  have vars: "variables ?g' = variables g @ [(?ty, ?n # sh)]"
    by (simp add: sharded_graph_def)
  have fresh: "set (elems ?out) \<inter> set (elems input) = {}"
    using ing by (auto simp: var_tensor_elems list_all_iff)
  have src: "index input i = Inr ?src"
    using tin i by (simp add: index_def)
  have dst: "index ?out i = Inr ?dst"
    using i by (rule index_var_tensor)
  have dsh: "tshape ?dst = sh"
    by (simp add: sharded_part_def)
  have tiles: "list_all (\<lambda>e. tile_of ?g' e = Some (unat (tile_array ! i))) (elems ?dst)"
    using sharded_graph_tile_of [OF i] by (simp add: list_all_iff)
  have len: "length (elems input) = length (elems ?out)"
    using wf tin by (simp add: wf_tensor_def)
  have whole: "tensor_value (run E (Copy input ?out) s) ?out = tensor_value s input"
    using copy_store_dst [OF var_tensor_distinct len] by simp
  have "elems ?dst = take ?m (drop (i * ?m) (elems ?out))"
    using index_wf [OF _ dst] by simp
  then have part: "tensor_value (run E (Copy input ?out) s) ?dst = tensor_value s ?src"
    by (rule tensor_value_slice [OF _ _ whole]) simp
  show ?thesis
    using ret vars fresh src dst dsh tiles part whole by (intro exI conjI) simp_all
qed

theorem sharded_placement_correct_witness:
  "wf_tensor sharded_example_input
   \<and> list_all (\<lambda>e. fst e < length (variables sharded_example_graph))
        (elems sharded_example_input)
   \<and> tshape sharded_example_input = length sharded_example_tiles # [2]
   \<and> list_all (\<lambda>t. unat t < numTiles sharded_example_graph) sharded_example_tiles
   \<and> (1 :: nat) < length sharded_example_tiles
   \<and> (\<exists>out g' src dst.
       TilePutShardedPrimitive_program sharded_example_graph [sharded_example_input] []
           sharded_example_tiles
         = Returned (Copy sharded_example_input out, [] @ [out]) g'
     \<and> out = var_tensor (length (variables sharded_example_graph))
               (elementType sharded_example_input) (length sharded_example_tiles # [2])
     \<and> variables g' = variables sharded_example_graph
           @ [(elementType sharded_example_input, length sharded_example_tiles # [2])]
     \<and> set (elems out) \<inter> set (elems sharded_example_input) = {}
     \<and> elementType out = elementType sharded_example_input
     \<and> tshape out = length sharded_example_tiles # [2]
     \<and> index sharded_example_input 1 = Inr src
     \<and> index out 1 = Inr dst
     \<and> tshape dst = [2]
     \<and> list_all (\<lambda>e. tile_of g' e = Some (unat (sharded_example_tiles ! 1))) (elems dst)
     \<and> tensor_value (run (\<lambda>cs st. st) (Copy sharded_example_input out)
                        (\<lambda>e. 10 * fst e + snd e)) dst
         = tensor_value (\<lambda>e. 10 * fst e + snd e) src
     \<and> tensor_value (run (\<lambda>cs st. st) (Copy sharded_example_input out)
                        (\<lambda>e. 10 * fst e + snd e)) out
         = tensor_value (\<lambda>e. 10 * fst e + snd e) sharded_example_input)"
proof -
  have h1: "wf_tensor sharded_example_input"
    by code_simp
  have h2: "list_all (\<lambda>e. fst e < length (variables sharded_example_graph))
        (elems sharded_example_input)"
    by code_simp
  have h3: "tshape sharded_example_input = length sharded_example_tiles # [2]"
    by code_simp
  have h4: "list_all (\<lambda>t. unat t < numTiles sharded_example_graph) sharded_example_tiles"
    by (simp add: sharded_example_tiles_def sharded_example_graph_def)
  have h5: "(1 :: nat) < length sharded_example_tiles"
    by code_simp
  show ?thesis
    by (intro conjI h1 h2 h3 h4 h5 sharded_placement_correct [OF h1 h2 h3 h4 h5])
qed

end
